(* ===== verification/Prelude.thy ===== *)
theory Prelude
  imports Main "HOL-Library.Word" "HOL-Library.AList"
begin

text \<open>
  Shared vocabulary of the development: Go's machine integers as \<open>int\<close> with the
  wrap-around written out, byte slices, Go maps as association lists with distinct keys,
  and the generic lemmas and collections the component theories use.
\<close>

section \<open>Names of the model's types\<close>

type_synonym byte = "8 word"
type_synonym bytes = "8 word list"
type_synonym ('k, 'v) gomap = "('k \<times> 'v) list"

named_theorems step_defs \<open>definitions unfolded when one step of a component is evaluated\<close>
named_theorems frame_simps \<open>fields an operation leaves alone\<close>

section \<open>Signed 64-bit integers\<close>

text \<open>
  Go's \<open>int64\<close> (and \<open>int\<close> on a 64-bit platform) is two's complement: every arithmetic
  result is reduced by \<open>i64\<close>. Division truncates towards zero, and the remainder has
  the sign of the dividend.
\<close>

definition i64 :: "int \<Rightarrow> int" where
  "i64 x = (x + 2 ^ 63) mod 2 ^ 64 - 2 ^ 63"

definition in_i64 :: "int \<Rightarrow> bool" where
  "in_i64 x \<longleftrightarrow> - (2 ^ 63) \<le> x \<and> x < 2 ^ 63"

definition go_quot :: "int \<Rightarrow> int \<Rightarrow> int" where
  "go_quot a b = sgn a * sgn b * (\<bar>a\<bar> div \<bar>b\<bar>)"

definition go_rem :: "int \<Rightarrow> int \<Rightarrow> int" where
  "go_rem a b = a - b * go_quot a b"

lemma i64_id [simp]: "in_i64 x \<Longrightarrow> i64 x = x"
  by (simp add: i64_def in_i64_def)

lemma in_i64_i64 [simp]: "in_i64 (i64 x)"
proof -
  have "0 \<le> (x + 2 ^ 63) mod 2 ^ 64" "(x + 2 ^ 63) mod 2 ^ 64 < (2::int) ^ 64"
    by simp_all
  then show ?thesis by (simp add: in_i64_def i64_def)
qed

lemma in_i64_between: "0 \<le> x \<Longrightarrow> x \<le> y \<Longrightarrow> in_i64 y \<Longrightarrow> in_i64 x"
  by (auto simp: in_i64_def)

lemma in_i64_small: "- 9223372036854775808 \<le> x \<Longrightarrow> x < 9223372036854775808 \<Longrightarrow> in_i64 x"
  by (simp add: in_i64_def)

lemma in_i64_lt: "in_i64 x \<Longrightarrow> x < 9223372036854775808"
  by (simp add: in_i64_def)

lemma go_quot_nonneg: "0 \<le> a \<Longrightarrow> 0 < b \<Longrightarrow> go_quot a b = a div b"
  by (cases "a = 0") (simp_all add: go_quot_def)

lemma go_rem_nonneg: "0 \<le> a \<Longrightarrow> 0 < b \<Longrightarrow> go_rem a b = a mod b"
  by (simp add: go_rem_def go_quot_nonneg minus_mult_div_eq_mod)

section \<open>Ceiling division, the number of chunks of a file\<close>

lemma ceil_div_le_iff:
  fixes n :: int
  assumes "0 < c"
  shows "i < (n + c - 1) div c \<longleftrightarrow> i * c < n"
proof
  assume "i < (n + c - 1) div c"
  then have "i + 1 \<le> (n + c - 1) div c" by simp
  then have "(i + 1) * c \<le> (n + c - 1) div c * c"
    using assms by (intro mult_right_mono) auto
  also have "\<dots> \<le> n + c - 1"
  proof -
    have "0 \<le> (n + c - 1) mod c" using assms by simp
    then show ?thesis unfolding minus_mod_eq_div_mult [symmetric] by linarith
  qed
  finally show "i * c < n" by (simp add: algebra_simps)
next
  assume "i * c < n"
  then have "(i + 1) * c \<le> n + c - 1" by (simp add: algebra_simps)
  then have "i + 1 \<le> (n + c - 1) div c"
    using assms zdiv_mono1 [of "(i + 1) * c" "n + c - 1" c] by simp
  then show "i < (n + c - 1) div c" by simp
qed

section \<open>Go maps as association lists\<close>

abbreviation map_get :: "('k, 'v) gomap \<Rightarrow> 'k \<Rightarrow> 'v option" where
  "map_get m k \<equiv> map_of m k"

abbreviation map_put :: "'k \<Rightarrow> 'v \<Rightarrow> ('k, 'v) gomap \<Rightarrow> ('k, 'v) gomap" where
  "map_put k v m \<equiv> AList.update k v m"

abbreviation map_del :: "'k \<Rightarrow> ('k, 'v) gomap \<Rightarrow> ('k, 'v) gomap" where
  "map_del k m \<equiv> AList.delete k m"

abbreviation map_ok :: "('k, 'v) gomap \<Rightarrow> bool" where
  "map_ok m \<equiv> distinct (map fst m)"

declare map_of_eq_Some_iff [simp del]

lemma length_map_del:
  "map_get m k = Some v \<Longrightarrow> length (map_del k m) < length m"
proof -
  assume "map_get m k = Some v"
  then have "(k, v) \<in> set m" by (rule map_of_SomeD)
  then have "length (filter (\<lambda>p. k \<noteq> fst p) m) < length m"
    by (intro length_filter_less) auto
  then show ?thesis by (simp add: AList.delete_eq case_prod_unfold)
qed

lemma map_ok_del [simp]: "map_ok m \<Longrightarrow> map_ok (map_del k m)"
  by (rule AList.distinct_delete)

lemma map_ok_put [simp]: "map_ok m \<Longrightarrow> map_ok (map_put k v m)"
  by (rule AList.distinct_update)

lemma map_get_del [simp]: "map_get (map_del k m) k' = (if k' = k then None else map_get m k')"
  by (simp add: AList.delete_conv')

lemma map_get_put [simp]: "map_get (map_put k v m) k' = (if k' = k then Some v else map_get m k')"
  by (simp add: AList.update_conv')

lemma map_put_new: "map_get m k = None \<Longrightarrow> map_put k v m = m @ [(k, v)]"
  by (induction m) (auto split: if_splits)

text \<open>The number of bytes held in a map of byte payloads.\<close>

definition held :: "('v \<Rightarrow> bytes) \<Rightarrow> ('k, 'v) gomap \<Rightarrow> int" where
  "held f m = (\<Sum>p\<leftarrow>m. int (length (f (snd p))))"

lemma held_Nil [simp]: "held f [] = 0"
  by (simp add: held_def)

lemma held_nonneg [simp]: "0 \<le> held f m"
  unfolding held_def by (rule sum_list_nonneg) auto

lemma held_put_new:
  "map_get m k = None \<Longrightarrow> held f (map_put k v m) = held f m + int (length (f v))"
  by (simp add: map_put_new held_def)

lemma held_del:
  "map_ok m \<Longrightarrow> map_get m k = Some v \<Longrightarrow> held f (map_del k m) = held f m - int (length (f v))"
proof (induction m)
  case Nil
  then show ?case by simp
next
  case (Cons p m)
  obtain k' v' where p: "p = (k', v')" by (cases p)
  show ?case
  proof (cases "k' = k")
    case True
    with Cons.prems p have "k \<notin> fst ` set m" by auto
    then have "map_del k m = m" by (simp add: AList.delete_idem)
    with Cons.prems p True show ?thesis by (simp add: held_def)
  next
    case False
    with Cons p show ?thesis by (simp add: held_def)
  qed
qed

section \<open>List lemmas\<close>

lemma take_append_exact: "take (length xs) (xs @ ys) = xs"
  by simp

lemma drop_take_chunk:
  "i + n \<le> length xs \<Longrightarrow> take i xs @ take n (drop i xs) = take (i + n) xs"
  by (simp add: take_add)

section \<open>Invariants of step relations\<close>

text \<open>
  The contract between a component given by its initial states and its steps, and the
  invariant proved for it: the clients speak of every state a run can reach.
\<close>

locale transition_system =
  fixes init :: "'s \<Rightarrow> bool" and step :: "'s \<Rightarrow> 's \<Rightarrow> bool" and inv :: "'s \<Rightarrow> bool"
  assumes inv_init: "init s \<Longrightarrow> inv s"
    and inv_step: "inv s \<Longrightarrow> step s t \<Longrightarrow> inv t"
begin

lemma inv_run: "step\<^sup>*\<^sup>* s t \<Longrightarrow> inv s \<Longrightarrow> inv t"
  by (induction rule: rtranclp_induct) (auto intro: inv_step)

lemma inv_reachable: "init s \<Longrightarrow> step\<^sup>*\<^sup>* s t \<Longrightarrow> inv t"
  using inv_run inv_init by blast

end

section \<open>Codecs\<close>

text \<open>
  The contract of a wire format: a value for which \<open>ok\<close> holds is read back from its encoding.
  The clients send sequences of messages over a channel that keeps their boundaries.
\<close>

locale wire_codec =
  fixes enc :: "'a \<Rightarrow> 'e + 'w" and dec :: "'w \<Rightarrow> 'e + 'a" and ok :: "'a \<Rightarrow> bool"
  assumes roundtrip: "ok x \<Longrightarrow> enc x = Inr w \<Longrightarrow> dec w = Inr x"
begin

lemma enc_inj: "ok x \<Longrightarrow> ok y \<Longrightarrow> enc x = Inr w \<Longrightarrow> enc y = Inr w \<Longrightarrow> x = y"
  using roundtrip [of x w] roundtrip [of y w] by simp

lemma decode_stream: "list_all ok xs \<Longrightarrow> map enc xs = map Inr ws \<Longrightarrow> map dec ws = map Inr xs"
proof (induction xs arbitrary: ws)
  case (Cons x xs)
  then show ?case using roundtrip by (cases ws) auto
qed simp

end

end
