(* ===== verification/Go_Json.thy ===== *)
theory Go_Json
  imports Prelude
begin

text \<open>
  The part of Go's \<open>encoding/json\<close> the program relies on. A Go string is a byte sequence,
  here a \<open>string\<close> (HOL characters are bytes). \<open>json_text\<close> prints a value as
  \<open>json.Marshal\<close> does: no white space, HTML-safe escapes, invalid UTF-8 replaced by
  U+FFFD. \<open>json_parse\<close> accepts what \<open>json.Unmarshal\<close> accepts: a lexer over the bytes and
  a push-down machine over the tokens with Go's nesting limit of 10000. The functions at
  the end read object members into struct fields the way Unmarshal does: later members
  overwrite earlier ones, an exact name match is preferred to a case-insensitive one, null
  leaves a field alone, and a value of the wrong type is an error.
\<close>

datatype json =
    JNull
  | JBool bool
  | JNum string
  | JStr string
  | JArr "json list"
  | JObj "(string \<times> json) list"

abbreviation ord :: "char \<Rightarrow> nat" where "ord c \<equiv> of_char c"
abbreviation bslash :: char where "bslash \<equiv> CHR 0x5C"
abbreviation dquote :: char where "dquote \<equiv> CHR 0x22"

section \<open>UTF-8\<close>

definition cont_byte :: "char \<Rightarrow> bool" where
  "cont_byte c \<longleftrightarrow> 128 \<le> ord c \<and> ord c \<le> 191"

text \<open>The range of the second byte depends on the first (no overlong forms, no surrogates).\<close>

definition second_byte :: "char \<Rightarrow> char \<Rightarrow> bool" where
  "second_byte c0 c1 \<longleftrightarrow>
     (if ord c0 = 224 then 160 \<le> ord c1 \<and> ord c1 \<le> 191
      else if ord c0 = 237 then 128 \<le> ord c1 \<and> ord c1 \<le> 159
      else if ord c0 = 240 then 144 \<le> ord c1 \<and> ord c1 \<le> 191
      else if ord c0 = 244 then 128 \<le> ord c1 \<and> ord c1 \<le> 143
      else cont_byte c1)"

text \<open>The width of the encoding at the head of a string, 0 where \<open>utf8.DecodeRune\<close> fails.\<close>

fun utf8_width :: "string \<Rightarrow> nat" where
  "utf8_width [] = 0"
| "utf8_width (c0 # cs) =
     (if ord c0 < 128 then 1
      else if ord c0 < 194 then 0
      else if ord c0 < 224 then
        (case cs of c1 # _ \<Rightarrow> if cont_byte c1 then 2 else 0 | _ \<Rightarrow> 0)
      else if ord c0 < 240 then
        (case cs of c1 # c2 # _ \<Rightarrow> if second_byte c0 c1 \<and> cont_byte c2 then 3 else 0 | _ \<Rightarrow> 0)
      else if ord c0 < 245 then
        (case cs of c1 # c2 # c3 # _ \<Rightarrow>
           if second_byte c0 c1 \<and> cont_byte c2 \<and> cont_byte c3 then 4 else 0 | _ \<Rightarrow> 0)
      else 0)"

function valid_utf8 :: "string \<Rightarrow> bool" where
  "valid_utf8 [] = True"
| "valid_utf8 (c # cs) =
     (utf8_width (c # cs) \<noteq> 0 \<and> valid_utf8 (drop (utf8_width (c # cs) - 1) cs))"
  by pat_completeness auto
termination
  by (relation "measure length") auto

declare utf8_width.simps [simp del]

definition utf8_encode :: "nat \<Rightarrow> string" where
  "utf8_encode r =
     (if r < 128 then [char_of r]
      else if r < 2048 then [char_of (192 + r div 64), char_of (128 + r mod 64)]
      else if r < 65536 then
        [char_of (224 + r div 4096), char_of (128 + r div 64 mod 64), char_of (128 + r mod 64)]
      else [char_of (240 + r div 262144), char_of (128 + r div 4096 mod 64),
            char_of (128 + r div 64 mod 64), char_of (128 + r mod 64)])"

definition replacement :: string where
  "replacement = utf8_encode 65533"

section \<open>String escapes\<close>

definition hex_digit :: "nat \<Rightarrow> char" where
  "hex_digit n = ''0123456789abcdef'' ! n"

definition hex_value :: "char \<Rightarrow> nat option" where
  "hex_value c =
     (if 48 \<le> ord c \<and> ord c \<le> 57 then Some (ord c - 48)
      else if 97 \<le> ord c \<and> ord c \<le> 102 then Some (ord c - 87)
      else if 65 \<le> ord c \<and> ord c \<le> 70 then Some (ord c - 55)
      else None)"

definition escape_ascii :: "char \<Rightarrow> string" where
  "escape_ascii c =
     (if c = dquote \<or> c = bslash then [bslash, c]
      else if ord c = 8 then [bslash, CHR ''b'']
      else if ord c = 12 then [bslash, CHR ''f'']
      else if ord c = 10 then [bslash, CHR ''n'']
      else if ord c = 13 then [bslash, CHR ''r'']
      else if ord c = 9 then [bslash, CHR ''t'']
      else if ord c < 32 \<or> c = CHR ''<'' \<or> c = CHR ''>'' \<or> c = CHR ''&'' then
        [bslash, CHR ''u'', CHR ''0'', CHR ''0'', hex_digit (ord c div 16), hex_digit (ord c mod 16)]
      else [c])"

definition line_separator :: string where
  "line_separator = [CHR 0xE2, CHR 0x80, CHR 0xA8]"

definition paragraph_separator :: string where
  "paragraph_separator = [CHR 0xE2, CHR 0x80, CHR 0xA9]"

definition escape_wide :: "string \<Rightarrow> string" where
  "escape_wide r =
     (if r = line_separator then bslash # ''u2028''
      else if r = paragraph_separator then bslash # ''u2029''
      else r)"

function escape :: "string \<Rightarrow> string" where
  "escape [] = []"
| "escape (c # cs) =
     (if ord c < 128 then escape_ascii c @ escape cs
      else if utf8_width (c # cs) = 0 then bslash # ''ufffd'' @ escape cs
      else escape_wide (take (utf8_width (c # cs)) (c # cs)) @
           escape (drop (utf8_width (c # cs) - 1) cs))"
  by pat_completeness auto
termination
  by (relation "measure length") auto

definition unescape :: "char \<Rightarrow> char option" where
  "unescape e =
     (if e = dquote \<or> e = bslash \<or> e = CHR ''/'' then Some e
      else if e = CHR ''b'' then Some (CHR 0x08)
      else if e = CHR ''f'' then Some (CHR 0x0C)
      else if e = CHR ''n'' then Some (CHR 0x0A)
      else if e = CHR ''r'' then Some (CHR 0x0D)
      else if e = CHR ''t'' then Some (CHR 0x09)
      else None)"

fun hex4 :: "string \<Rightarrow> nat option" where
  "hex4 (a # b # c # d # _) =
     (case (hex_value a, hex_value b, hex_value c, hex_value d) of
        (Some w, Some x, Some y, Some z) \<Rightarrow> Some (4096 * w + 256 * x + 16 * y + z)
      | _ \<Rightarrow> None)"
| "hex4 _ = None"

definition low_half :: "string \<Rightarrow> nat option" where
  "low_half r =
     (case r of b # e # r' \<Rightarrow> if b = bslash \<and> e = CHR ''u'' then hex4 r' else None | _ \<Rightarrow> None)"

text \<open>Reads back the body of a string literal, as the scanner and \<open>unquote\<close> of Go do.\<close>

function unquote :: "string \<Rightarrow> string option" where
  "unquote [] = Some []"
| "unquote (c # cs) =
     (if ord c < 32 \<or> c = dquote then None
      else if c = bslash then
        (case cs of
           [] \<Rightarrow> None
         | e # r \<Rightarrow>
             if e = CHR ''u'' then
               (case hex4 r of
                  None \<Rightarrow> None
                | Some u \<Rightarrow>
                    if 55296 \<le> u \<and> u < 57344 then
                      (case low_half (drop 4 r) of
                         Some v \<Rightarrow>
                           if u < 56320 \<and> 56320 \<le> v \<and> v < 57344 then
                             map_option ((@) (utf8_encode (65536 + 1024 * (u - 55296) + (v - 56320))))
                               (unquote (drop 10 r))
                           else map_option ((@) replacement) (unquote (drop 4 r))
                       | None \<Rightarrow> map_option ((@) replacement) (unquote (drop 4 r)))
                    else map_option ((@) (utf8_encode u)) (unquote (drop 4 r)))
             else (case unescape e of None \<Rightarrow> None | Some x \<Rightarrow> map_option ((#) x) (unquote r)))
      else if ord c < 128 then map_option ((#) c) (unquote cs)
      else if utf8_width (c # cs) = 0 then map_option ((@) replacement) (unquote cs)
      else map_option ((@) (take (utf8_width (c # cs)) (c # cs)))
             (unquote (drop (utf8_width (c # cs) - 1) cs)))"
  by pat_completeness auto
termination
  by (relation "measure length") auto

declare escape.simps [simp del] unquote.simps [simp del]

section \<open>Numbers\<close>

function nat_text :: "nat \<Rightarrow> string" where
  "nat_text n = (if n < 10 then [char_of (48 + n)] else nat_text (n div 10) @ [char_of (48 + n mod 10)])"
  by pat_completeness auto
termination
  by (relation "measure id") auto

declare nat_text.simps [simp del]

definition int_text :: "int \<Rightarrow> string" where
  "int_text i = (if i < 0 then CHR ''-'' # nat_text (nat (- i)) else nat_text (nat i))"

definition digit :: "char \<Rightarrow> bool" where
  "digit c \<longleftrightarrow> 48 \<le> ord c \<and> ord c \<le> 57"

definition digits_value :: "string \<Rightarrow> nat" where
  "digits_value s = foldl (\<lambda>n c. 10 * n + (ord c - 48)) 0 s"

text \<open>The number grammar of JSON: sign, integer part, fraction, exponent.\<close>

definition exponent_ok :: "string \<Rightarrow> bool" where
  "exponent_ok s =
     (case s of
        [] \<Rightarrow> True
      | e # r \<Rightarrow> (e = CHR ''e'' \<or> e = CHR ''E'') \<and>
          (let ds = (case r of x # r' \<Rightarrow> if x = CHR ''+'' \<or> x = CHR ''-'' then r' else r | [] \<Rightarrow> r)
           in ds \<noteq> [] \<and> list_all digit ds))"

definition fraction_ok :: "string \<Rightarrow> bool" where
  "fraction_ok s =
     (case s of
        [] \<Rightarrow> True
      | p # r \<Rightarrow> if p = CHR ''.'' then takeWhile digit r \<noteq> [] \<and> exponent_ok (dropWhile digit r)
                else exponent_ok s)"

definition unsigned_ok :: "string \<Rightarrow> bool" where
  "unsigned_ok s =
     (case s of
        [] \<Rightarrow> False
      | d # r \<Rightarrow> digit d \<and> (if d = CHR ''0'' then fraction_ok r else fraction_ok (dropWhile digit r)))"

definition valid_number :: "string \<Rightarrow> bool" where
  "valid_number s = (case s of c # r \<Rightarrow> if c = CHR ''-'' then unsigned_ok r else unsigned_ok s | [] \<Rightarrow> False)"

text \<open>\<open>strconv.ParseInt(s, 10, 64)\<close> on a valid JSON number: no fraction, no exponent, in range.\<close>

definition parse_int64 :: "string \<Rightarrow> int option" where
  "parse_int64 s =
     (let (neg, ds) = (case s of c # r \<Rightarrow> if c = CHR ''-'' then (True, r) else (False, s) | [] \<Rightarrow> (False, []))
      in if ds = [] \<or> \<not> list_all digit ds then None
         else (let n = (if neg then - int (digits_value ds) else int (digits_value ds))
               in if in_i64 n then Some n else None))"

section \<open>Printing\<close>

definition quote :: "string \<Rightarrow> string" where
  "quote s = dquote # escape s @ [dquote]"

fun json_text :: "json \<Rightarrow> string"
and elems_text :: "json list \<Rightarrow> string"
and members_text :: "(string \<times> json) list \<Rightarrow> string" where
  "json_text JNull = ''null''"
| "json_text (JBool b) = (if b then ''true'' else ''false'')"
| "json_text (JNum n) = n"
| "json_text (JStr s) = quote s"
| "json_text (JArr vs) = CHR ''['' # elems_text vs @ '']''"
| "json_text (JObj ms) = CHR ''{'' # members_text ms @ ''}''"
| "elems_text [] = []"
| "elems_text (v # vs) = json_text v @ (if vs = [] then [] else CHR '','' # elems_text vs)"
| "members_text [] = []"
| "members_text ((k, v) # ms) =
     quote k @ '':'' @ json_text v @ (if ms = [] then [] else CHR '','' # members_text ms)"

section \<open>Lexing\<close>

datatype token = LBrace | RBrace | LBracket | RBracket | Colon | Comma | TStr string | TAtom string
datatype lex_mode = Outside | InAtom string | InStr string | InEsc string

definition atom_char :: "char \<Rightarrow> bool" where
  "atom_char c \<longleftrightarrow> digit c \<or> (97 \<le> ord c \<and> ord c \<le> 122) \<or> (65 \<le> ord c \<and> ord c \<le> 90)
     \<or> c = CHR ''+'' \<or> c = CHR ''-'' \<or> c = CHR ''.''"

definition punct :: "char \<Rightarrow> token list option" where
  "punct c =
     (if c = CHR ''{'' then Some [LBrace] else if c = CHR ''}'' then Some [RBrace]
      else if c = CHR ''['' then Some [LBracket] else if c = CHR '']'' then Some [RBracket]
      else if c = CHR '':'' then Some [Colon] else if c = CHR '','' then Some [Comma]
      else if ord c = 32 \<or> ord c = 9 \<or> ord c = 10 \<or> ord c = 13 then Some []
      else None)"

function json_lex :: "lex_mode \<Rightarrow> string \<Rightarrow> token list option" where
  "json_lex Outside [] = Some []"
| "json_lex (InAtom a) [] = Some [TAtom (rev a)]"
| "json_lex (InStr a) [] = None"
| "json_lex (InEsc a) [] = None"
| "json_lex Outside (c # cs) =
     (if c = dquote then json_lex (InStr []) cs
      else if atom_char c then json_lex (InAtom [c]) cs
      else (case punct c of None \<Rightarrow> None | Some ts \<Rightarrow> map_option ((@) ts) (json_lex Outside cs)))"
| "json_lex (InAtom a) (c # cs) =
     (if atom_char c then json_lex (InAtom (c # a)) cs
      else map_option ((#) (TAtom (rev a))) (json_lex Outside (c # cs)))"
| "json_lex (InStr a) (c # cs) =
     (if c = dquote then
        (case unquote (rev a) of
           None \<Rightarrow> None
         | Some s \<Rightarrow> map_option ((#) (TStr s)) (json_lex Outside cs))
      else if c = bslash then json_lex (InEsc (c # a)) cs
      else json_lex (InStr (c # a)) cs)"
| "json_lex (InEsc a) (c # cs) = json_lex (InStr (c # a)) cs"
  by pat_completeness auto
termination
  by (relation "measures [\<lambda>(m, s). length s, \<lambda>(m, s). case m of InAtom _ \<Rightarrow> 1 | _ \<Rightarrow> 0]") auto

section \<open>Parsing\<close>

datatype frame = FArr "json list" | FKeys "(string \<times> json) list" | FMember "(string \<times> json) list" string
datatype phase = PValue | PFirstElem | PFirstKey | PKey | PColon | PDone json

definition atom_value :: "string \<Rightarrow> json option" where
  "atom_value a =
     (if a = ''null'' then Some JNull else if a = ''true'' then Some (JBool True)
      else if a = ''false'' then Some (JBool False)
      else if valid_number a then Some (JNum a) else None)"

definition max_nesting :: nat where
  "max_nesting = 10000"

definition start_value :: "frame list \<Rightarrow> token \<Rightarrow> (frame list \<times> phase) option" where
  "start_value st t =
     (case t of
        TStr s \<Rightarrow> Some (st, PDone (JStr s))
      | TAtom a \<Rightarrow> map_option (\<lambda>v. (st, PDone v)) (atom_value a)
      | LBracket \<Rightarrow> if length st < max_nesting then Some (FArr [] # st, PFirstElem) else None
      | LBrace \<Rightarrow> if length st < max_nesting then Some (FKeys [] # st, PFirstKey) else None
      | _ \<Rightarrow> None)"

definition start_key :: "frame list \<Rightarrow> token \<Rightarrow> (frame list \<times> phase) option" where
  "start_key st t =
     (case (st, t) of
        (FKeys ms # st', TStr k) \<Rightarrow> Some (FMember ms k # st', PColon)
      | _ \<Rightarrow> None)"

definition after_value :: "frame list \<Rightarrow> json \<Rightarrow> token \<Rightarrow> (frame list \<times> phase) option" where
  "after_value st v t =
     (case st of
        FArr vs # st' \<Rightarrow>
          (case t of Comma \<Rightarrow> Some (FArr (vs @ [v]) # st', PValue)
           | RBracket \<Rightarrow> Some (st', PDone (JArr (vs @ [v]))) | _ \<Rightarrow> None)
      | FMember ms k # st' \<Rightarrow>
          (case t of Comma \<Rightarrow> Some (FKeys (ms @ [(k, v)]) # st', PKey)
           | RBrace \<Rightarrow> Some (st', PDone (JObj (ms @ [(k, v)]))) | _ \<Rightarrow> None)
      | _ \<Rightarrow> None)"

definition parse_step :: "frame list \<Rightarrow> phase \<Rightarrow> token \<Rightarrow> (frame list \<times> phase) option" where
  "parse_step st ph t =
     (case ph of
        PValue \<Rightarrow> start_value st t
      | PFirstElem \<Rightarrow> if t = RBracket then Some (tl st, PDone (JArr [])) else start_value st t
      | PFirstKey \<Rightarrow> if t = RBrace then Some (tl st, PDone (JObj [])) else start_key st t
      | PKey \<Rightarrow> start_key st t
      | PColon \<Rightarrow> if t = Colon then Some (st, PValue) else None
      | PDone v \<Rightarrow> after_value st v t)"

fun parse_run :: "frame list \<Rightarrow> phase \<Rightarrow> token list \<Rightarrow> json option" where
  "parse_run st ph [] = (case (st, ph) of ([], PDone v) \<Rightarrow> Some v | _ \<Rightarrow> None)"
| "parse_run st ph (t # ts) =
     (case parse_step st ph t of None \<Rightarrow> None | Some (st', ph') \<Rightarrow> parse_run st' ph' ts)"

definition json_parse :: "string \<Rightarrow> json option" where
  "json_parse s = (case json_lex Outside s of None \<Rightarrow> None | Some ts \<Rightarrow> parse_run [] PValue ts)"

section \<open>Strings survive escaping\<close>

lemma utf8_encode_ls: "utf8_encode 8232 = line_separator" "utf8_encode 8233 = paragraph_separator"
  by (simp_all add: utf8_encode_def line_separator_def paragraph_separator_def char_of_def bit_iff_odd)

lemma char_eqI: "ord c = n \<Longrightarrow> c = char_of n"
  by (metis char_of_char)

lemma ctl_chars: "char_of (8::nat) = CHR 0x08" "char_of (12::nat) = CHR 0x0C" "char_of (10::nat) = CHR 0x0A"
   "char_of (13::nat) = CHR 0x0D" "char_of (9::nat) = CHR 0x09"
  by (simp_all add: char_of_def bit_iff_odd)

lemma escape_ascii_cases:
  obtains (self) "c = dquote \<or> c = bslash" | (b) "c = CHR 0x08" | (f) "c = CHR 0x0C"
    | (n) "c = CHR 0x0A" | (r) "c = CHR 0x0D" | (t) "c = CHR 0x09"
    | (ctl) "escape_ascii c = [bslash, CHR ''u'', CHR ''0'', CHR ''0'',
        hex_digit (ord c div 16), hex_digit (ord c mod 16)]"
    | (plain) "escape_ascii c = [c]" "32 \<le> ord c" "c \<noteq> dquote" "c \<noteq> bslash"
proof -
  have "ord c = 8 \<Longrightarrow> c = CHR 0x08" "ord c = 12 \<Longrightarrow> c = CHR 0x0C" "ord c = 10 \<Longrightarrow> c = CHR 0x0A"
    "ord c = 13 \<Longrightarrow> c = CHR 0x0D" "ord c = 9 \<Longrightarrow> c = CHR 0x09"
    by (auto dest!: char_eqI simp: ctl_chars)
  note chars = this
  show thesis
  proof (cases "c = dquote \<or> c = bslash \<or> ord c = 8 \<or> ord c = 12 \<or> ord c = 10 \<or> ord c = 13 \<or> ord c = 9")
    case True
    with chars self b f n r t show thesis by blast
  next
    case False
    then have no: "c \<noteq> dquote" "c \<noteq> bslash" "ord c \<noteq> 8" "ord c \<noteq> 12" "ord c \<noteq> 10" "ord c \<noteq> 13" "ord c \<noteq> 9"
      by blast+
    show thesis
    proof (cases "ord c < 32 \<or> c = CHR ''<'' \<or> c = CHR ''>'' \<or> c = CHR ''&''")
      case True
      with no have "escape_ascii c = [bslash, CHR ''u'', CHR ''0'', CHR ''0'',
        hex_digit (ord c div 16), hex_digit (ord c mod 16)]"
        unfolding escape_ascii_def by (simp only: if_True if_False simp_thms)
      then show thesis by (rule ctl)
    next
      case other: False
      with no have "escape_ascii c = [c]"
        unfolding escape_ascii_def by (simp only: if_True if_False simp_thms)
      moreover have "32 \<le> ord c" using other by (simp add: not_less)
      ultimately show thesis using plain no by blast
    qed
  qed
qed

lemma high_bytes: "second_byte c d \<Longrightarrow> 128 \<le> ord d" "cont_byte d \<Longrightarrow> 128 \<le> ord d"
    by (auto simp: second_byte_def cont_byte_def split: if_splits)

lemma utf8_width_high:
  assumes "128 \<le> ord c" and "x \<in> set (take (utf8_width (c # cs)) (c # cs))"
  shows "128 \<le> ord x"
  using assms by (auto simp: utf8_width.simps dest: high_bytes split: list.splits if_splits)

lemma hex_value_digit: "n < 16 \<Longrightarrow> hex_value (hex_digit n) = Some n"
proof -
  have "\<forall>n\<in>set [0..<16]. hex_value (hex_digit n) = Some n"
    by (simp add: hex_value_def hex_digit_def upt_conv_Cons)
  then show "n < 16 \<Longrightarrow> hex_value (hex_digit n) = Some n" by simp
qed

lemma utf8_width_le: "utf8_width s \<le> length s"
  by (cases s) (auto simp: utf8_width.simps split: list.split)

lemma utf8_width_take:
  "utf8_width s \<noteq> 0 \<Longrightarrow> utf8_width (take (utf8_width s) s @ r) = utf8_width s"
  by (cases s) (auto simp: utf8_width.simps split: list.split if_splits)

lemma hex4_control:
  "ord c < 128 \<Longrightarrow>
   hex4 (CHR ''0'' # CHR ''0'' # hex_digit (ord c div 16) # hex_digit (ord c mod 16) # r) = Some (ord c)"
  by (simp add: hex_value_digit hex_value_def [of "CHR ''0''"])

lemma unquote_escape_ascii:
  assumes "ord c < 128"
  shows "unquote (escape_ascii c @ r) = map_option ((#) c) (unquote r)"
proof (cases c rule: escape_ascii_cases)
    case ctl
    have "utf8_encode (ord c) = [c]"
      using assms by (simp add: utf8_encode_def)
    with ctl assms hex4_control [OF assms] show ?thesis
      by (simp add: unquote.simps del: hex4.simps) (cases "unquote r"; simp)
  next
    case plain
    with assms show ?thesis by (simp add: unquote.simps)
  qed (auto simp: escape_ascii_def unquote.simps unescape_def)

lemma unquote_escape_wide:
  assumes "128 \<le> ord c" and "utf8_width (c # cs) \<noteq> 0"
  defines "w \<equiv> take (utf8_width (c # cs)) (c # cs)"
  shows "unquote (escape_wide w @ r) = map_option ((@) w) (unquote r)"
proof -
  have ls: "unquote (bslash # ''u2028'' @ r) = map_option ((@) line_separator) (unquote r)"
    "unquote (bslash # ''u2029'' @ r) = map_option ((@) paragraph_separator) (unquote r)"
    by (simp_all add: unquote.simps hex_value_def utf8_encode_ls)
  obtain w' where w': "w = c # w'"
    using assms by (cases "utf8_width (c # cs)") auto
  have width: "utf8_width (w @ r) = utf8_width (c # cs)"
    using assms by (simp add: w_def utf8_width_take)
  have len: "utf8_width (c # cs) = length w"
    using utf8_width_le [of "c # cs"] by (simp add: w_def)
  have "\<not> ord c < 128" "c \<noteq> bslash" "c \<noteq> dquote" "\<not> ord c < 32"
    using assms by auto
  then have "unquote (w @ r) = map_option ((@) w) (unquote r)"
    using assms(2) width len by (simp add: w' unquote.simps)
  with ls show ?thesis by (simp add: escape_wide_def)
qed

section \<open>Lexing printed text\<close>

definition body_safe :: "string \<Rightarrow> bool" where
  "body_safe p \<longleftrightarrow> (\<forall>a r. json_lex (InStr a) (p @ r) = json_lex (InStr (rev p @ a)) r)"

lemma body_safe_append: "body_safe p \<Longrightarrow> body_safe q \<Longrightarrow> body_safe (p @ q)"
  by (simp add: body_safe_def)

lemma body_safe_plain: "\<forall>c\<in>set p. c \<noteq> dquote \<and> c \<noteq> bslash \<Longrightarrow> body_safe p"
proof (induction p)
  case Nil
  then show ?case by (simp add: body_safe_def)
next
  case (Cons c p)
  then show ?case by (simp add: body_safe_def)
qed

lemma body_safe_esc: "\<forall>c\<in>set p. c \<noteq> dquote \<and> c \<noteq> bslash \<Longrightarrow> body_safe (bslash # e # p)"
  using body_safe_plain [of p] by (simp add: body_safe_def)

lemma hex_digit_plain: "n < 16 \<Longrightarrow> hex_digit n \<noteq> dquote \<and> hex_digit n \<noteq> bslash"
proof -
  assume "n < 16"
  then have "hex_value (hex_digit n) \<noteq> None" by (simp add: hex_value_digit)
  then show ?thesis by (auto simp: hex_value_def)
qed

lemma body_safe_ascii:
  assumes "ord c < 128"
  shows "body_safe (escape_ascii c)"
proof (cases c rule: escape_ascii_cases)
  case ctl
  then show ?thesis
    using hex_digit_plain [of "ord c div 16"] hex_digit_plain [of "ord c mod 16"] assms
    by (simp add: body_safe_esc)
next
  case plain
  then show ?thesis by (simp add: body_safe_plain)
qed (auto simp: escape_ascii_def body_safe_def)

lemma body_safe_wide:
  assumes "128 \<le> ord c"
  shows "body_safe (escape_wide (take (utf8_width (c # cs)) (c # cs)))" (is "body_safe (escape_wide ?w)")
proof -
  have "\<forall>x\<in>set ?w. x \<noteq> dquote \<and> x \<noteq> bslash"
    using utf8_width_high [of c _ cs] assms by fastforce
  then have "body_safe ?w" by (rule body_safe_plain)
  moreover have "body_safe (bslash # ''u2028'')" "body_safe (bslash # ''u2029'')"
    by (rule body_safe_esc; simp)+
  ultimately show ?thesis by (simp add: escape_wide_def)
qed

lemma body_safe_escape: "body_safe (escape s)"
proof (induction s rule: escape.induct)
  case 1
  then show ?case by (simp add: escape.simps body_safe_plain)
next
  case (2 c cs)
  have bad: "body_safe (bslash # ''ufffd'')"
    by (rule body_safe_esc) simp
  consider "ord c < 128" | "128 \<le> ord c" "utf8_width (c # cs) = 0"
    | "128 \<le> ord c" "utf8_width (c # cs) \<noteq> 0" by linarith
  then show ?case
  proof cases
    case 1
    with 2(1) show ?thesis by (simp only: escape.simps if_True body_safe_append body_safe_ascii)
  next
    case 2
    with 2 body_safe_append [OF bad "2.IH"(2)] show ?thesis by (simp add: escape.simps)
  next
    case 3
    with body_safe_append [OF body_safe_wide [of c cs] "2.IH"(3)] show ?thesis
      by (simp add: escape.simps)
  qed
qed

lemma unquote_escape: "valid_utf8 s \<Longrightarrow> unquote (escape s) = Some s"
proof (induction s rule: escape.induct)
  case 1
  then show ?case by (simp add: escape.simps unquote.simps)
next
  case (2 c cs)
  show ?case
  proof (cases "ord c < 128")
    case True
    then have "utf8_width (c # cs) = 1" by (simp add: utf8_width.simps)
    with 2 True show ?thesis by (simp add: escape.simps unquote_escape_ascii)
  next
    case False
    define w where "w = utf8_width (c # cs)"
    from 2 have w: "w \<noteq> 0" "valid_utf8 (drop (w - 1) cs)" by (simp_all add: w_def)
    with 2 False have IH: "unquote (escape (drop (w - 1) cs)) = Some (drop (w - 1) cs)"
      by (simp add: w_def)
    have "take w (c # cs) @ drop (w - 1) cs = c # cs"
      using w(1) by (cases w) auto
    with IH False w(1) unquote_escape_wide [of c cs] show ?thesis
      by (simp add: escape.simps w_def [symmetric])
  qed
qed

lemma lex_quote:
  assumes "valid_utf8 s"
  shows "json_lex Outside (quote s @ r) = map_option ((#) (TStr s)) (json_lex Outside r)"
proof -
  have "json_lex Outside (quote s @ r) = json_lex (InStr []) (escape s @ dquote # r)"
    by (simp add: quote_def)
  also have "\<dots> = json_lex (InStr (rev (escape s))) (dquote # r)"
    using body_safe_escape [of s] by (simp only: body_safe_def append_Nil2)
  finally show ?thesis using assms by (simp add: unquote_escape)
qed

definition at_boundary :: "string \<Rightarrow> bool" where
  "at_boundary r \<longleftrightarrow> (case r of [] \<Rightarrow> True | c # _ \<Rightarrow> \<not> atom_char c)"

lemma lex_atom_rest:
  "list_all atom_char s \<Longrightarrow> at_boundary r \<Longrightarrow>
   json_lex (InAtom a) (s @ r) = map_option ((#) (TAtom (rev a @ s))) (json_lex Outside r)"
proof (induction s arbitrary: a)
  case Nil
  then show ?case by (cases r) (auto simp: at_boundary_def)
next
  case (Cons c s)
  then show ?case by simp
qed

lemma lex_atom:
  assumes "list_all atom_char s" "s \<noteq> []" "at_boundary r"
  shows "json_lex Outside (s @ r) = map_option ((#) (TAtom s)) (json_lex Outside r)"
proof -
  obtain c s' where s: "s = c # s'" using assms(2) by (cases s) auto
  with assms(1) have "c \<noteq> dquote" by (auto simp: atom_char_def digit_def)
  with assms s show ?thesis by (simp add: lex_atom_rest)
qed

section \<open>Integers survive printing\<close>

lemma nat_text_induct [case_names digit more]:
  fixes P :: "nat \<Rightarrow> bool"
  assumes "\<And>n. n < 10 \<Longrightarrow> P n" and "\<And>n. 10 \<le> n \<Longrightarrow> P (n div 10) \<Longrightarrow> P n"
  shows "P n"
proof (induction n rule: less_induct)
  case (less n)
  then show ?case using assms by (cases "n < 10") auto
qed

lemma digit_of: "d < 10 \<Longrightarrow> digit (char_of (48 + d)) \<and> ord (char_of (48 + d) :: char) = 48 + d"
  for d :: nat
  by (simp add: digit_def)

lemma nat_text_step:
  "n < 10 \<Longrightarrow> nat_text n = [char_of (48 + n)]"
  "10 \<le> n \<Longrightarrow> nat_text n = nat_text (n div 10) @ [char_of (48 + n mod 10)]"
  by (simp_all add: nat_text.simps [of n])

lemma nat_text_digits: "list_all digit (nat_text n)"
proof (induction n rule: nat_text_induct)
  case (digit n)
  then show ?case using digit_of [of n] by (simp add: nat_text_step)
next
  case (more n)
  then show ?case using digit_of [of "n mod 10"] by (simp add: nat_text_step)
qed

lemma nat_text_not_Nil: "nat_text n \<noteq> []"
  by (subst nat_text.simps) simp

lemma nat_text_value: "digits_value (nat_text n) = n"
proof (induction n rule: nat_text_induct)
  case (digit n)
  then show ?case using digit_of [of n] by (simp add: nat_text_step digits_value_def)
next
  case (more n)
  then show ?case using digit_of [of "n mod 10"] by (simp add: nat_text_step digits_value_def)
qed

lemma nat_text_hd: "hd (nat_text n) = CHR ''0'' \<Longrightarrow> n = 0"
proof (induction n rule: nat_text_induct)
  case (digit n)
  then have "char_of (48 + n) = CHR ''0''" by (simp add: nat_text_step)
  then have "ord (char_of (48 + n) :: char) = 48" by simp
  with digit show ?case by simp
next
  case (more n)
  then have "n div 10 = 0" by (simp add: nat_text_step nat_text_not_Nil)
  with more.hyps show ?case by (simp add: div_eq_0_iff)
qed

lemma unsigned_ok_nat_text: "unsigned_ok (nat_text n)"
proof -
  obtain d r where s: "nat_text n = d # r"
    using nat_text_not_Nil [of n] by (cases "nat_text n") auto
  have dr: "digit d" "list_all digit r" using nat_text_digits [of n] by (simp_all add: s)
  have "dropWhile digit r = []" using dr(2) by (simp add: list_all_iff dropWhile_eq_Nil_conv)
  moreover have "d = CHR ''0'' \<Longrightarrow> r = []"
    using nat_text_hd [of n] s by (auto simp: nat_text_step)
  moreover have "fraction_ok []" by (simp add: fraction_ok_def)
  ultimately show ?thesis
    using dr(1) by (cases "d = CHR ''0''") (simp_all only: s unsigned_ok_def list.case if_True if_False simp_thms)
qed

lemma hd_nat_text_not_minus: "nat_text n = CHR ''-'' # r \<Longrightarrow> False"
  using nat_text_digits [of n] by (simp add: digit_def)

lemma valid_number_int_text: "valid_number (int_text i)"
  using unsigned_ok_nat_text [of "nat i"] unsigned_ok_nat_text [of "nat (- i)"]
    hd_nat_text_not_minus [of "nat i"] nat_text_not_Nil [of "nat i"]
  by (auto simp: valid_number_def int_text_def split: list.split)

lemma parse_int64_int_text: "in_i64 i \<Longrightarrow> parse_int64 (int_text i) = Some i"
proof -
  obtain d r where s: "nat_text (nat i) = d # r"
    using nat_text_not_Nil [of "nat i"] by (cases "nat_text (nat i)") auto
  then have d: "d \<noteq> CHR ''-''" using hd_nat_text_not_minus by blast
  have v: "digits_value (d # r) = nat i" "list_all digit (d # r)"
    using nat_text_value [of "nat i"] nat_text_digits [of "nat i"] by (simp_all only: s)
  show "in_i64 i \<Longrightarrow> parse_int64 (int_text i) = Some i"
  proof (cases "i < 0")
    case True
    then show "in_i64 i \<Longrightarrow> ?thesis"
      by (simp add: parse_int64_def int_text_def nat_text_value nat_text_digits nat_text_not_Nil)
  next
    case False
    then show "in_i64 i \<Longrightarrow> ?thesis"
      using d v by (simp add: parse_int64_def int_text_def s)
  qed
qed

lemma digit_atom: "digit c \<Longrightarrow> atom_char c"
  by (simp add: atom_char_def)

lemma int_text_atoms: "list_all atom_char (int_text i)" "int_text i \<noteq> []"
  using nat_text_digits nat_text_not_Nil
  by (auto simp: int_text_def list_all_iff intro: digit_atom) (auto simp: atom_char_def)

lemma int_text_not_word: "int_text i \<noteq> ''null''" "int_text i \<noteq> ''true''" "int_text i \<noteq> ''false''"
  using nat_text_digits [of "nat i"] by (auto simp: int_text_def digit_def)

section \<open>Printed values parse back\<close>

fun json_ok :: "json \<Rightarrow> bool"
and elems_ok :: "json list \<Rightarrow> bool"
and members_ok :: "(string \<times> json) list \<Rightarrow> bool" where
  "json_ok JNull = True"
| "json_ok (JBool b) = True"
| "json_ok (JNum n) = (atom_value n = Some (JNum n) \<and> list_all atom_char n \<and> n \<noteq> [])"
| "json_ok (JStr s) = valid_utf8 s"
| "json_ok (JArr vs) = elems_ok vs"
| "json_ok (JObj ms) = members_ok ms"
| "elems_ok [] = True"
| "elems_ok (v # vs) = (json_ok v \<and> elems_ok vs)"
| "members_ok [] = True"
| "members_ok ((k, v) # ms) = (valid_utf8 k \<and> json_ok v \<and> members_ok ms)"

fun nesting :: "json \<Rightarrow> nat"
and elems_nesting :: "json list \<Rightarrow> nat"
and members_nesting :: "(string \<times> json) list \<Rightarrow> nat" where
  "nesting (JArr vs) = Suc (elems_nesting vs)"
| "nesting (JObj ms) = Suc (members_nesting ms)"
| "nesting v = 0"
| "elems_nesting [] = 0"
| "elems_nesting (v # vs) = max (nesting v) (elems_nesting vs)"
| "members_nesting [] = 0"
| "members_nesting ((k, v) # ms) = max (nesting v) (members_nesting ms)"

fun json_tokens :: "json \<Rightarrow> token list"
and elems_tokens :: "json list \<Rightarrow> token list"
and members_tokens :: "(string \<times> json) list \<Rightarrow> token list" where
  "json_tokens JNull = [TAtom ''null'']"
| "json_tokens (JBool b) = [TAtom (if b then ''true'' else ''false'')]"
| "json_tokens (JNum n) = [TAtom n]"
| "json_tokens (JStr s) = [TStr s]"
| "json_tokens (JArr vs) = LBracket # elems_tokens vs @ [RBracket]"
| "json_tokens (JObj ms) = LBrace # members_tokens ms @ [RBrace]"
| "elems_tokens [] = []"
| "elems_tokens (v # vs) = json_tokens v @ (if vs = [] then [] else Comma # elems_tokens vs)"
| "members_tokens [] = []"
| "members_tokens ((k, v) # ms) =
     TStr k # Colon # json_tokens v @ (if ms = [] then [] else Comma # members_tokens ms)"

lemma map_option_singleton: "map_option ((#) t) x = map_option ((@) [t]) x"
  by (cases x) auto

lemma lex_punct:
  "json_lex Outside (CHR ''{'' # r) = map_option ((#) LBrace) (json_lex Outside r)"
  "json_lex Outside (CHR ''}'' # r) = map_option ((#) RBrace) (json_lex Outside r)"
  "json_lex Outside (CHR ''['' # r) = map_option ((#) LBracket) (json_lex Outside r)"
  "json_lex Outside (CHR '']'' # r) = map_option ((#) RBracket) (json_lex Outside r)"
  "json_lex Outside (CHR '':'' # r) = map_option ((#) Colon) (json_lex Outside r)"
  "json_lex Outside (CHR '','' # r) = map_option ((#) Comma) (json_lex Outside r)"
  by (simp_all add: punct_def atom_char_def digit_def map_option_singleton)

lemma boundary_punct [simp]:
  "at_boundary []" "at_boundary (CHR ''}'' # r)" "at_boundary (CHR '']'' # r)"
  "at_boundary (CHR '','' # r)"
  by (simp_all add: at_boundary_def atom_char_def digit_def)

lemma lex_words:
  "at_boundary r \<Longrightarrow> json_lex Outside (''null'' @ r) = map_option ((#) (TAtom ''null'')) (json_lex Outside r)"
  "at_boundary r \<Longrightarrow> json_lex Outside (''true'' @ r) = map_option ((#) (TAtom ''true'')) (json_lex Outside r)"
  "at_boundary r \<Longrightarrow> json_lex Outside (''false'' @ r) = map_option ((#) (TAtom ''false'')) (json_lex Outside r)"
  by (rule lex_atom; simp add: atom_char_def digit_def)+

lemma map_option_cons: "map_option ((#) t) (map_option ((@) ts) x) = map_option ((@) (t # ts)) x"
  "map_option ((@) us) (map_option ((@) ts) x) = map_option ((@) (us @ ts)) x"
  "map_option ((@) us) (map_option ((#) t) x) = map_option ((@) (us @ [t])) x"
  by (cases x; simp)+

lemma lex_json_text:
  "json_ok v \<Longrightarrow> at_boundary r \<Longrightarrow>
     json_lex Outside (json_text v @ r) = map_option ((@) (json_tokens v)) (json_lex Outside r)"
  "elems_ok vs \<Longrightarrow> at_boundary r \<Longrightarrow>
     json_lex Outside (elems_text vs @ r) = map_option ((@) (elems_tokens vs)) (json_lex Outside r)"
  "members_ok ms \<Longrightarrow> at_boundary r \<Longrightarrow>
     json_lex Outside (members_text ms @ r) = map_option ((@) (members_tokens ms)) (json_lex Outside r)"
proof (induction v and vs and ms arbitrary: r and r and r
    rule: json_text_elems_text_members_text.induct)
  case 1
  then show ?case using lex_words(1) [of r] by (simp add: map_option_singleton)
next
  case (2 b)
  then show ?case using lex_words(2,3) [of r] by (cases b) (simp_all add: map_option_singleton)
next
  case (3 n)
  then show ?case using lex_atom [of n r] by (simp add: map_option_singleton)
next
  case (4 s)
  then show ?case by (simp add: lex_quote map_option_singleton)
next
  case (5 vs)
  then show ?case
    by (cases "json_lex Outside r") (simp_all add: lex_punct map_option_cons del: json_lex.simps)
next
  case (6 ms)
  then show ?case
    by (cases "json_lex Outside r") (simp_all add: lex_punct map_option_cons del: json_lex.simps)
next
  case 7
  then show ?case by (simp add: option.map_id0 flip: id_def del: json_lex.simps)
next
  case (8 v vs)
  then show ?case
    by (cases "json_lex Outside r") (simp_all add: lex_punct map_option_cons del: json_lex.simps)
next
  case 9
  then show ?case by (simp add: option.map_id0 flip: id_def del: json_lex.simps)
next
  case (10 k v ms)
  then show ?case
    by (cases "json_lex Outside r") (simp_all add: lex_punct lex_quote map_option_cons del: json_lex.simps)
qed

lemma parse_json_tokens:
  "json_ok v \<Longrightarrow> length st + nesting v \<le> max_nesting \<Longrightarrow>
     parse_run st PValue (json_tokens v @ ts) = parse_run st (PDone v) ts"
  "elems_ok vs \<Longrightarrow> vs \<noteq> [] \<Longrightarrow> length st + Suc (elems_nesting vs) \<le> max_nesting \<Longrightarrow>
     parse_run (FArr us # st) PValue (elems_tokens vs @ RBracket # ts) = parse_run st (PDone (JArr (us @ vs))) ts"
  "members_ok ms \<Longrightarrow> ms \<noteq> [] \<Longrightarrow> length st + Suc (members_nesting ms) \<le> max_nesting \<Longrightarrow>
     parse_run (FKeys ns # st) PKey (members_tokens ms @ RBrace # ts) = parse_run st (PDone (JObj (ns @ ms))) ts"
proof (induction v and vs and ms arbitrary: st ts and st us ts and st ns ts
    rule: json_tokens_elems_tokens_members_tokens.induct)
  case (5 vs)
  note IH = this
  show ?case
  proof (cases vs)
    case Nil
    with IH(3) show ?thesis by (simp add: parse_step_def start_value_def)
  next
    case (Cons w ws)
    have first: "parse_run (FArr [] # st) PFirstElem (elems_tokens vs @ RBracket # ts) =
        parse_run (FArr [] # st) PValue (elems_tokens vs @ RBracket # ts)"
      using Cons by (cases w) (auto simp: parse_step_def)
    have "parse_run (FArr [] # st) PValue (elems_tokens vs @ RBracket # ts) =
        parse_run st (PDone (JArr ([] @ vs))) ts"
      using IH(2,3) Cons by (intro IH(1)) auto
    with first IH(3) show ?thesis by (simp add: parse_step_def start_value_def)
  qed
next
  case (6 ms)
  note IH = this
  show ?case
  proof (cases ms)
    case Nil
    with IH(3) show ?thesis by (simp add: parse_step_def start_value_def)
  next
    case (Cons w ws)
    have first: "parse_run (FKeys [] # st) PFirstKey (members_tokens ms @ RBrace # ts) =
        parse_run (FKeys [] # st) PKey (members_tokens ms @ RBrace # ts)"
      using Cons by (cases w) (auto simp: parse_step_def)
    have "parse_run (FKeys [] # st) PKey (members_tokens ms @ RBrace # ts) =
        parse_run st (PDone (JObj ([] @ ms))) ts"
      using IH(2,3) Cons by (intro IH(1)) auto
    with first IH(3) show ?thesis by (simp add: parse_step_def start_value_def)
  qed
next
  case (8 v vs)
  then show ?case
    by (cases "vs = []") (simp_all add: parse_step_def after_value_def)
next
  case (10 k v ms)
  then show ?case
    by (cases "ms = []") (simp_all add: parse_step_def start_key_def after_value_def)
qed (auto simp: parse_step_def start_value_def atom_value_def)

theorem json_roundtrip:
  assumes "json_ok v" and "nesting v \<le> max_nesting"
  shows "json_parse (json_text v) = Some v"
proof -
  have "json_lex Outside (json_text v @ []) = map_option ((@) (json_tokens v)) (json_lex Outside [])"
    using assms(1) by (rule lex_json_text) simp
  moreover have "parse_run [] PValue (json_tokens v @ []) = parse_run [] (PDone v) []"
    using assms by (intro parse_json_tokens) auto
  ultimately show ?thesis by (simp add: json_parse_def)
qed

lemma json_ok_int [simp]: "json_ok (JNum (int_text i))"
  using int_text_atoms [of i] int_text_not_word [of i]
  by (simp add: atom_value_def valid_number_int_text)

declare json_ok.simps(3) [simp del]

section \<open>Reading objects into structs\<close>

text \<open>
  Member names match field names exactly or, failing that, up to simple case folding. Two
  characters outside ASCII fold onto ASCII letters: the Kelvin sign and the long s.
\<close>

definition lower_char :: "char \<Rightarrow> char" where
  "lower_char c = (if 65 \<le> ord c \<and> ord c \<le> 90 then char_of (ord c + 32) else c)"

function fold_name :: "string \<Rightarrow> string" where
  "fold_name [] = []"
| "fold_name (c # cs) =
     (if c = CHR 0xE2 \<and> take 2 cs = [CHR 0x84, CHR 0xAA] then CHR ''k'' # fold_name (drop 2 cs)
      else if c = CHR 0xC5 \<and> take 1 cs = [CHR 0xBF] then CHR ''s'' # fold_name (drop 1 cs)
      else lower_char c # fold_name cs)"
  by pat_completeness auto
termination
  by (relation "measure length") auto

definition field_named :: "string list \<Rightarrow> string \<Rightarrow> string option" where
  "field_named names k =
     (if k \<in> set names then Some k else find (\<lambda>n. fold_name n = fold_name k) names)"

type_synonym 'r setter = "string \<Rightarrow> json \<Rightarrow> 'r \<Rightarrow> 'r option"

fun decode_members :: "string list \<Rightarrow> 'r setter \<Rightarrow> (string \<times> json) list \<Rightarrow> 'r \<Rightarrow> 'r option" where
  "decode_members names set_field [] r = Some r"
| "decode_members names set_field ((k, v) # ms) r =
     (case field_named names k of
        None \<Rightarrow> decode_members names set_field ms r
      | Some f \<Rightarrow>
          (case set_field f v r of
             None \<Rightarrow> None
           | Some r' \<Rightarrow> decode_members names set_field ms r'))"

definition decode_struct :: "string list \<Rightarrow> 'r setter \<Rightarrow> json \<Rightarrow> 'r \<Rightarrow> 'r option" where
  "decode_struct names set_field v r =
     (case v of
        JObj ms \<Rightarrow> decode_members names set_field ms r
      | JNull \<Rightarrow> Some r
      | _ \<Rightarrow> None)"

definition unmarshal :: "string list \<Rightarrow> 'r setter \<Rightarrow> string \<Rightarrow> 'r \<Rightarrow> 'r option" where
  "unmarshal names set_field s r =
     (case json_parse s of None \<Rightarrow> None | Some v \<Rightarrow> decode_struct names set_field v r)"

definition get_string :: "json \<Rightarrow> string \<Rightarrow> string option" where
  "get_string v old = (case v of JStr s \<Rightarrow> Some s | JNull \<Rightarrow> Some old | _ \<Rightarrow> None)"

definition get_int :: "json \<Rightarrow> int \<Rightarrow> int option" where
  "get_int v old = (case v of JNum n \<Rightarrow> parse_int64 n | JNull \<Rightarrow> Some old | _ \<Rightarrow> None)"

definition get_bool :: "json \<Rightarrow> bool \<Rightarrow> bool option" where
  "get_bool v old = (case v of JBool b \<Rightarrow> Some b | JNull \<Rightarrow> Some old | _ \<Rightarrow> None)"

lemma get_string_JStr [simp]: "get_string (JStr s) old = Some s"
  by (simp add: get_string_def)

lemma get_int_JNum [simp]: "in_i64 i \<Longrightarrow> get_int (JNum (int_text i)) old = Some i"
  by (simp add: get_int_def parse_int64_int_text)

lemma get_bool_JBool [simp]: "get_bool (JBool b) old = Some b"
  by (simp add: get_bool_def)

lemma field_named_exact: "k \<in> set names \<Longrightarrow> field_named names k = Some k"
  by (simp add: field_named_def)

text \<open>A member written without \<open>omitempty\<close>, and one left out when the field is empty.\<close>

lemma decode_member:
  "k \<in> set names \<Longrightarrow> set_field k v r = Some r' \<Longrightarrow>
   decode_members names set_field ((k, v) # ms) r = decode_members names set_field ms r'"
  by (simp add: field_named_exact)

lemma decode_omittable:
  "k \<in> set names \<Longrightarrow> set_field k v r = Some r' \<Longrightarrow> (omit \<Longrightarrow> r' = r) \<Longrightarrow>
   decode_members names set_field ((if omit then [] else [(k, v)]) @ ms) r =
   decode_members names set_field ms r'"
  by (simp add: field_named_exact)

lemma unmarshal_json_text:
  "json_ok v \<Longrightarrow> nesting v \<le> max_nesting \<Longrightarrow>
   unmarshal names set_field (json_text v) r = decode_struct names set_field v r"
  by (simp add: unmarshal_def json_roundtrip)

section \<open>Sizes\<close>

lemma length_escape_ascii: "length (escape_ascii c) \<le> 6"
  by (simp add: escape_ascii_def)

lemma length_escape_wide: "length (escape_wide r) \<le> max 6 (length r)"
  by (auto simp: escape_wide_def max_def)

lemma length_escape: "length (escape s) \<le> 6 * length s"
proof (induction s rule: escape.induct)
  case (2 c cs)
  have w: "utf8_width (c # cs) \<le> length (c # cs)" by (rule utf8_width_le)
  have w4: "utf8_width (c # cs) \<le> 4"
    by (auto simp: utf8_width.simps split: list.split)
  consider "ord c < 128" | "\<not> ord c < 128" "utf8_width (c # cs) = 0" | "\<not> ord c < 128" "utf8_width (c # cs) \<noteq> 0" by blast
  then show ?case
  proof cases
    case 1
    then show ?thesis using 2(1) [OF 1] length_escape_ascii [of c] by (simp add: escape.simps)
  next
    case 2
    then show ?thesis using "2.IH"(2) by (simp add: escape.simps)
  next
    case 3
    have "length (escape_wide (take (utf8_width (c # cs)) (c # cs))) \<le> 6"
      using length_escape_wide [of "take (utf8_width (c # cs)) (c # cs)"] w4 by simp
    moreover have "length (escape (drop (utf8_width (c # cs) - 1) cs)) \<le> 6 * length (drop (utf8_width (c # cs) - 1) cs)"
      using "2.IH"(3) 3 by blast
    ultimately show ?thesis using 3 w by (simp add: escape.simps)
  qed
qed (simp add: escape.simps)

lemma length_nat_text: "n < 10 ^ Suc k \<Longrightarrow> length (nat_text n) \<le> Suc k"
proof (induction k arbitrary: n)
  case 0
  then show ?case by (simp add: nat_text.simps)
next
  case (Suc k)
  then have "n div 10 < 10 ^ Suc k" by (simp add: div_less_iff_less_mult mult.commute)
  with Suc.IH have "length (nat_text (n div 10)) \<le> Suc k" by blast
  then show ?case by (subst nat_text.simps) simp
qed

lemma length_int_text: "in_i64 i \<Longrightarrow> length (int_text i) \<le> 20"
proof -
  assume i: "in_i64 i"
  have "length (nat_text n) \<le> Suc 18" if "n \<le> 2 ^ 63" for n
    by (rule length_nat_text) (use that in simp)
  moreover have "nat i \<le> 2 ^ 63" "nat (- i) \<le> 2 ^ 63" using i by (simp_all add: in_i64_def nat_le_iff)
  ultimately show ?thesis by (fastforce simp: int_text_def)
qed

lemma hex_digit_ascii: "n < 16 \<Longrightarrow> ord (hex_digit n) < 128"
proof -
  assume "n < 16"
  then have "hex_value (hex_digit n) \<noteq> None" by (simp add: hex_value_digit)
  then show ?thesis by (auto simp: hex_value_def split: if_splits)
qed

end
