(* ===== verification/Protocol.thy ===== *)
theory Protocol
  imports Go_Json
begin

text \<open>
  \<open>src/protocol/protocol.go\<close>: the DataChannel framing. The three wire structs are records,
  written and read as JSON objects with their Go field tags (\<open>omitempty\<close> included), and a
  file chunk is a packet of fixed header, JSON header and payload. Errors are values of
  \<open>protocol_error\<close>; \<open>int\<close> and \<open>int64\<close> fields are \<open>int\<close> values in the 64-bit range.
\<close>

section \<open>Constants\<close>

definition Version :: int where "Version = 1"
definition PacketTypeFileChunk :: int where "PacketTypeFileChunk = 1"
definition FixedHeaderSize :: nat where "FixedHeaderSize = 6"
definition MaxHeaderSize :: nat where "MaxHeaderSize = 64 * 1024"
definition DefaultChunkSize :: int where "DefaultChunkSize = 12 * 1024"
definition TargetChunkSize :: int where "TargetChunkSize = 64 * 1024"

section \<open>Wire structs\<close>

record file_metadata =
  file_Name :: string
  file_Size :: int
  file_MIME :: string
  file_ChunkSize :: int
  file_TotalChunks :: int
  file_LastModified :: int
  file_SHA256 :: string
  file_CommitAck :: bool
  file_ProgressAck :: bool
  file_Resume :: bool

record chunk_header =
  hdr_TransferID :: string
  hdr_Index :: int
  hdr_Offset :: int
  hdr_Length :: int

text \<open>
  \<open>Payload\<close> is a \<open>json.RawMessage\<close>: the value it holds, \<open>None\<close> where the member is absent.
  \<open>File\<close> is a pointer.
\<close>

record control =
  ctl_Version :: int
  ctl_Type :: string
  ctl_ID :: string
  ctl_Timestamp :: int
  ctl_Payload :: "json option"
  ctl_TransferID :: string
  ctl_File :: "file_metadata option"
  ctl_Acknowledgements :: bool
  ctl_ReceivedBytes :: int
  ctl_Reason :: string
  ctl_SHA256 :: string

definition zero_file :: file_metadata where
  "zero_file = \<lparr>file_Name = [], file_Size = 0, file_MIME = [], file_ChunkSize = 0,
     file_TotalChunks = 0, file_LastModified = 0, file_SHA256 = [], file_CommitAck = False,
     file_ProgressAck = False, file_Resume = False\<rparr>"

definition zero_header :: chunk_header where
  "zero_header = \<lparr>hdr_TransferID = [], hdr_Index = 0, hdr_Offset = 0, hdr_Length = 0\<rparr>"

definition zero_control :: control where
  "zero_control = \<lparr>ctl_Version = 0, ctl_Type = [], ctl_ID = [], ctl_Timestamp = 0,
     ctl_Payload = None, ctl_TransferID = [], ctl_File = None, ctl_Acknowledgements = False,
     ctl_ReceivedBytes = 0, ctl_Reason = [], ctl_SHA256 = []\<rparr>"

section \<open>JSON form of the structs\<close>

abbreviation omit_when :: "bool \<Rightarrow> string \<Rightarrow> json \<Rightarrow> (string \<times> json) list" where
  "omit_when b k v \<equiv> (if b then [] else [(k, v)])"

definition file_json :: "file_metadata \<Rightarrow> json" where
  "file_json f = JObj (
     [(''name'', JStr (file_Name f)),
      (''size'', JNum (int_text (file_Size f))),
      (''mime'', JStr (file_MIME f)),
      (''chunkSize'', JNum (int_text (file_ChunkSize f))),
      (''totalChunks'', JNum (int_text (file_TotalChunks f))),
      (''lastModified'', JNum (int_text (file_LastModified f)))] @
     omit_when (file_SHA256 f = []) ''sha256'' (JStr (file_SHA256 f)) @
     omit_when (\<not> file_CommitAck f) ''commitAck'' (JBool (file_CommitAck f)) @
     omit_when (\<not> file_ProgressAck f) ''progressAck'' (JBool (file_ProgressAck f)) @
     omit_when (\<not> file_Resume f) ''resume'' (JBool (file_Resume f)) @ [])"

definition header_json :: "chunk_header \<Rightarrow> json" where
  "header_json h = JObj
     [(''transferId'', JStr (hdr_TransferID h)),
      (''index'', JNum (int_text (hdr_Index h))),
      (''offset'', JNum (int_text (hdr_Offset h))),
      (''length'', JNum (int_text (hdr_Length h)))]"

definition control_json :: "control \<Rightarrow> json" where
  "control_json c = JObj (
     [(''version'', JNum (int_text (ctl_Version c))),
      (''type'', JStr (ctl_Type c))] @
     omit_when (ctl_ID c = []) ''id'' (JStr (ctl_ID c)) @
     omit_when (ctl_Timestamp c = 0) ''timestamp'' (JNum (int_text (ctl_Timestamp c))) @
     omit_when (ctl_Payload c = None) ''payload'' (the (ctl_Payload c)) @
     omit_when (ctl_TransferID c = []) ''transferId'' (JStr (ctl_TransferID c)) @
     omit_when (ctl_File c = None) ''file'' (file_json (the (ctl_File c))) @
     omit_when (\<not> ctl_Acknowledgements c) ''acknowledgements'' (JBool (ctl_Acknowledgements c)) @
     omit_when (ctl_ReceivedBytes c = 0) ''receivedBytes'' (JNum (int_text (ctl_ReceivedBytes c))) @
     omit_when (ctl_Reason c = []) ''reason'' (JStr (ctl_Reason c)) @
     omit_when (ctl_SHA256 c = []) ''sha256'' (JStr (ctl_SHA256 c)) @ [])"

definition file_fields :: "string list" where
  "file_fields = [''name'', ''size'', ''mime'', ''chunkSize'', ''totalChunks'', ''lastModified'',
     ''sha256'', ''commitAck'', ''progressAck'', ''resume'']"

definition set_file_field :: "file_metadata setter" where
  "set_file_field k v f =
     (if k = ''name'' then map_option (\<lambda>x. f\<lparr>file_Name := x\<rparr>) (get_string v (file_Name f))
      else if k = ''size'' then map_option (\<lambda>x. f\<lparr>file_Size := x\<rparr>) (get_int v (file_Size f))
      else if k = ''mime'' then map_option (\<lambda>x. f\<lparr>file_MIME := x\<rparr>) (get_string v (file_MIME f))
      else if k = ''chunkSize'' then
        map_option (\<lambda>x. f\<lparr>file_ChunkSize := x\<rparr>) (get_int v (file_ChunkSize f))
      else if k = ''totalChunks'' then
        map_option (\<lambda>x. f\<lparr>file_TotalChunks := x\<rparr>) (get_int v (file_TotalChunks f))
      else if k = ''lastModified'' then
        map_option (\<lambda>x. f\<lparr>file_LastModified := x\<rparr>) (get_int v (file_LastModified f))
      else if k = ''sha256'' then
        map_option (\<lambda>x. f\<lparr>file_SHA256 := x\<rparr>) (get_string v (file_SHA256 f))
      else if k = ''commitAck'' then
        map_option (\<lambda>x. f\<lparr>file_CommitAck := x\<rparr>) (get_bool v (file_CommitAck f))
      else if k = ''progressAck'' then
        map_option (\<lambda>x. f\<lparr>file_ProgressAck := x\<rparr>) (get_bool v (file_ProgressAck f))
      else if k = ''resume'' then
        map_option (\<lambda>x. f\<lparr>file_Resume := x\<rparr>) (get_bool v (file_Resume f))
      else None)"

definition header_fields :: "string list" where
  "header_fields = [''transferId'', ''index'', ''offset'', ''length'']"

definition set_header_field :: "chunk_header setter" where
  "set_header_field k v h =
     (if k = ''transferId'' then
        map_option (\<lambda>x. h\<lparr>hdr_TransferID := x\<rparr>) (get_string v (hdr_TransferID h))
      else if k = ''index'' then map_option (\<lambda>x. h\<lparr>hdr_Index := x\<rparr>) (get_int v (hdr_Index h))
      else if k = ''offset'' then map_option (\<lambda>x. h\<lparr>hdr_Offset := x\<rparr>) (get_int v (hdr_Offset h))
      else if k = ''length'' then map_option (\<lambda>x. h\<lparr>hdr_Length := x\<rparr>) (get_int v (hdr_Length h))
      else None)"

text \<open>A null \<open>file\<close> clears the pointer; an object is read into the struct it points to.\<close>

definition get_file :: "json \<Rightarrow> file_metadata option \<Rightarrow> file_metadata option option" where
  "get_file v old =
     (if v = JNull then Some None
      else map_option Some
        (decode_struct file_fields set_file_field v (case old of None \<Rightarrow> zero_file | Some f \<Rightarrow> f)))"

definition control_fields :: "string list" where
  "control_fields = [''version'', ''type'', ''id'', ''timestamp'', ''payload'', ''transferId'',
     ''file'', ''acknowledgements'', ''receivedBytes'', ''reason'', ''sha256'']"

definition set_control_field :: "control setter" where
  "set_control_field k v c =
     (if k = ''version'' then map_option (\<lambda>x. c\<lparr>ctl_Version := x\<rparr>) (get_int v (ctl_Version c))
      else if k = ''type'' then map_option (\<lambda>x. c\<lparr>ctl_Type := x\<rparr>) (get_string v (ctl_Type c))
      else if k = ''id'' then map_option (\<lambda>x. c\<lparr>ctl_ID := x\<rparr>) (get_string v (ctl_ID c))
      else if k = ''timestamp'' then
        map_option (\<lambda>x. c\<lparr>ctl_Timestamp := x\<rparr>) (get_int v (ctl_Timestamp c))
      else if k = ''payload'' then Some (c\<lparr>ctl_Payload := Some v\<rparr>)
      else if k = ''transferId'' then
        map_option (\<lambda>x. c\<lparr>ctl_TransferID := x\<rparr>) (get_string v (ctl_TransferID c))
      else if k = ''file'' then map_option (\<lambda>x. c\<lparr>ctl_File := x\<rparr>) (get_file v (ctl_File c))
      else if k = ''acknowledgements'' then
        map_option (\<lambda>x. c\<lparr>ctl_Acknowledgements := x\<rparr>) (get_bool v (ctl_Acknowledgements c))
      else if k = ''receivedBytes'' then
        map_option (\<lambda>x. c\<lparr>ctl_ReceivedBytes := x\<rparr>) (get_int v (ctl_ReceivedBytes c))
      else if k = ''reason'' then map_option (\<lambda>x. c\<lparr>ctl_Reason := x\<rparr>) (get_string v (ctl_Reason c))
      else if k = ''sha256'' then map_option (\<lambda>x. c\<lparr>ctl_SHA256 := x\<rparr>) (get_string v (ctl_SHA256 c))
      else None)"

section \<open>Errors\<close>

text \<open>
  \<open>ErrHeaderJson\<close> stands for \<open>%w: %v\<close> of a JSON error; the library's own words after
  the prefix are not modelled.
\<close>

datatype protocol_error =
    ErrInvalidPacket
  | ErrInvalidHeader
  | ErrHeaderSize
  | ErrHeaderJson
  | ErrControlJson
  | ErrUnsupportedControl

definition error_text :: "protocol_error \<Rightarrow> string" where
  "error_text e = (case e of
      ErrInvalidPacket \<Rightarrow> ''invalid QuickDrop binary packet''
    | ErrInvalidHeader \<Rightarrow> ''invalid QuickDrop binary packet: invalid chunk header''
    | ErrHeaderSize \<Rightarrow> ''invalid QuickDrop binary packet: header size''
    | ErrHeaderJson \<Rightarrow> ''invalid QuickDrop binary packet: ''
    | ErrControlJson \<Rightarrow> []
    | ErrUnsupportedControl \<Rightarrow> ''unsupported QuickDrop control message'')"

section \<open>Operations\<close>

definition to_bytes :: "string \<Rightarrow> bytes" where
  "to_bytes = map (\<lambda>c. word_of_nat (of_char c))"

definition of_bytes :: "bytes \<Rightarrow> string" where
  "of_bytes = map (\<lambda>b. char_of (unat b))"

definition put_uint32 :: "32 word \<Rightarrow> bytes" where
  "put_uint32 w = [ucast (drop_bit 24 w), ucast (drop_bit 16 w), ucast (drop_bit 8 w), ucast w]"

definition get_uint32 :: "bytes \<Rightarrow> 32 word" where
  "get_uint32 b = or (or (or (ucast (b ! 3)) (push_bit 8 (ucast (b ! 2))))
     (push_bit 16 (ucast (b ! 1)))) (push_bit 24 (ucast (b ! 0)))"

definition EncodeChunk :: "chunk_header \<Rightarrow> bytes \<Rightarrow> protocol_error + bytes" where
  "EncodeChunk header payload =
     (if hdr_TransferID header = [] \<or> hdr_Index header < 0 \<or> hdr_Offset header < 0
         \<or> hdr_Length header \<noteq> int (length payload) then Inl ErrInvalidHeader
      else
        let headerJSON = to_bytes (json_text (header_json header)) in
        if headerJSON = [] \<or> length headerJSON > MaxHeaderSize then Inl ErrHeaderSize
        else Inr ([word_of_int Version, word_of_int PacketTypeFileChunk] @
                  put_uint32 (word_of_nat (length headerJSON)) @ headerJSON @ payload))"

definition DecodeChunk :: "bytes \<Rightarrow> protocol_error + (chunk_header \<times> bytes)" where
  "DecodeChunk packet =
     (if length packet < FixedHeaderSize \<or> packet ! 0 \<noteq> word_of_int Version
         \<or> packet ! 1 \<noteq> word_of_int PacketTypeFileChunk then Inl ErrInvalidPacket
      else
        let headerLength = unat (get_uint32 (take 4 (drop 2 packet))) in
        if headerLength = 0 \<or> headerLength > MaxHeaderSize
           \<or> FixedHeaderSize + headerLength > length packet then Inl ErrInvalidPacket
        else
          (case unmarshal header_fields set_header_field
                  (of_bytes (take headerLength (drop FixedHeaderSize packet))) zero_header of
             None \<Rightarrow> Inl ErrHeaderJson
           | Some header \<Rightarrow>
               let payload = drop (FixedHeaderSize + headerLength) packet in
               if hdr_TransferID header = [] \<or> hdr_Index header < 0 \<or> hdr_Offset header < 0
                  \<or> hdr_Length header \<noteq> int (length payload) then Inl ErrInvalidPacket
               else Inr (header, payload)))"

definition EncodeControl :: "control \<Rightarrow> string" where
  "EncodeControl c = json_text (control_json c)"

definition DecodeControl :: "string \<Rightarrow> protocol_error + control" where
  "DecodeControl raw =
     (case unmarshal control_fields set_control_field raw zero_control of
        None \<Rightarrow> Inl ErrControlJson
      | Some message \<Rightarrow>
          if ctl_Version message \<noteq> Version \<or> ctl_Type message = [] then Inl ErrUnsupportedControl
          else Inr message)"

definition TotalChunks :: "int \<Rightarrow> int \<Rightarrow> int" where
  "TotalChunks sz chunkSize =
     (if sz \<le> 0 \<or> chunkSize \<le> 0 then 0
      else i64 (go_quot (i64 (i64 (sz + chunkSize) - 1)) chunkSize))"

section \<open>Round trips of the pieces\<close>

lemma of_bytes_to_bytes [simp]: "of_bytes (to_bytes s) = s"
  by (simp add: of_bytes_def to_bytes_def comp_def unat_of_nat)

lemma length_to_bytes [simp]: "length (to_bytes s) = length s"
  by (simp add: to_bytes_def)

lemma get_put_uint32: "get_uint32 (put_uint32 w) = w"
proof (rule bit_word_eqI)
  fix n assume n: "n < LENGTH(32)"
  show "bit (get_uint32 (put_uint32 w)) n = bit w n"
  proof (cases "n < 16")
    case True
    then show ?thesis
      by (cases "n < 8") (auto simp: get_uint32_def put_uint32_def bit_simps)
  next
    case False
    with n show ?thesis
      by (cases "n < 24") (auto simp: get_uint32_def put_uint32_def bit_simps)
  qed
qed

lemma length_put_uint32 [simp]: "length (put_uint32 w) = 4"
  by (simp add: put_uint32_def)

definition header_ok :: "chunk_header \<Rightarrow> bool" where
  "header_ok h \<longleftrightarrow> valid_utf8 (hdr_TransferID h) \<and> in_i64 (hdr_Index h)
     \<and> in_i64 (hdr_Offset h) \<and> in_i64 (hdr_Length h)"

definition file_ok :: "file_metadata \<Rightarrow> bool" where
  "file_ok f \<longleftrightarrow> valid_utf8 (file_Name f) \<and> valid_utf8 (file_MIME f) \<and> valid_utf8 (file_SHA256 f)
     \<and> in_i64 (file_Size f) \<and> in_i64 (file_ChunkSize f) \<and> in_i64 (file_TotalChunks f)
     \<and> in_i64 (file_LastModified f)"

definition payload_ok :: "json option \<Rightarrow> bool" where
  "payload_ok p \<longleftrightarrow> (case p of None \<Rightarrow> True | Some v \<Rightarrow> json_ok v \<and> nesting v < max_nesting)"

definition control_ok :: "control \<Rightarrow> bool" where
  "control_ok c \<longleftrightarrow> in_i64 (ctl_Version c) \<and> in_i64 (ctl_Timestamp c) \<and> in_i64 (ctl_ReceivedBytes c)
     \<and> valid_utf8 (ctl_Type c) \<and> valid_utf8 (ctl_ID c) \<and> valid_utf8 (ctl_TransferID c)
     \<and> valid_utf8 (ctl_Reason c) \<and> valid_utf8 (ctl_SHA256 c)
     \<and> payload_ok (ctl_Payload c) \<and> (case ctl_File c of None \<Rightarrow> True | Some f \<Rightarrow> file_ok f)"

lemma valid_utf8_ascii: "list_all (\<lambda>c. ord c < 128) s \<Longrightarrow> valid_utf8 s"
  by (induction s) (simp_all add: utf8_width.simps)

lemma members_ok_append [simp]: "members_ok (xs @ ys) \<longleftrightarrow> members_ok xs \<and> members_ok ys"
  by (induction xs) auto

lemma members_nesting_append [simp]:
  "members_nesting (xs @ ys) = max (members_nesting xs) (members_nesting ys)"
  by (induction xs) auto

lemma decode_header_json:
  "header_ok h \<Longrightarrow> decode_struct header_fields set_header_field (header_json h) zero_header = Some h"
  unfolding header_json_def decode_struct_def json.case
  by (subst decode_member, simp add: header_fields_def, simp add: set_header_field_def header_ok_def)+
     (simp add: zero_header_def)

lemma header_json_ok: "header_ok h \<Longrightarrow> json_ok (header_json h)" "nesting (header_json h) \<le> max_nesting"
  by (simp_all add: header_json_def header_ok_def max_nesting_def utf8_width.simps)

lemma decode_file_json:
  "file_ok f \<Longrightarrow> decode_struct file_fields set_file_field (file_json f) zero_file = Some f"
  unfolding file_json_def decode_struct_def json.case append_Cons append_Nil
  by ((subst decode_member decode_omittable, simp add: file_fields_def,
      simp add: set_file_field_def file_ok_def zero_file_def, (simp; fail)?)+)
     (simp add: zero_file_def)

lemma file_json_ok: "file_ok f \<Longrightarrow> json_ok (file_json f)" "nesting (file_json f) = 1"
  by (simp_all add: file_json_def file_ok_def utf8_width.simps)

lemma get_file_json: "file_ok f \<Longrightarrow> get_file (file_json f) None = Some (Some f)"
  by (simp add: get_file_def decode_file_json file_json_def [of f, THEN arg_cong [of _ _ "\<lambda>v. v = JNull"]])

text \<open>The two optional members whose absence is \<open>None\<close>.\<close>

lemma decode_payload:
  "ctl_Payload r = None \<Longrightarrow>
   decode_members control_fields set_control_field (omit_when (p = None) ''payload'' (the p) @ ms) r =
   decode_members control_fields set_control_field ms (r\<lparr>ctl_Payload := p\<rparr>)"
  by (cases p; cases r) (simp_all add: field_named_exact control_fields_def set_control_field_def)

lemma decode_file_member:
  "ctl_File r = None \<Longrightarrow> (\<And>f. p = Some f \<Longrightarrow> file_ok f) \<Longrightarrow>
   decode_members control_fields set_control_field
     (omit_when (p = None) ''file'' (file_json (the p)) @ ms) r =
   decode_members control_fields set_control_field ms (r\<lparr>ctl_File := p\<rparr>)"
  by (cases p; cases r) (simp_all add: field_named_exact control_fields_def set_control_field_def get_file_json)

lemma decode_control_json:
  "control_ok c \<Longrightarrow> decode_struct control_fields set_control_field (control_json c) zero_control = Some c"
  unfolding control_json_def decode_struct_def json.case append_Cons append_Nil
  by (((subst decode_payload, simp add: zero_control_def) |
       (subst decode_file_member, simp add: zero_control_def, simp add: control_ok_def) |
       (subst decode_member decode_omittable, simp add: control_fields_def,
        simp add: set_control_field_def control_ok_def, (simp add: zero_control_def; fail)?))+)
     (simp add: zero_control_def)

lemma control_json_ok:
  "control_ok c \<Longrightarrow> json_ok (control_json c)"
  "control_ok c \<Longrightarrow> nesting (control_json c) \<le> max_nesting"
  by (auto simp: control_json_def control_ok_def payload_ok_def utf8_width.simps file_json_ok
      max_nesting_def split: option.splits)

section \<open>The chunk codec\<close>

lemma DecodeChunk_layout:
  assumes "length hj \<le> MaxHeaderSize" "hj \<noteq> []"
  shows "DecodeChunk ([word_of_int Version, word_of_int PacketTypeFileChunk] @
      put_uint32 (word_of_nat (length hj)) @ hj @ payload) =
    (case unmarshal header_fields set_header_field (of_bytes hj) zero_header of
       None \<Rightarrow> Inl ErrHeaderJson
     | Some header \<Rightarrow>
         if hdr_TransferID header = [] \<or> hdr_Index header < 0 \<or> hdr_Offset header < 0
            \<or> hdr_Length header \<noteq> int (length payload) then Inl ErrInvalidPacket
         else Inr (header, payload))"
proof -
  have len: "unat (word_of_nat (length hj) :: 32 word) = length hj"
    using assms(1) by (simp add: unat_of_nat MaxHeaderSize_def)
  let ?pre = "[word_of_int Version, word_of_int PacketTypeFileChunk] @ put_uint32 (word_of_nat (length hj))"
  have "length (?pre @ hj) = 6 + length hj" by simp
  then have "drop (6 + length hj) ((?pre @ hj) @ payload) = payload"
    by (metis append_eq_conv_conj)
  then have tail: "drop (6 + length hj) (word_of_int Version # word_of_int PacketTypeFileChunk #
      put_uint32 (word_of_nat (length hj)) @ hj @ payload) = payload"
    by simp
  have "take 4 (put_uint32 w @ r) = put_uint32 w" "drop 4 (put_uint32 w @ r) = r" for w r
    by (simp_all add: put_uint32_def)
  then show ?thesis
    using assms len
    by (simp add: DecodeChunk_def FixedHeaderSize_def get_put_uint32 Let_def numeral_2_eq_2 tail
        del: length_greater_0_conv cong: option.case_cong)
qed

lemma DecodeChunk_EncodeChunk:
  assumes "EncodeChunk h payload = Inr packet" and "header_ok h"
  shows "DecodeChunk packet = Inr (h, payload)"
proof -
  let ?hj = "to_bytes (json_text (header_json h))"
  have ok: "\<not> (hdr_TransferID h = [] \<or> hdr_Index h < 0 \<or> hdr_Offset h < 0
      \<or> hdr_Length h \<noteq> int (length payload))" "?hj \<noteq> []" "length ?hj \<le> MaxHeaderSize"
    and packet: "packet = [word_of_int Version, word_of_int PacketTypeFileChunk] @
      put_uint32 (word_of_nat (length ?hj)) @ ?hj @ payload"
    using assms(1) by (auto simp: EncodeChunk_def Let_def split: if_splits)
  have "unmarshal header_fields set_header_field (of_bytes ?hj) zero_header = Some h"
    using assms(2) by (simp add: unmarshal_json_text header_json_ok decode_header_json)
  moreover have "DecodeChunk packet = (case unmarshal header_fields set_header_field (of_bytes ?hj) zero_header of
       None \<Rightarrow> Inl ErrHeaderJson
     | Some header \<Rightarrow>
         if hdr_TransferID header = [] \<or> hdr_Index header < 0 \<or> hdr_Offset header < 0
            \<or> hdr_Length header \<noteq> int (length payload) then Inl ErrInvalidPacket
         else Inr (header, payload))"
    unfolding packet using ok(3,2) by (rule DecodeChunk_layout)
  ultimately show ?thesis using ok(1) by simp
qed

lemma DecodeControl_EncodeControl:
  assumes "control_ok c" and "ctl_Version c = Version" and "ctl_Type c \<noteq> []"
  shows "DecodeControl (EncodeControl c) = Inr c"
  using assms
  by (simp add: DecodeControl_def EncodeControl_def unmarshal_json_text control_json_ok decode_control_json)

lemma EncodeChunk_succeeds:
  assumes "hdr_TransferID h \<noteq> []" "0 \<le> hdr_Index h" "0 \<le> hdr_Offset h"
    and "hdr_Length h = int (length payload)" "length (json_text (header_json h)) \<le> MaxHeaderSize"
  shows "\<exists>packet. EncodeChunk h payload = Inr packet"
proof -
  have "json_text (header_json h) \<noteq> []" by (simp add: header_json_def)
  then show ?thesis using assms by (auto simp: EncodeChunk_def Let_def to_bytes_def)
qed

lemma length_header_json:
  assumes "header_ok h" "length (hdr_TransferID h) \<le> 1000"
  shows "length (json_text (header_json h)) \<le> MaxHeaderSize"
proof -
  have "length (int_text (hdr_Index h)) \<le> 20" "length (int_text (hdr_Offset h)) \<le> 20" "length (int_text (hdr_Length h)) \<le> 20"
    using assms(1) by (simp_all add: header_ok_def length_int_text)
  moreover have "length (escape (hdr_TransferID h)) \<le> 6000" using length_escape [of "hdr_TransferID h"] assms(2) by simp
  moreover have "escape ''transferId'' = ''transferId''" "escape ''index'' = ''index''" "escape ''offset'' = ''offset''"
    "escape ''length'' = ''length''"
    by (simp_all add: escape.simps escape_ascii_def)
  ultimately show ?thesis by (simp add: header_json_def quote_def MaxHeaderSize_def)
qed
text \<open>Both message kinds of the DataChannel keep the contract of a wire format.\<close>

interpretation chunk_codec: wire_codec "\<lambda>(h, payload). EncodeChunk h payload" DecodeChunk "\<lambda>(h, payload). header_ok h"
  by unfold_locales (auto intro: DecodeChunk_EncodeChunk)

interpretation control_codec: wire_codec "\<lambda>c. Inr (EncodeControl c)" DecodeControl
    "\<lambda>c. control_ok c \<and> ctl_Version c = Version \<and> ctl_Type c \<noteq> []"
  by unfold_locales (auto intro: DecodeControl_EncodeControl)

text \<open>C38: Every chunk header with a transfer id in UTF-8, non-negative position and the length
  of its payload, whose JSON form fits the header limit, is encoded, and the packet decodes to
  exactly that header and payload, whatever the payload bytes are.\<close>

theorem chunk_roundtrip:
  assumes "header_ok h" and "hdr_TransferID h \<noteq> []" and "0 \<le> hdr_Index h" and "0 \<le> hdr_Offset h"
    and "hdr_Length h = int (length payload)" and "length (json_text (header_json h)) \<le> MaxHeaderSize"
  shows "\<exists>packet. EncodeChunk h payload = Inr packet \<and> DecodeChunk packet = Inr (h, payload)"
proof -
  obtain packet where "EncodeChunk h payload = Inr packet"
    using EncodeChunk_succeeds assms(2-6) by blast
  then show ?thesis using chunk_codec.roundtrip [of "(h, payload)" packet] assms(1) by simp
qed

theorem chunk_roundtrip_witness:
  "\<exists>packet. EncodeChunk (zero_header\<lparr>hdr_TransferID := ''id'', hdr_Index := 1, hdr_Offset := 2, hdr_Length := 2\<rparr>)
       [7, 9] = Inr packet
     \<and> DecodeChunk packet = Inr (zero_header\<lparr>hdr_TransferID := ''id'', hdr_Index := 1, hdr_Offset := 2, hdr_Length := 2\<rparr>,
         [7, 9])"
proof (rule chunk_roundtrip)
  show ok: "header_ok (zero_header\<lparr>hdr_TransferID := ''id'', hdr_Index := 1, hdr_Offset := 2, hdr_Length := 2\<rparr>)"
    by code_simp
  show "length (json_text (header_json (zero_header\<lparr>hdr_TransferID := ''id'', hdr_Index := 1, hdr_Offset := 2,
      hdr_Length := 2\<rparr>))) \<le> MaxHeaderSize"
    using ok by (rule length_header_json) (simp add: zero_header_def)
qed (simp_all add: zero_header_def)

text \<open>C39: Every control message of this protocol version decodes from its own text to itself:
  file metadata, payload and all optional members included, in either state of presence.\<close>

theorem control_roundtrip:
  assumes "control_ok c" and "ctl_Version c = Version" and "ctl_Type c \<noteq> []"
  shows "DecodeControl (EncodeControl c) = Inr c"
  using control_codec.roundtrip [of c] assms by simp

theorem control_roundtrip_witness:
  "DecodeControl (EncodeControl (zero_control\<lparr>ctl_Version := 1, ctl_Type := ''file_cancel'', ctl_Reason := ''no''\<rparr>))
     = Inr (zero_control\<lparr>ctl_Version := 1, ctl_Type := ''file_cancel'', ctl_Reason := ''no''\<rparr>)"
proof (rule control_roundtrip)
  show "control_ok (zero_control\<lparr>ctl_Version := 1, ctl_Type := ''file_cancel'', ctl_Reason := ''no''\<rparr>)"
    by code_simp
qed (simp_all add: zero_control_def Version_def)

lemma TotalChunks_ceil:
  assumes "0 < sz" "0 < cs" "in_i64 (sz + cs)"
  shows "TotalChunks sz cs = (sz + cs - 1) div cs"
proof -
  have "in_i64 (sz + cs - 1)" using assms in_i64_between [of "sz + cs - 1" "sz + cs"] by simp
  moreover have "(sz + cs - 1) div cs \<le> sz + cs - 1"
    using assms zdiv_mono2 [of "sz + cs - 1" 1 cs] by simp
  moreover have "0 \<le> (sz + cs - 1) div cs"
    using assms by (simp add: pos_imp_zdiv_nonneg_iff)
  ultimately have "in_i64 ((sz + cs - 1) div cs)" using in_i64_between by blast
  with assms \<open>in_i64 (sz + cs - 1)\<close> show ?thesis
    by (simp add: TotalChunks_def go_quot_nonneg)
qed

lemma TotalChunks_iff:
  assumes "0 \<le> sz" "0 < cs" "in_i64 (sz + cs)" and "0 \<le> i"
  shows "i < TotalChunks sz cs \<longleftrightarrow> i * cs < sz"
proof (cases "sz = 0")
  case True
  with assms show ?thesis by (simp add: TotalChunks_def mult_less_0_iff)
next
  case False
  with assms show ?thesis by (simp add: TotalChunks_ceil ceil_div_le_iff)
qed

text \<open>C40: As long as size plus chunk size fits in an \<open>int64\<close>, \<open>TotalChunks\<close> is the least
  number of chunks of that size that covers the file: all but the last are full and the last
  is not empty.\<close>

theorem TotalChunks_least_cover:
  assumes "0 < sz" "0 < cs" "in_i64 (sz + cs)"
  shows "1 \<le> TotalChunks sz cs \<and> (TotalChunks sz cs - 1) * cs < sz \<and> sz \<le> TotalChunks sz cs * cs"
proof -
  have n: "1 \<le> TotalChunks sz cs" using TotalChunks_iff [of sz cs 0] assms by simp
  then have "(TotalChunks sz cs - 1) * cs < sz"
    using TotalChunks_iff [of sz cs "TotalChunks sz cs - 1"] assms by simp
  moreover have "sz \<le> TotalChunks sz cs * cs"
    using TotalChunks_iff [of sz cs "TotalChunks sz cs"] assms n by simp
  ultimately show ?thesis using n by simp
qed

theorem TotalChunks_least_cover_witness:
  "TotalChunks 100 64 = 2 \<and> (TotalChunks 100 64 - 1) * 64 < 100"
  using TotalChunks_least_cover [of 100 64] by (simp add: in_i64_def TotalChunks_def i64_def go_quot_def)

lemma DecodeChunk_ok:
  assumes "DecodeChunk packet = Inr (h, payload)"
  shows "hdr_TransferID h \<noteq> [] \<and> 0 \<le> hdr_Index h \<and> 0 \<le> hdr_Offset h
    \<and> hdr_Length h = int (length payload) \<and> (\<exists>pre. packet = pre @ payload \<and> FixedHeaderSize < length pre)"
proof -
  define n where "n = unat (get_uint32 (take 4 (drop 2 packet)))"
  from assms have n: "0 < n" "FixedHeaderSize + n \<le> length packet"
    and p: "payload = drop (FixedHeaderSize + n) packet"
    and h: "hdr_TransferID h \<noteq> []" "\<not> hdr_Index h < 0" "\<not> hdr_Offset h < 0"
      "hdr_Length h = int (length payload)"
    by (auto simp: DecodeChunk_def Let_def n_def [symmetric] split: if_splits option.splits)
  have "packet = take (FixedHeaderSize + n) packet @ payload"
    by (simp add: p)
  moreover have "FixedHeaderSize < length (take (FixedHeaderSize + n) packet)"
    using n by simp
  ultimately show ?thesis using h by fastforce
qed


end
