(* ===== verification/Host.thy ===== *)
theory Host
  imports Protocol
begin

text \<open>
  The operating system as the transfer code sees it through Go's \<open>os\<close>, \<open>io\<close>,
  \<open>path/filepath\<close> and \<open>time\<close> (Unix build). A record holds names bound to inodes, the
  bytes of each inode, the bytes last forced to disk by \<open>Sync\<close>, and the open files, so
  that two names or a name and an open file can denote the same bytes. Every call may
  fail: it takes its outcome from the list \<open>faults\<close> (nothing left means success), and
  theorems hold for every such list. Clock readings come from the list \<open>clock\<close> in the
  same way. Error texts of the library are abbreviated.
\<close>

section \<open>State\<close>

datatype entry = Regular nat | Symlink string | Dir bool \<comment> \<open>whether the directory is empty\<close>
datatype fate = Fine | Fault string nat \<comment> \<open>error text, and how much a failing write still did\<close>

record host =
  names :: "string \<Rightarrow> entry option"
  inodes :: "nat \<Rightarrow> bytes"
  synced :: "nat \<Rightarrow> bytes"
  handles :: "nat \<Rightarrow> (nat \<times> nat) option" \<comment> \<open>inode and position of an open file\<close>
  next_inode :: nat
  next_handle :: nat
  faults :: "fate list"
  clock :: "int list"
  free_blocks :: "64 word"
  block_size :: "64 word"
  sha256 :: "bytes \<Rightarrow> bytes"
  mtimes :: "nat \<Rightarrow> int" \<comment> \<open>modification time of an inode, in milliseconds\<close>
  mime_types :: "string \<Rightarrow> string" \<comment> \<open>\<open>mime.TypeByExtension\<close>, a table of the system\<close>

type_synonym 'a call = "string option \<times> 'a host_scheme" \<comment> \<open>\<open>None\<close>: no error\<close>

definition fate_of :: "'a host_scheme \<Rightarrow> fate \<times> 'a host_scheme" where
  "fate_of h = (case faults h of [] \<Rightarrow> (Fine, h) | f # fs \<Rightarrow> (f, h\<lparr>faults := fs\<rparr>))"

definition time_now :: "'a host_scheme \<Rightarrow> int \<times> 'a host_scheme" where
  "time_now h = (case clock h of [] \<Rightarrow> (0, h) | t # ts \<Rightarrow> (t, h\<lparr>clock := ts\<rparr>))"

section \<open>Paths\<close>

abbreviation slash :: char where "slash \<equiv> CHR 0x2F"

fun split_slash :: "string \<Rightarrow> string \<Rightarrow> string list" where
  "split_slash acc [] = [rev acc]"
| "split_slash acc (c # cs) =
     (if c = slash then rev acc # split_slash [] cs else split_slash (c # acc) cs)"

fun join_slash :: "string list \<Rightarrow> string" where
  "join_slash [] = []"
| "join_slash [c] = c"
| "join_slash (c # d # cs) = c @ slash # join_slash (d # cs)"

text \<open>The components of a cleaned path, last first.\<close>

fun clean_rev :: "bool \<Rightarrow> string list \<Rightarrow> string list \<Rightarrow> string list" where
  "clean_rev rooted acc [] = acc"
| "clean_rev rooted acc (c # cs) =
     (if c = [] \<or> c = ''.'' then clean_rev rooted acc cs
      else if c = ''..'' then
        (case acc of
           [] \<Rightarrow> clean_rev rooted (if rooted then [] else [''..'']) cs
         | a # acc' \<Rightarrow> clean_rev rooted (if a = ''..'' then c # acc else acc') cs)
      else clean_rev rooted (c # acc) cs)"

definition rooted :: "string \<Rightarrow> bool" where
  "rooted p \<longleftrightarrow> (case p of c # _ \<Rightarrow> c = slash | [] \<Rightarrow> False)"

definition Clean :: "string \<Rightarrow> string" where
  "Clean p =
     (let cs = rev (clean_rev (rooted p) [] (split_slash [] p))
      in if rooted p then slash # join_slash cs
         else if cs = [] then ''.'' else join_slash cs)"

definition Join :: "string \<Rightarrow> string \<Rightarrow> string" where
  "Join a b =
     (if a = [] \<and> b = [] then []
      else if a = [] then Clean b else if b = [] then Clean a else Clean (a @ slash # b))"

definition strip_slashes :: "string \<Rightarrow> string" where
  "strip_slashes p = rev (dropWhile (\<lambda>c. c = slash) (rev p))"

definition Base :: "string \<Rightarrow> string" where
  "Base p =
     (if p = [] then ''.''
      else if strip_slashes p = [] then [slash]
      else last (split_slash [] (strip_slashes p)))"

text \<open>\<open>filepath.Ext\<close>: the suffix from the last dot of the last component.\<close>

definition Ext :: "string \<Rightarrow> string" where
  "Ext p =
     (let r = takeWhile (\<lambda>c. c \<noteq> slash) (rev p)
      in if CHR ''.'' \<in> set r then CHR ''.'' # rev (takeWhile (\<lambda>c. c \<noteq> CHR ''.'') r) else [])"

section \<open>File operations\<close>

text \<open>Following symbolic links, at most 40 as Linux does.\<close>

fun follow :: "nat \<Rightarrow> (string \<Rightarrow> entry option) \<Rightarrow> string \<Rightarrow> string option" where
  "follow 0 ns p = None"
| "follow (Suc n) ns p = (case ns p of Some (Symlink q) \<Rightarrow> follow n ns q | _ \<Rightarrow> Some p)"

definition os_lstat :: "string \<Rightarrow> 'a host_scheme \<Rightarrow> entry option \<times> 'a host_scheme" where
  "os_lstat p h = (case fate_of h of (Fault _ _, h1) \<Rightarrow> (None, h1) | (Fine, h1) \<Rightarrow> (names h p, h1))"

definition os_stat :: "string \<Rightarrow> 'a host_scheme \<Rightarrow> entry option \<times> 'a host_scheme" where
  "os_stat p h =
     (case fate_of h of
        (Fault _ _, h1) \<Rightarrow> (None, h1)
      | (Fine, h1) \<Rightarrow> (case follow 40 (names h) p of None \<Rightarrow> None | Some q \<Rightarrow> names h q, h1))"

definition os_read_file :: "string \<Rightarrow> 'a host_scheme \<Rightarrow> bytes option \<times> 'a host_scheme" where
  "os_read_file p h =
     (case os_stat p h of
        (Some (Regular i), h1) \<Rightarrow> (Some (inodes h i), h1)
      | (_, h1) \<Rightarrow> (None, h1))"

definition os_mkdir_all :: "string \<Rightarrow> 'a host_scheme \<Rightarrow> 'a call" where
  "os_mkdir_all p h =
     (case fate_of h of
        (Fault msg _, h1) \<Rightarrow> (Some msg, h1)
      | (Fine, h1) \<Rightarrow>
          (case names h p of
             None \<Rightarrow> (None, h1\<lparr>names := (names h)(p \<mapsto> Dir False)\<rparr>)
           | Some (Regular _) \<Rightarrow> (Some ''not a directory'', h1)
           | _ \<Rightarrow> (None, h1)))"

text \<open>A write at a position; a gap before it is filled with zeros.\<close>

definition write_at :: "nat \<Rightarrow> bytes \<Rightarrow> bytes \<Rightarrow> bytes" where
  "write_at pos data old =
     take pos old @ replicate (pos - length old) 0 @ data @ drop (pos + length data) old"

definition os_open_rw :: "string \<Rightarrow> bool \<Rightarrow> 'a host_scheme \<Rightarrow> (string + nat) \<times> 'a host_scheme" where
  "os_open_rw p trunc h =
     (case fate_of h of
        (Fault msg _, h1) \<Rightarrow> (Inl msg, h1)
      | (Fine, h1) \<Rightarrow>
          (case follow 40 (names h) p of
             None \<Rightarrow> (Inl ''too many levels of symbolic links'', h1)
           | Some q \<Rightarrow>
               (case names h q of
                  Some (Regular i) \<Rightarrow>
                    (Inr (next_handle h),
                     h1\<lparr>inodes := (if trunc then (inodes h)(i := []) else inodes h),
                        handles := (handles h)(next_handle h \<mapsto> (i, 0)),
                        next_handle := Suc (next_handle h)\<rparr>)
                | None \<Rightarrow>
                    (Inr (next_handle h),
                     h1\<lparr>names := (names h)(q \<mapsto> Regular (next_inode h)),
                        inodes := (inodes h)(next_inode h := []),
                        synced := (synced h)(next_inode h := []),
                        next_inode := Suc (next_inode h),
                        handles := (handles h)(next_handle h \<mapsto> (next_inode h, 0)),
                        next_handle := Suc (next_handle h)\<rparr>)
                | _ \<Rightarrow> (Inl ''is a directory'', h1))))"

definition os_seek :: "nat \<Rightarrow> int \<Rightarrow> 'a host_scheme \<Rightarrow> 'a call" where
  "os_seek fd off h =
     (case handles h fd of
        None \<Rightarrow> (Some ''file already closed'', h)
      | Some (i, pos) \<Rightarrow>
          (case fate_of h of
             (Fault msg _, h1) \<Rightarrow> (Some msg, h1)
           | (Fine, h1) \<Rightarrow>
               if off < 0 then (Some ''invalid argument'', h1)
               else (None, h1\<lparr>handles := (handles h)(fd \<mapsto> (i, nat off))\<rparr>)))"

text \<open>\<open>os.Open\<close>: a new open file and what it is; a directory can be opened, not read.\<close>

definition os_open :: "string \<Rightarrow> 'a host_scheme \<Rightarrow> (string + nat \<times> entry) \<times> 'a host_scheme" where
  "os_open p h =
     (case fate_of h of
        (Fault msg _, h1) \<Rightarrow> (Inl msg, h1)
      | (Fine, h1) \<Rightarrow>
          (case follow 40 (names h) p of
             None \<Rightarrow> (Inl ''too many levels of symbolic links'', h1)
           | Some q \<Rightarrow>
               (case names h q of
                  None \<Rightarrow> (Inl ''no such file or directory'', h1)
                | Some (Regular i) \<Rightarrow>
                    (Inr (next_handle h, Regular i),
                     h1\<lparr>handles := (handles h)(next_handle h \<mapsto> (i, 0)), next_handle := Suc (next_handle h)\<rparr>)
                | Some e \<Rightarrow> (Inr (next_handle h, e), h1\<lparr>next_handle := Suc (next_handle h)\<rparr>))))"

text \<open>\<open>io.Copy\<close> of the rest of a file.\<close>

definition os_read_all :: "nat \<Rightarrow> 'a host_scheme \<Rightarrow> (string + bytes) \<times> 'a host_scheme" where
  "os_read_all fd h =
     (case handles h fd of
        None \<Rightarrow> (Inl ''file already closed'', h)
      | Some (i, pos) \<Rightarrow>
          (case fate_of h of
             (Fault msg _, h1) \<Rightarrow> (Inl msg, h1)
           | (Fine, h1) \<Rightarrow>
               (Inr (drop pos (inodes h i)),
                h1\<lparr>handles := (handles h)(fd \<mapsto> (i, max pos (length (inodes h i))))\<rparr>)))"

text \<open>\<open>io.ReadFull\<close> into a buffer of \<open>n\<close> bytes: the bytes read and the error, if any.\<close>

datatype read_error = EOF | UnexpectedEOF | ReadError string

definition os_read_full :: "nat \<Rightarrow> int \<Rightarrow> 'a host_scheme \<Rightarrow> (bytes \<times> read_error option) \<times> 'a host_scheme" where
  "os_read_full fd n h =
     (case handles h fd of
        None \<Rightarrow> (([], Some (ReadError ''file already closed'')), h)
      | Some (i, pos) \<Rightarrow>
          (let (f, h1) = fate_of h;
               rest = take (nat n) (drop pos (inodes h i));
               data = (case f of Fine \<Rightarrow> rest | Fault msg k \<Rightarrow> take k rest);
               err = (case f of
                   Fault msg k \<Rightarrow> Some (ReadError msg)
                 | Fine \<Rightarrow> if length data = nat n then None else if data = [] then Some EOF else Some UnexpectedEOF)
           in ((data, err), h1\<lparr>handles := (handles h)(fd \<mapsto> (i, pos + length data))\<rparr>)))"

text \<open>\<open>io.CopyN\<close> from a file: exactly \<open>n\<close> bytes, or an error.\<close>

definition os_copy_n :: "nat \<Rightarrow> int \<Rightarrow> 'a host_scheme \<Rightarrow> (string + bytes) \<times> 'a host_scheme" where
  "os_copy_n fd n h =
     (case handles h fd of
        None \<Rightarrow> (Inl ''file already closed'', h)
      | Some (i, pos) \<Rightarrow>
          (case fate_of h of
             (Fault msg _, h1) \<Rightarrow> (Inl msg, h1)
           | (Fine, h1) \<Rightarrow>
               (let data = take (nat n) (drop pos (inodes h i));
                    h2 = h1\<lparr>handles := (handles h)(fd \<mapsto> (i, pos + length data))\<rparr>
                in (if length data < nat n then Inl ''EOF'' else Inr data, h2))))"

definition os_write :: "nat \<Rightarrow> bytes \<Rightarrow> 'a host_scheme \<Rightarrow> 'a call" where
  "os_write fd data h =
     (case handles h fd of
        None \<Rightarrow> (Some ''file already closed'', h)
      | Some (i, pos) \<Rightarrow>
          (let (f, h1) = fate_of h;
               (err, done_part) = (case f of Fine \<Rightarrow> (None, data) | Fault msg n \<Rightarrow> (Some msg, take n data))
           in (err, h1\<lparr>inodes := (inodes h)(i := write_at pos done_part (inodes h i)),
                      handles := (handles h)(fd \<mapsto> (i, pos + length done_part))\<rparr>)))"

definition os_sync :: "nat \<Rightarrow> 'a host_scheme \<Rightarrow> 'a call" where
  "os_sync fd h =
     (case handles h fd of
        None \<Rightarrow> (Some ''file already closed'', h)
      | Some (i, pos) \<Rightarrow>
          (case fate_of h of
             (Fault msg _, h1) \<Rightarrow> (Some msg, h1)
           | (Fine, h1) \<Rightarrow> (None, h1\<lparr>synced := (synced h)(i := inodes h i)\<rparr>)))"

definition os_close :: "nat \<Rightarrow> 'a host_scheme \<Rightarrow> 'a call" where
  "os_close fd h =
     (case handles h fd of
        None \<Rightarrow> (Some ''file already closed'', h)
      | Some _ \<Rightarrow>
          (case fate_of h of
             (Fault msg _, h1) \<Rightarrow> (Some msg, h1\<lparr>handles := (handles h)(fd := None)\<rparr>)
           | (Fine, h1) \<Rightarrow> (None, h1\<lparr>handles := (handles h)(fd := None)\<rparr>)))"

definition os_remove :: "string \<Rightarrow> 'a host_scheme \<Rightarrow> 'a call" where
  "os_remove p h =
     (case fate_of h of
        (Fault msg _, h1) \<Rightarrow> (Some msg, h1)
      | (Fine, h1) \<Rightarrow>
          (case names h p of
             None \<Rightarrow> (Some ''no such file or directory'', h1)
           | Some (Dir False) \<Rightarrow> (Some ''directory not empty'', h1)
           | _ \<Rightarrow> (None, h1\<lparr>names := (names h)(p := None)\<rparr>)))"

definition os_rename :: "string \<Rightarrow> string \<Rightarrow> 'a host_scheme \<Rightarrow> 'a call" where
  "os_rename from to h =
     (case fate_of h of
        (Fault msg _, h1) \<Rightarrow> (Some msg, h1)
      | (Fine, h1) \<Rightarrow>
          (case (names h from, names h to) of
             (None, _) \<Rightarrow> (Some ''no such file or directory'', h1)
           | (Some _, Some (Dir _)) \<Rightarrow> (Some ''file exists'', h1)
           | (Some e, _) \<Rightarrow> (None, h1\<lparr>names := ((names h)(from := None))(to \<mapsto> e)\<rparr>)))"

text \<open>
  \<open>os.WriteFile\<close>: create or truncate, then write. A fault with count 0 leaves the file
  as it was (the open failed), one with count \<open>n + 1\<close> leaves the first \<open>n\<close> bytes.
\<close>

definition os_write_file :: "string \<Rightarrow> bytes \<Rightarrow> 'a host_scheme \<Rightarrow> 'a call" where
  "os_write_file p data h =
     (case follow 40 (names h) p of
        None \<Rightarrow> (Some ''too many levels of symbolic links'', snd (fate_of h))
      | Some q \<Rightarrow>
          (case fate_of h of
             (Fault msg 0, h1) \<Rightarrow> (Some msg, h1)
           | (f, h1) \<Rightarrow>
               (let (err, content) =
                      (case f of Fine \<Rightarrow> (None, data) | Fault msg n \<Rightarrow> (Some msg, take (n - 1) data))
                in case names h q of
                     Some (Regular i) \<Rightarrow> (err, h1\<lparr>inodes := (inodes h)(i := content)\<rparr>)
                   | None \<Rightarrow>
                       (err, h1\<lparr>names := (names h)(q \<mapsto> Regular (next_inode h)),
                                inodes := (inodes h)(next_inode h := content),
                                synced := (synced h)(next_inode h := []),
                                next_inode := Suc (next_inode h)\<rparr>)
                   | _ \<Rightarrow> (Some ''is a directory'', h1))))"

text \<open>\<open>src/transfer/disk_space_unix.go\<close>: free blocks times block size, in 64-bit arithmetic.\<close>

definition availableDiskBytes :: "string \<Rightarrow> 'a host_scheme \<Rightarrow> (string + 64 word) \<times> 'a host_scheme" where
  "availableDiskBytes path h =
     (case fate_of h of
        (Fault msg _, h1) \<Rightarrow> (Inl msg, h1)
      | (Fine, h1) \<Rightarrow> (Inr (free_blocks h * block_size h), h1))"

text \<open>\<open>src/transfer/atomic_replace_unix.go\<close>.\<close>

definition replaceFile :: "string \<Rightarrow> string \<Rightarrow> 'a host_scheme \<Rightarrow> 'a call" where
  "replaceFile source destination h = os_rename source destination h"

end
