(* ===== verification/Transfer_State.thy ===== *)
theory Transfer_State
  imports Host
begin

text \<open>
  \<open>src/transfer/manager.go\<close>, the state of a \<open>TransferManager\<close> and the helpers every
  handler uses. The manager extends the host record; what it hands to the DataChannel and
  to the event callback is kept as the lists \<open>sent\<close> (control messages), \<open>packets\<close> (binary messages)
  and \<open>emitted\<close>. A receive state is shared by pointer between the receiver table and the
  goroutine of its receive loop, so it lives in a store \<open>rcv_heap\<close> under an address, and a
  send state in \<open>snd_heap\<close> likewise.
\<close>

section \<open>Constants\<close>

definition maxBufferedAmount :: "64 word" where "maxBufferedAmount = 2 * 1024 * 1024"
definition maxUnacknowledged :: int where "maxUnacknowledged = 8 * 1024 * 1024"
definition defaultDurableAckInterval :: int where "defaultDurableAckInterval = 32 * 1024 * 1024"
definition maxReorderBufferBytes :: int where "maxReorderBufferBytes = 64 * 1024 * 1024"
definition receiveEventQueueSize :: nat where "receiveEventQueueSize = 256"
definition progressAckInterval :: int where "progressAckInterval = 512 * 1024"

text \<open>Durations are nanoseconds.\<close>

definition progressAckPeriod :: int where "progressAckPeriod = 100 * 1000000"

section \<open>Records\<close>

record transfer_options =
  opt_ReceiveDir :: string
  opt_AutoAccept :: bool
  opt_AcceptFile :: "(file_metadata \<Rightarrow> bool) option"
  opt_Overwrite :: bool
  opt_MaxFileSize :: int
  opt_BandwidthLimitBPS :: "64 word"
  opt_DurableAckInterval :: int
  opt_MaxReorderBufferBytes :: int
  opt_ReceiveCompletionTimeout :: int
  opt_OnEvent :: bool \<comment> \<open>whether a callback is set\<close>

record event =
  evt_Type :: string
  evt_TransferID :: string
  evt_Name :: string
  evt_Direction :: string
  evt_Transferred :: int
  evt_Size :: int
  evt_SHA256 :: string
  evt_Path :: string
  evt_Text :: string
  evt_Message :: string
  evt_CheckpointDurationMS :: int

definition zero_event :: event where
  "zero_event = \<lparr>evt_Type = [], evt_TransferID = [], evt_Name = [], evt_Direction = [],
     evt_Transferred = 0, evt_Size = 0, evt_SHA256 = [], evt_Path = [], evt_Text = [],
     evt_Message = [], evt_CheckpointDurationMS = 0\<rparr>"

text \<open>The three channels of a sender hold one element each; \<open>snd_once\<close> is the \<open>sync.Once\<close>.\<close>

record send_state =
  snd_accept :: "int option"
  snd_acks :: bool
  snd_cancel :: "string option"
  snd_acked :: int
  snd_received :: int
  snd_name :: string
  snd_size :: int
  snd_once :: bool

record receive_event =
  rev_header :: "chunk_header option"
  rev_data :: bytes
  rev_end :: "control option"
  rev_cancel :: "string option"

record receive_state =
  rcv_metadata :: file_metadata
  rcv_path :: string
  rcv_partPath :: string
  rcv_metaPath :: string
  rcv_file :: nat
  rcv_events :: "receive_event list"
  rcv_done :: bool

record partial_metadata =
  part_File :: file_metadata
  part_ReceivedBytes :: int

record manager = host +
  options :: transfer_options
  chunkSize :: int
  senders :: "(string, nat) gomap"
  receivers :: "(string, nat) gomap"
  rcv_heap :: "nat \<Rightarrow> receive_state"
  next_rcv :: nat
  mgr_closed :: bool
  sent :: "control list"
  emitted :: "event list"
  snd_heap :: "nat \<Rightarrow> send_state"
  next_snd :: nat
  writable :: bool \<comment> \<open>the channel \<open>writable\<close>, which holds one element\<close>
  packets :: "bytes list"
  entropy :: "bytes option list" \<comment> \<open>outcomes of \<open>rand.Read\<close>, \<open>None\<close> an error\<close>

definition zero_receive_state :: receive_state where
  "zero_receive_state = \<lparr>rcv_metadata = zero_file, rcv_path = [], rcv_partPath = [], rcv_metaPath = [],
     rcv_file = 0, rcv_events = [], rcv_done = False\<rparr>"

definition zero_send_state :: send_state where
  "zero_send_state = \<lparr>snd_accept = None, snd_acks = False, snd_cancel = None, snd_acked = 0,
     snd_received = 0, snd_name = [], snd_size = 0, snd_once = False\<rparr>"

section \<open>Construction\<close>

definition chunk_size_for :: "32 word \<Rightarrow> int" where
  "chunk_size_for maxMessageSize =
     (if maxMessageSize > 4096 then min TargetChunkSize (uint maxMessageSize - 4096)
      else DefaultChunkSize)"

definition default_options :: "transfer_options \<Rightarrow> transfer_options" where
  "default_options o1 =
     (let o2 = (if opt_DurableAckInterval o1 \<le> 0
                then o1\<lparr>opt_DurableAckInterval := defaultDurableAckInterval\<rparr> else o1);
          o3 = (if opt_MaxReorderBufferBytes o2 \<le> 0
                then o2\<lparr>opt_MaxReorderBufferBytes := maxReorderBufferBytes\<rparr> else o2)
      in if opt_ReceiveCompletionTimeout o3 \<le> 0
         then o3\<lparr>opt_ReceiveCompletionTimeout := 30 * 1000000000\<rparr> else o3)"

definition NewTransferManager :: "32 word \<Rightarrow> transfer_options \<Rightarrow> host \<Rightarrow> manager" where
  "NewTransferManager maxMessageSize opts h = host.extend h
     (manager.fields (default_options opts) (chunk_size_for maxMessageSize) [] [] (\<lambda>_. zero_receive_state)
        0 False [] [] (\<lambda>_. zero_send_state) 0 False [] [])"

section \<open>Sending controls and emitting events\<close>

text \<open>\<open>EncodeControl\<close> cannot fail on a \<open>Control\<close>; handing the text to the channel can.\<close>

definition sendControl :: "control \<Rightarrow> manager \<Rightarrow> string option \<times> manager" where
  "sendControl value m =
     (case fate_of m of
        (Fault msg _, m1) \<Rightarrow> (Some msg, m1)
      | (Fine, m1) \<Rightarrow> (None, m1\<lparr>sent := sent m1 @ [value]\<rparr>))"

definition emit :: "event \<Rightarrow> manager \<Rightarrow> manager" where
  "emit e m = (if opt_OnEvent (options m) then m\<lparr>emitted := emitted m @ [e]\<rparr> else m)"

abbreviation new_control :: "string \<Rightarrow> string \<Rightarrow> control" where
  "new_control kind tid \<equiv> zero_control\<lparr>ctl_Version := 1, ctl_Type := kind, ctl_TransferID := tid\<rparr>"

abbreviation cancel_control :: "string \<Rightarrow> string \<Rightarrow> control" where
  "cancel_control tid reason \<equiv> (new_control ''file_cancel'' tid)\<lparr>ctl_Reason := reason\<rparr>"

abbreviation ack_control :: "string \<Rightarrow> string \<Rightarrow> int \<Rightarrow> control" where
  "ack_control kind tid n \<equiv> (new_control kind tid)\<lparr>ctl_ReceivedBytes := n\<rparr>"

section \<open>Ending a receiver\<close>

definition finishReceiver :: "string \<Rightarrow> manager \<Rightarrow> manager" where
  "finishReceiver transferID m =
     (case map_get (receivers m) transferID of
        None \<Rightarrow> m
      | Some a \<Rightarrow>
          (let m1 = m\<lparr>receivers := map_del transferID (receivers m)\<rparr>;
               m2 = m1\<lparr>rcv_heap := (rcv_heap m1)(a := (rcv_heap m1 a)\<lparr>rcv_done := True\<rparr>)\<rparr>
           in snd (os_close (rcv_file (rcv_heap m2 a)) m2)))"

definition receiveFailed :: "string \<Rightarrow> string \<Rightarrow> string \<Rightarrow> manager \<Rightarrow> manager" where
  "receiveFailed transferID name err m =
     (let m1 = snd (sendControl (cancel_control transferID err) m);
          m2 = finishReceiver transferID m1
      in emit (zero_event\<lparr>evt_Type := ''failed'', evt_TransferID := transferID,
                 evt_Direction := ''receive'', evt_Name := name, evt_Message := err\<rparr>) m2)"

definition receiveIntegrityFailed :: "string \<Rightarrow> nat \<Rightarrow> string \<Rightarrow> manager \<Rightarrow> manager" where
  "receiveIntegrityFailed transferID a err m =
     (let m1 = snd (sendControl (cancel_control transferID err) m);
          m2 = finishReceiver transferID m1;
          m3 = snd (os_remove (rcv_partPath (rcv_heap m2 a)) m2);
          m4 = snd (os_remove (rcv_metaPath (rcv_heap m3 a)) m3)
      in emit (zero_event\<lparr>evt_Type := ''failed'', evt_TransferID := transferID,
                 evt_Direction := ''receive'', evt_Name := file_Name (rcv_metadata (rcv_heap m4 a)),
                 evt_Message := err\<rparr>) m4)"

section \<open>Checks on metadata\<close>

definition validSHA256 :: "string \<Rightarrow> bool" where
  "validSHA256 value \<longleftrightarrow> length value = 64 \<and> list_all (\<lambda>c. hex_value c \<noteq> None) value"

definition validFileMetadata :: "file_metadata \<Rightarrow> bool" where
  "validFileMetadata md \<longleftrightarrow>
     file_Name md \<noteq> [] \<and> length (file_Name md) \<le> 255 \<and> 0 \<le> file_Size md \<and> 0 < file_ChunkSize md
     \<and> file_ChunkSize md \<le> 1024 * 1024
     \<and> file_TotalChunks md = TotalChunks (file_Size md) (file_ChunkSize md)
     \<and> (file_SHA256 md = [] \<or> validSHA256 (file_SHA256 md))"

text \<open>\<open>hex.EncodeToString\<close> and \<open>strings.EqualFold\<close> on digests.\<close>

definition hex_text :: "bytes \<Rightarrow> string" where
  "hex_text bs = concat (map (\<lambda>b. [hex_digit (unat b div 16), hex_digit (unat b mod 16)]) bs)"

definition EqualFold :: "string \<Rightarrow> string \<Rightarrow> bool" where
  "EqualFold a b \<longleftrightarrow> fold_name a = fold_name b"

section \<open>The sidecar file\<close>

definition partial_json :: "partial_metadata \<Rightarrow> json" where
  "partial_json p = JObj [(''file'', file_json (part_File p)),
     (''receivedBytes'', JNum (int_text (part_ReceivedBytes p)))]"

definition partial_fields :: "string list" where
  "partial_fields = [''file'', ''receivedBytes'']"

definition set_partial_field :: "partial_metadata setter" where
  "set_partial_field k v p =
     (if k = ''file'' then
        map_option (\<lambda>x. p\<lparr>part_File := x\<rparr>) (decode_struct file_fields set_file_field v (part_File p))
      else if k = ''receivedBytes'' then
        map_option (\<lambda>x. p\<lparr>part_ReceivedBytes := x\<rparr>) (get_int v (part_ReceivedBytes p))
      else None)"

definition zero_partial :: partial_metadata where
  "zero_partial = \<lparr>part_File = zero_file, part_ReceivedBytes = 0\<rparr>"

definition writePartialMetadata :: "string \<Rightarrow> partial_metadata \<Rightarrow> 'a host_scheme \<Rightarrow> 'a call" where
  "writePartialMetadata path md h =
     (let encoded = to_bytes (json_text (partial_json md));
          temporary = path @ ''.new''
      in case os_write_file temporary encoded h of
           (Some err, h1) \<Rightarrow> (Some err, h1)
         | (None, h1) \<Rightarrow> replaceFile temporary path h1)"

text \<open>
  A directory at \<open>partPath\<close> counts as no match: its size is not modelled, and opening it
  for writing fails anyway.
\<close>

definition matchingPartial :: "string \<Rightarrow> string \<Rightarrow> file_metadata \<Rightarrow> 'a host_scheme \<Rightarrow> int \<times> 'a host_scheme" where
  "matchingPartial metaPath partPath offered h =
     (case os_read_file metaPath h of
        (None, h1) \<Rightarrow> (0, h1)
      | (Some encoded, h1) \<Rightarrow>
          (case unmarshal partial_fields set_partial_field (of_bytes encoded) zero_partial of
             None \<Rightarrow> (0, h1)
           | Some p \<Rightarrow>
               if file_Name (part_File p) \<noteq> file_Name offered \<or> file_Size (part_File p) \<noteq> file_Size offered
                  \<or> file_LastModified (part_File p) \<noteq> file_LastModified offered
                  \<or> file_ChunkSize (part_File p) \<noteq> file_ChunkSize offered
                  \<or> (file_SHA256 (part_File p) \<noteq> [] \<and> file_SHA256 offered \<noteq> []
                     \<and> \<not> EqualFold (file_SHA256 (part_File p)) (file_SHA256 offered))
               then (0, h1)
               else
                 (case os_stat partPath h1 of
                    (Some (Regular i), h2) \<Rightarrow>
                      (if int (length (inodes h2 i)) \<noteq> part_ReceivedBytes p \<or> part_ReceivedBytes p < 0
                          \<or> part_ReceivedBytes p > file_Size offered
                          \<or> go_rem (part_ReceivedBytes p) (file_ChunkSize offered) \<noteq> 0
                       then 0 else part_ReceivedBytes p, h2)
                  | (_, h2) \<Rightarrow> (0, h2))))"

text \<open>Near the top of the \<open>int64\<close> range the sum in \<open>TotalChunks\<close> wraps around: metadata that
  announces \<open>2^63 - 1\<close> bytes passes \<open>validFileMetadata\<close> with a negative number of chunks.\<close>

theorem TotalChunks_overflow:
  "validFileMetadata (zero_file\<lparr>file_Name := ''f'', file_Size := 2 ^ 63 - 1, file_ChunkSize := 2,
     file_TotalChunks := - (2 ^ 62)\<rparr>) \<and> TotalChunks (2 ^ 63 - 1) 2 = - (2 ^ 62)"
  by (simp add: validFileMetadata_def zero_file_def TotalChunks_def i64_def go_quot_def)

end
