(* ===== verification/Receive_Start.thy ===== *)
theory Receive_Start
  imports Transfer_State
begin

text \<open>
  \<open>startReceive\<close> of \<open>src/transfer/manager.go\<close>, stage by stage in the order of the code. The
  result says whether a receive goroutine was started, at which address its state is and from
  which offset it resumes. \<open>receiveStartMu\<close> serialises the calls.
\<close>

section \<open>Refusals\<close>

abbreviation refuse :: "string \<Rightarrow> string \<Rightarrow> manager \<Rightarrow> manager" where
  "refuse transferID reason m \<equiv> snd (sendControl (cancel_control transferID reason) m)"

text \<open>The checks before anything is touched: the reason of the refusal.\<close>

definition refusal :: "string \<Rightarrow> file_metadata \<Rightarrow> manager \<Rightarrow> string option" where
  "refusal transferID md m =
     (if transferID = [] \<or> \<not> validFileMetadata md then Some ''invalid file metadata''
      else if opt_MaxFileSize (options m) > 0 \<and> file_Size md > opt_MaxFileSize (options m) then
        Some ''file exceeds receiver limit''
      else if \<not> opt_AutoAccept (options m)
              \<and> (case opt_AcceptFile (options m) of None \<Rightarrow> True | Some f \<Rightarrow> \<not> f md) then
        Some ''receiver rejected the file''
      else if map_get (receivers m) transferID \<noteq> None then Some ''duplicate transfer''
      else None)"

section \<open>The destination\<close>

definition receive_directory :: "manager \<Rightarrow> string" where
  "receive_directory m = (if opt_ReceiveDir (options m) = [] then ''.'' else opt_ReceiveDir (options m))"

definition replace_backslashes :: "string \<Rightarrow> string" where
  "replace_backslashes = map (\<lambda>c. if c = CHR 0x5C then slash else c)"

definition local_name :: "file_metadata \<Rightarrow> string" where
  "local_name md = Base (replace_backslashes (file_Name md))"

definition part_of :: "string \<Rightarrow> string" where "part_of target = target @ ''.quickdrop.part''"
definition meta_of :: "string \<Rightarrow> string" where "meta_of target = target @ ''.quickdrop.json''"

definition destination_busy :: "string \<Rightarrow> manager \<Rightarrow> bool" where
  "destination_busy target m \<longleftrightarrow> list_ex (\<lambda>(_, a). rcv_path (rcv_heap m a) = target) (receivers m)"

text \<open>The first of the names that is a symbolic link.\<close>

fun first_symlink :: "string list \<Rightarrow> manager \<Rightarrow> string option \<times> manager" where
  "first_symlink [] m = (None, m)"
| "first_symlink (p # ps) m =
     (case os_lstat p m of
        (Some (Symlink _), m1) \<Rightarrow> (Some p, m1)
      | (_, m1) \<Rightarrow> first_symlink ps m1)"

section \<open>Free space\<close>

definition remaining_bytes :: "file_metadata \<Rightarrow> int \<Rightarrow> 64 word" where
  "remaining_bytes md resumeOffset = word_of_int (i64 (file_Size md - resumeOffset))"

text \<open>A partial file that will be truncated gives its bytes back, unless the sum would wrap.\<close>

definition reclaimable :: "string \<Rightarrow> int \<Rightarrow> 64 word \<Rightarrow> manager \<Rightarrow> 64 word \<times> manager" where
  "reclaimable partPath resumeOffset available m =
     (if resumeOffset = 0 then
        (case os_stat partPath m of
           (Some (Regular i), m1) \<Rightarrow>
             (let reclaim = word_of_nat (length (inodes m1 i))
              in (if (- 1) - available > reclaim then available + reclaim else available, m1))
         | (_, m1) \<Rightarrow> (available, m1))
      else (available, m))"

definition check_space :: "string \<Rightarrow> string \<Rightarrow> file_metadata \<Rightarrow> int \<Rightarrow> manager \<Rightarrow> string option \<times> manager" where
  "check_space directory partPath md resumeOffset m =
     (case availableDiskBytes directory m of
        (Inl err, m1) \<Rightarrow> (Some (''check free disk space: '' @ err), m1)
      | (Inr free, m1) \<Rightarrow>
          (let remaining = remaining_bytes md resumeOffset;
               (available, m2) = reclaimable partPath resumeOffset free m1
           in (if available < remaining then
                 Some (''insufficient disk space: need '' @ nat_text (unat remaining)
                       @ '' bytes, have '' @ nat_text (unat available))
               else None, m2)))"

section \<open>Opening the partial file and starting the goroutine\<close>

type_synonym started = "manager \<times> (nat \<times> int) option"

definition open_partial :: "string \<Rightarrow> int \<Rightarrow> manager \<Rightarrow> (string + nat) \<times> manager" where
  "open_partial partPath resumeOffset m =
     (case os_open_rw partPath (resumeOffset = 0) m of
        (Inl err, m1) \<Rightarrow> (Inl err, m1)
      | (Inr fd, m1) \<Rightarrow>
          (case os_seek fd resumeOffset m1 of
             (Some err, m2) \<Rightarrow> (Inl err, snd (os_close fd m2))
           | (None, m2) \<Rightarrow> (Inr fd, m2)))"

definition new_receiver :: "file_metadata \<Rightarrow> string \<Rightarrow> nat \<Rightarrow> receive_state" where
  "new_receiver md target fd =
     \<lparr>rcv_metadata = md, rcv_path = target, rcv_partPath = part_of target, rcv_metaPath = meta_of target,
      rcv_file = fd, rcv_events = [], rcv_done = False\<rparr>"

definition register_receiver :: "string \<Rightarrow> receive_state \<Rightarrow> manager \<Rightarrow> manager" where
  "register_receiver transferID st m =
     m\<lparr>receivers := map_put transferID (next_rcv m) (receivers m),
       rcv_heap := (rcv_heap m)(next_rcv m := st), next_rcv := Suc (next_rcv m)\<rparr>"

definition begin_receive :: "string \<Rightarrow> file_metadata \<Rightarrow> string \<Rightarrow> string \<Rightarrow> nat \<Rightarrow> int \<Rightarrow> manager \<Rightarrow> started" where
  "begin_receive transferID md name target fd resumeOffset m =
     (if map_get (receivers m) transferID \<noteq> None then (snd (os_close fd m), None)
      else
        (let a = next_rcv m; m1 = register_receiver transferID (new_receiver md target fd) m
         in case writePartialMetadata (meta_of target) \<lparr>part_File = md, part_ReceivedBytes = resumeOffset\<rparr> m1 of
              (Some err, m2) \<Rightarrow> (receiveFailed transferID name err (finishReceiver transferID m2), None)
            | (None, m2) \<Rightarrow>
                (let m3 = snd (sendControl
                       (if resumeOffset > 0 then ack_control ''resume_state'' transferID resumeOffset
                        else (new_control ''file_accept'' transferID)\<lparr>ctl_Acknowledgements := True\<rparr>) m2)
                 in (emit (zero_event\<lparr>evt_Type := ''accepted'', evt_TransferID := transferID,
                       evt_Direction := ''receive'', evt_Name := name, evt_Transferred := resumeOffset,
                       evt_Size := file_Size md, evt_Path := target\<rparr>) m3, Some (a, resumeOffset)))))"

section \<open>The handler\<close>

definition prepare_receive :: "string \<Rightarrow> file_metadata \<Rightarrow> string \<Rightarrow> string \<Rightarrow> string \<Rightarrow> manager \<Rightarrow> started" where
  "prepare_receive transferID md directory name target m =
     (case first_symlink [part_of target, meta_of target, meta_of target @ ''.new''] m of
        (Some p, m1) \<Rightarrow> (receiveFailed transferID name (''refusing symbolic link at '' @ p) m1, None)
      | (None, m1) \<Rightarrow>
          (let (found, m2) = matchingPartial (meta_of target) (part_of target) md m1;
               resumeOffset = (if file_Resume md then found else 0)
           in case check_space directory (part_of target) md resumeOffset m2 of
                (Some err, m3) \<Rightarrow> (receiveFailed transferID name err m3, None)
              | (None, m3) \<Rightarrow>
                  (case open_partial (part_of target) resumeOffset m3 of
                     (Inl err, m4) \<Rightarrow> (receiveFailed transferID name err m4, None)
                   | (Inr fd, m4) \<Rightarrow> begin_receive transferID md name target fd resumeOffset m4)))"

definition startReceive :: "string \<Rightarrow> file_metadata \<Rightarrow> manager \<Rightarrow> started" where
  "startReceive transferID md m =
     (case refusal transferID md m of
        Some reason \<Rightarrow> (refuse transferID reason m, None)
      | None \<Rightarrow>
          (let directory = receive_directory m; name = local_name md in
           case os_mkdir_all directory m of
             (Some err, m1) \<Rightarrow> (receiveFailed transferID (file_Name md) err m1, None)
           | (None, m1) \<Rightarrow>
               if name = ''.'' \<or> name = [] then
                 (receiveFailed transferID (file_Name md) ''invalid file name'' m1, None)
               else
                 (let target = Join directory name
                  in if destination_busy target m1 then
                       (receiveFailed transferID name
                          ''another transfer is already writing this destination'' m1, None)
                     else if opt_Overwrite (options m1) then
                       prepare_receive transferID md directory name target m1
                     else
                       (case os_lstat target m1 of
                          (Some _, m2) \<Rightarrow>
                            (receiveFailed transferID name ''destination already exists; use --overwrite'' m2, None)
                        | (None, m2) \<Rightarrow> prepare_receive transferID md directory name target m2))))"

end
