(* ===== verification/Receive_Loop.thy ===== *)
theory Receive_Loop
  imports Transfer_State
begin

text \<open>
  \<open>receiveLoop\<close> of \<open>src/transfer/manager.go\<close>: the goroutine that owns one incoming file.
  Its local variables are the record \<open>recv_loop\<close>; its closures \<open>checkpoint\<close> and
  \<open>complete\<close>, the body of its \<open>select\<close> and the inner loop that drains the reorder buffer
  are functions on that record and the manager. \<open>Loop\<close> is another turn of the outer loop,
  \<open>Return\<close> the end of the goroutine. One turn is one step: the mutexes of the manager
  protect single table accesses, and no other goroutine writes the file of a receiver.
\<close>

section \<open>Local variables\<close>

type_synonym chunk = "chunk_header \<times> bytes"

record recv_loop =
  expectedOffset :: int
  expectedIndex :: int
  hashed :: bytes \<comment> \<open>everything written to the SHA-256 state\<close>
  lastDurable :: int
  lastProgressAck :: int
  lastProgressAckAt :: int
  pending :: "(int, chunk) gomap"
  pendingBytes :: int
  end_msg :: "control option"
  end_armed :: bool \<comment> \<open>whether \<open>endDeadline\<close> is a running timer\<close>

datatype loop_result = Loop recv_loop manager | Return manager

section \<open>The closures\<close>

definition checkpoint :: "string \<Rightarrow> nat \<Rightarrow> recv_loop \<Rightarrow> manager \<Rightarrow> string option \<times> recv_loop \<times> manager" where
  "checkpoint transferID a L m =
     (let st = rcv_heap m a;
          (started, m1) = time_now m
      in case os_sync (rcv_file st) m1 of
           (Some err, m2) \<Rightarrow> (Some err, L, m2)
         | (None, m2) \<Rightarrow>
             (let (stopped, m3) = time_now m2;
                  L1 = L\<lparr>lastDurable := expectedOffset L\<rparr>
              in case writePartialMetadata (rcv_metaPath st)
                        \<lparr>part_File = rcv_metadata st, part_ReceivedBytes = lastDurable L1\<rparr> m3 of
                   (Some err, m4) \<Rightarrow> (Some err, L1, m4)
                 | (None, m4) \<Rightarrow>
                     (let m5 = emit (zero_event\<lparr>evt_Type := ''checkpoint'', evt_TransferID := transferID,
                                 evt_Direction := ''receive'', evt_Name := file_Name (rcv_metadata st),
                                 evt_Transferred := lastDurable L1, evt_Size := file_Size (rcv_metadata st),
                                 evt_Path := rcv_path st,
                                 evt_CheckpointDurationMS := go_quot (stopped - started) 1000000\<rparr>) m4;
                          m6 = (if expectedOffset L1 < file_Size (rcv_metadata st)
                                   \<or> \<not> file_CommitAck (rcv_metadata st)
                                then snd (sendControl (ack_control ''file_ack'' transferID (lastDurable L1)) m5)
                                else m5)
                      in (None, L1, m6))))"

text \<open>The result says whether the transfer is over, one way or the other.\<close>

definition commit_file :: "string \<Rightarrow> nat \<Rightarrow> string \<Rightarrow> manager \<Rightarrow> manager" where
  "commit_file transferID a digest m =
     (let st = rcv_heap m a; name = file_Name (rcv_metadata st); sz = file_Size (rcv_metadata st)
      in case os_close (rcv_file st) m of
           (Some err, m1) \<Rightarrow> receiveFailed transferID name err m1
         | (None, m1) \<Rightarrow>
             (let m2 = (if opt_Overwrite (options m1) then snd (os_remove (rcv_path st) m1) else m1)
              in case os_rename (rcv_partPath st) (rcv_path st) m2 of
                   (Some err, m3) \<Rightarrow> receiveFailed transferID name err m3
                 | (None, m3) \<Rightarrow>
                     (let m4 = snd (os_remove (rcv_metaPath st) m3);
                          m5 = snd (sendControl (ack_control ''file_ack'' transferID sz) m4);
                          m6 = finishReceiver transferID m5
                      in emit (zero_event\<lparr>evt_Type := ''completed'', evt_TransferID := transferID,
                                 evt_Direction := ''receive'', evt_Name := name, evt_Transferred := sz,
                                 evt_Size := sz, evt_SHA256 := digest, evt_Path := rcv_path st\<rparr>) m6)))"

definition complete :: "string \<Rightarrow> nat \<Rightarrow> control option \<Rightarrow> recv_loop \<Rightarrow> manager \<Rightarrow> loop_result" where
  "complete transferID a message L m =
     (let st = rcv_heap m a in
      case message of
        None \<Rightarrow> Loop L m
      | Some msg \<Rightarrow>
          if expectedOffset L \<noteq> file_Size (rcv_metadata st) \<or> pending L \<noteq> [] then Loop L m
          else
            (let digest = hex_text (sha256 m (hashed L));
                 expectedHash = (if file_SHA256 (rcv_metadata st) = [] then ctl_SHA256 msg
                                 else file_SHA256 (rcv_metadata st))
             in if expectedHash \<noteq> [] \<and> \<not> EqualFold expectedHash digest then
                  Return (receiveIntegrityFailed transferID a ''SHA-256 verification failed'' m)
                else if lastDurable L \<noteq> expectedOffset L then
                  (case checkpoint transferID a L m of
                     (Some err, L1, m1) \<Rightarrow>
                       Return (receiveFailed transferID (file_Name (rcv_metadata st)) err m1)
                   | (None, L1, m1) \<Rightarrow> Return (commit_file transferID a digest m1))
                else Return (commit_file transferID a digest m)))"

section \<open>Draining the reorder buffer\<close>

definition due_for_progress :: "receive_state \<Rightarrow> recv_loop \<Rightarrow> int \<Rightarrow> bool" where
  "due_for_progress st L now \<longleftrightarrow>
     expectedOffset L < file_Size (rcv_metadata st)
     \<and> (i64 (expectedOffset L - lastProgressAck L) \<ge> progressAckInterval
        \<or> now - lastProgressAckAt L \<ge> progressAckPeriod)"

definition progress_kind :: "receive_state \<Rightarrow> string" where
  "progress_kind st = (if file_ProgressAck (rcv_metadata st) then ''file_progress'' else ''file_ack'')"

text \<open>After a chunk was written: report, and acknowledge when enough bytes or time have passed.\<close>

definition report_progress :: "string \<Rightarrow> nat \<Rightarrow> recv_loop \<Rightarrow> manager \<Rightarrow> recv_loop \<times> manager" where
  "report_progress transferID a L m =
     (let st = rcv_heap m a;
          m1 = emit (zero_event\<lparr>evt_Type := ''progress'', evt_TransferID := transferID,
                 evt_Direction := ''receive'', evt_Name := file_Name (rcv_metadata st),
                 evt_Transferred := expectedOffset L, evt_Size := file_Size (rcv_metadata st),
                 evt_Path := rcv_path st\<rparr>) m;
          (now, m2) = time_now m1
      in if due_for_progress st L now then
           (L\<lparr>lastProgressAck := expectedOffset L, lastProgressAckAt := now\<rparr>,
            snd (sendControl (ack_control (progress_kind st) transferID (expectedOffset L)) m2))
         else (L, m2))"

definition write_chunk :: "string \<Rightarrow> nat \<Rightarrow> chunk \<Rightarrow> recv_loop \<Rightarrow> manager \<Rightarrow> loop_result" where
  "write_chunk transferID a next_chunk L m =
     (let st = rcv_heap m a; name = file_Name (rcv_metadata st); data = snd next_chunk;
          L1 = L\<lparr>pending := map_del (expectedIndex L) (pending L),
                 pendingBytes := i64 (pendingBytes L - int (length data))\<rparr>
      in if hdr_Offset (fst next_chunk) \<noteq> expectedOffset L1 then
           Return (receiveFailed transferID name ''file chunk continuity mismatch'' m)
         else
           (case os_write (rcv_file st) data m of
              (Some err, m1) \<Rightarrow> Return (receiveFailed transferID name err m1)
            | (None, m1) \<Rightarrow>
                (let L2 = L1\<lparr>hashed := hashed L1 @ data,
                             expectedOffset := i64 (expectedOffset L1 + int (length data)),
                             expectedIndex := i64 (expectedIndex L1 + 1)\<rparr>
                 in if i64 (expectedOffset L2 - lastDurable L2) \<ge> opt_DurableAckInterval (options m1)
                       \<or> expectedOffset L2 = file_Size (rcv_metadata st) then
                      (case checkpoint transferID a L2 m1 of
                         (Some err, L3, m2) \<Rightarrow> Return (receiveFailed transferID name err m2)
                       | (None, L3, m2) \<Rightarrow> (case report_progress transferID a L3 m2 of (L4, m3) \<Rightarrow> Loop L4 m3))
                    else (case report_progress transferID a L2 m1 of (L3, m2) \<Rightarrow> Loop L3 m2))))"

lemma pending_checkpoint: "checkpoint tid a L m = (e, L', m') \<Longrightarrow> pending L' = pending L"
  by (auto simp: checkpoint_def Let_def split: prod.splits option.splits if_splits)

lemma pending_report_progress: "report_progress tid a L m = (L', m') \<Longrightarrow> pending L' = pending L"
  by (auto simp: report_progress_def Let_def split: prod.splits if_splits)

lemma pending_write_chunk:
  "write_chunk tid a c L m = Loop L' m' \<Longrightarrow> pending L' = map_del (expectedIndex L) (pending L)"
  by (auto simp: write_chunk_def Let_def dest!: pending_checkpoint pending_report_progress
      split: prod.splits option.splits if_splits)

text \<open>Every round takes one chunk out of the finite buffer, so the inner loop ends.\<close>

function drain :: "string \<Rightarrow> nat \<Rightarrow> recv_loop \<Rightarrow> manager \<Rightarrow> loop_result" where
  "drain transferID a L m =
     (case map_get (pending L) (expectedIndex L) of
        None \<Rightarrow> Loop L m
      | Some next_chunk \<Rightarrow>
          (case write_chunk transferID a next_chunk L m of
             Return m1 \<Rightarrow> Return m1
           | Loop L1 m1 \<Rightarrow> drain transferID a L1 m1))"
  by pat_completeness auto
termination
  by (relation "measure (\<lambda>(t, a, L, m). length (pending L))")
     (auto simp: pending_write_chunk length_map_del)

declare drain.simps [simp del]

section \<open>One turn of the outer loop\<close>

definition chunk_offset :: "file_metadata \<Rightarrow> int \<Rightarrow> int" where
  "chunk_offset md index = i64 (index * file_ChunkSize md)"

definition chunk_length :: "file_metadata \<Rightarrow> int \<Rightarrow> int" where
  "chunk_length md index = min (file_ChunkSize md) (i64 (file_Size md - chunk_offset md index))"

definition handle_chunk :: "string \<Rightarrow> nat \<Rightarrow> chunk_header \<Rightarrow> bytes \<Rightarrow> recv_loop \<Rightarrow> manager \<Rightarrow> loop_result" where
  "handle_chunk transferID a header data L m =
     (let st = rcv_heap m a; md = rcv_metadata st; name = file_Name md;
          off = chunk_offset md (hdr_Index header); len = chunk_length md (hdr_Index header)
      in if hdr_TransferID header \<noteq> transferID \<or> hdr_Index header < 0
            \<or> hdr_Index header \<ge> file_TotalChunks md \<or> hdr_Length header \<noteq> int (length data) then
           Return (receiveFailed transferID name ''file chunk index or length mismatch'' m)
         else if hdr_Offset header \<noteq> off \<or> hdr_Length header \<noteq> len \<or> off < 0
                 \<or> i64 (off + len) > file_Size md then
           Return (receiveFailed transferID name ''file chunk offset or length mismatch'' m)
         else if hdr_Index header < expectedIndex L then Loop L m
         else if map_get (pending L) (hdr_Index header) \<noteq> None then
           Return (receiveFailed transferID name ''duplicate pending file chunk'' m)
         else
           (let L1 = L\<lparr>pending := map_put (hdr_Index header) (header, data) (pending L),
                       pendingBytes := i64 (pendingBytes L + int (length data))\<rparr>
            in if pendingBytes L1 > opt_MaxReorderBufferBytes (options m) then
                 Return (receiveFailed transferID name ''file chunk reorder buffer exceeded'' m)
               else
                 (case drain transferID a L1 m of
                    Return m1 \<Rightarrow> Return m1
                  | Loop L2 m1 \<Rightarrow> complete transferID a (end_msg L2) L2 m1)))"

definition handle_event :: "string \<Rightarrow> nat \<Rightarrow> receive_event \<Rightarrow> recv_loop \<Rightarrow> manager \<Rightarrow> loop_result" where
  "handle_event transferID a ev L m =
     (case rev_cancel ev of
        Some reason \<Rightarrow>
          Return (emit (zero_event\<lparr>evt_Type := ''cancelled'', evt_TransferID := transferID,
                    evt_Direction := ''receive'', evt_Name := file_Name (rcv_metadata (rcv_heap m a)),
                    evt_Message := reason\<rparr>) (finishReceiver transferID m))
      | None \<Rightarrow>
          (case rev_end ev of
             Some msg \<Rightarrow>
               (let L1 = L\<lparr>end_msg := Some msg\<rparr>
                in case complete transferID a (end_msg L1) L1 m of
                     Return m1 \<Rightarrow> Return m1
                   | Loop L2 m1 \<Rightarrow> Loop (L2\<lparr>end_armed := True\<rparr>) m1)
           | None \<Rightarrow>
               (case rev_header ev of
                  None \<Rightarrow> Loop L m
                | Some header \<Rightarrow> handle_chunk transferID a header (rev_data ev) L m)))"

text \<open>The cases of the \<open>select\<close>; which of the ready ones runs is not determined.\<close>

datatype recv_case = EventReady | DeadlineReady | DoneReady | ClosedReady

definition case_ready :: "recv_case \<Rightarrow> nat \<Rightarrow> recv_loop \<Rightarrow> manager \<Rightarrow> bool" where
  "case_ready k a L m =
     (case k of
        EventReady \<Rightarrow> rcv_events (rcv_heap m a) \<noteq> []
      | DeadlineReady \<Rightarrow> end_armed L
      | DoneReady \<Rightarrow> rcv_done (rcv_heap m a)
      | ClosedReady \<Rightarrow> mgr_closed m)"

definition loop_turn :: "string \<Rightarrow> nat \<Rightarrow> recv_case \<Rightarrow> recv_loop \<Rightarrow> manager \<Rightarrow> loop_result" where
  "loop_turn transferID a k L m =
     (let st = rcv_heap m a in
      case k of
        EventReady \<Rightarrow>
          handle_event transferID a (hd (rcv_events st)) L
            (m\<lparr>rcv_heap := (rcv_heap m)(a := st\<lparr>rcv_events := tl (rcv_events st)\<rparr>)\<rparr>)
      | DeadlineReady \<Rightarrow>
          Return (receiveFailed transferID (file_Name (rcv_metadata st))
            ''timed out waiting for missing file chunks'' m)
      | DoneReady \<Rightarrow> Return m
      | ClosedReady \<Rightarrow>
          Return (emit (zero_event\<lparr>evt_Type := ''failed'', evt_TransferID := transferID,
                    evt_Direction := ''receive'', evt_Name := file_Name (rcv_metadata st),
                    evt_Message := ''DataChannel closed during transfer''\<rparr>) (finishReceiver transferID m)))"

text \<open>The code before the loop: on a resume the bytes already on disk are hashed again.\<close>

definition start_vars :: "file_metadata \<Rightarrow> int \<Rightarrow> bytes \<Rightarrow> int \<Rightarrow> recv_loop" where
  "start_vars md offset prefix now =
     \<lparr>expectedOffset = offset, expectedIndex = go_quot offset (file_ChunkSize md), hashed = prefix,
      lastDurable = offset, lastProgressAck = offset, lastProgressAckAt = now,
      pending = [], pendingBytes = 0, end_msg = None, end_armed = False\<rparr>"

definition loop_start :: "string \<Rightarrow> nat \<Rightarrow> int \<Rightarrow> manager \<Rightarrow> loop_result" where
  "loop_start transferID a offset m =
     (let st = rcv_heap m a; name = file_Name (rcv_metadata st)
      in if offset > 0 then
           (case os_seek (rcv_file st) 0 m of
              (Some err, m1) \<Rightarrow> Return (receiveFailed transferID name err m1)
            | (None, m1) \<Rightarrow>
                (case os_copy_n (rcv_file st) offset m1 of
                   (Inl err, m2) \<Rightarrow> Return (receiveFailed transferID name err m2)
                 | (Inr prefix, m2) \<Rightarrow>
                     (case os_seek (rcv_file st) offset m2 of
                        (Some err, m3) \<Rightarrow> Return (receiveFailed transferID name err m3)
                      | (None, m3) \<Rightarrow>
                          (case time_now m3 of
                             (now, m4) \<Rightarrow> Loop (start_vars (rcv_metadata st) offset prefix now) m4))))
         else (case time_now m of (now, m1) \<Rightarrow> Loop (start_vars (rcv_metadata st) offset [] now) m1))"

end
