(* ===== verification/Receive_Frames.thy ===== *)
theory Receive_Frames
  imports Receive_Loop
begin

text \<open>
  What the helpers of the receive loop change and what they leave alone: the manager's
  tables and the files for a control or an event, and everything but the sidecar for
  \<open>writePartialMetadata\<close>. \<open>owns\<close> says that an open partial file is reached by its own
  name only; \<open>keeps\<close> that a step respects the owner of an inode.
\<close>

section \<open>What the helpers leave alone\<close>

definition same_files :: "manager \<Rightarrow> manager \<Rightarrow> bool" where
  "same_files m m' \<longleftrightarrow> names m' = names m \<and> inodes m' = inodes m \<and> synced m' = synced m
     \<and> handles m' = handles m \<and> next_inode m' = next_inode m \<and> next_handle m' = next_handle m"

definition same_tables :: "manager \<Rightarrow> manager \<Rightarrow> bool" where
  "same_tables m m' \<longleftrightarrow> receivers m' = receivers m \<and> rcv_heap m' = rcv_heap m \<and> options m' = options m
     \<and> senders m' = senders m \<and> snd_heap m' = snd_heap m \<and> chunkSize m' = chunkSize m \<and> mgr_closed m' = mgr_closed m
     \<and> sha256 m' = sha256 m"

lemma same_files_refl [simp]: "same_files m m" and same_tables_refl [simp]: "same_tables m m"
  by (simp_all add: same_files_def same_tables_def)

lemma same_files_trans [trans]: "same_files m m1 \<Longrightarrow> same_files m1 m2 \<Longrightarrow> same_files m m2"
  by (simp add: same_files_def)

lemma same_tables_trans [trans]: "same_tables m m1 \<Longrightarrow> same_tables m1 m2 \<Longrightarrow> same_tables m m2"
  by (simp add: same_tables_def)

lemma fate_of_cases:
  obtains f fs where "fate_of h = (f, h\<lparr>faults := fs\<rparr>)" "faults h = [] \<Longrightarrow> f = Fine \<and> fs = []"
proof (cases "faults h")
  case Nil
  then have "h\<lparr>faults := []\<rparr> = h" by (cases h) simp
  then have "fate_of h = (Fine, h\<lparr>faults := []\<rparr>)" using Nil by (simp add: fate_of_def)
  then show thesis by (rule that) simp
next
  case (Cons f fs)
  then have "fate_of h = (f, h\<lparr>faults := fs\<rparr>)" by (simp add: fate_of_def)
  then show thesis by (rule that) (simp add: Cons)
qed

lemma fate_of_fine: "faults h = [] \<Longrightarrow> fate_of h = (Fine, h)"
  by (simp add: fate_of_def)

lemma time_now_cases:
  obtains t ts where "time_now h = (t, h\<lparr>clock := ts\<rparr>)"
proof (cases "clock h")
  case Nil
  then have "h\<lparr>clock := []\<rparr> = h" by (cases h) simp
  then have "time_now h = (0, h\<lparr>clock := []\<rparr>)" using Nil by (simp add: time_now_def)
  then show thesis by (rule that)
next
  case (Cons t ts)
  then have "time_now h = (t, h\<lparr>clock := ts\<rparr>)" by (simp add: time_now_def)
  then show thesis by (rule that)
qed

lemma sendControl_frame [frame_simps]:
  "same_files m (snd (sendControl c m))" "same_tables m (snd (sendControl c m))"
  "emitted (snd (sendControl c m)) = emitted m"
  by (cases rule: fate_of_cases [of m];
      simp add: sendControl_def same_files_def same_tables_def split: fate.split)+

lemma sendControl_sent:
  "sent (snd (sendControl c m)) = sent m \<or> sent (snd (sendControl c m)) = sent m @ [c]"
  by (cases rule: fate_of_cases [of m]; simp add: sendControl_def split: fate.split)

lemma sendControl_fine: "faults m = [] \<Longrightarrow> sendControl c m = (None, m\<lparr>sent := sent m @ [c]\<rparr>)"
  by (simp add: sendControl_def fate_of_fine)

lemma emit_frame [frame_simps]:
  "same_files m (emit e m)" "same_tables m (emit e m)" "sent (emit e m) = sent m"
  "faults (emit e m) = faults m"
  by (simp_all add: emit_def same_files_def same_tables_def)

lemma time_now_frame [frame_simps]:
  "same_files m (snd (time_now m))" "same_tables m (snd (time_now m))"
  "sent (snd (time_now m)) = sent m" "faults (snd (time_now m)) = faults m"
  "emitted (snd (time_now m)) = emitted m"
  by (cases rule: time_now_cases [of m]; simp add: same_files_def same_tables_def)+


section \<open>Ownership of the partial file\<close>

definition paths_ok :: "receive_state \<Rightarrow> bool" where
  "paths_ok st \<longleftrightarrow> rcv_partPath st = rcv_path st @ ''.quickdrop.part''
     \<and> rcv_metaPath st = rcv_path st @ ''.quickdrop.json''"

abbreviation tmp_path :: "receive_state \<Rightarrow> string" where
  "tmp_path st \<equiv> rcv_metaPath st @ ''.new''"

lemma paths_distinct:
  assumes "paths_ok st"
  shows "rcv_partPath st \<noteq> rcv_path st" "rcv_metaPath st \<noteq> rcv_path st" "tmp_path st \<noteq> rcv_path st"
    "rcv_partPath st \<noteq> rcv_metaPath st" "rcv_partPath st \<noteq> tmp_path st" "rcv_metaPath st \<noteq> tmp_path st"
  using assms by (simp_all add: paths_ok_def)

text \<open>
  The inode \<open>ino\<close> is reached by the name of the partial file only, and the temporary
  sidecar name is not a symbolic link (\<open>startReceive\<close> refused one).
\<close>

definition owns :: "receive_state \<Rightarrow> nat \<Rightarrow> manager \<Rightarrow> bool" where
  "owns st ino m \<longleftrightarrow> names m (rcv_partPath st) = Some (Regular ino)
     \<and> (\<forall>p. names m p = Some (Regular ino) \<longrightarrow> p = rcv_partPath st)
     \<and> ino < next_inode m \<and> (\<forall>q. names m (tmp_path st) \<noteq> Some (Symlink q))"

definition keeps :: "receive_state \<Rightarrow> nat \<Rightarrow> manager \<Rightarrow> manager \<Rightarrow> bool" where
  "keeps st ino m m' \<longleftrightarrow> inodes m' ino = inodes m ino \<and> handles m' = handles m
     \<and> names m' (rcv_path st) = names m (rcv_path st) \<and> same_tables m m'
     \<and> (owns st ino m \<longrightarrow> owns st ino m')"

lemma keeps_refl [simp]: "keeps st ino m m"
  by (simp add: keeps_def)

lemma keeps_trans [trans]: "keeps st ino m m1 \<Longrightarrow> keeps st ino m1 m2 \<Longrightarrow> keeps st ino m m2"
  by (auto simp: keeps_def intro: same_tables_trans)

lemma same_files_keeps: "same_files m m' \<Longrightarrow> same_tables m m' \<Longrightarrow> keeps st ino m m'"
  by (simp add: keeps_def same_files_def owns_def)

lemma follow_plain: "(\<And>q. ns p \<noteq> Some (Symlink q)) \<Longrightarrow> follow (Suc n) ns p = Some p"
  by (auto split: option.split entry.split)

lemma follow_40: "(\<And>q. ns p \<noteq> Some (Symlink q)) \<Longrightarrow> follow 40 ns p = Some p"
  using follow_plain [of ns p 39] by (simp add: numeral_eq_Suc)

lemma os_rename_cases:
  obtains (failed) msg fs where "os_rename p q h = (Some msg, h\<lparr>faults := fs\<rparr>)"
  | (moved) e fs where "names h p = Some e" "\<And>d. names h q \<noteq> Some (Dir d)"
      "os_rename p q h = (None, h\<lparr>faults := fs, names := ((names h)(p := None))(q \<mapsto> e)\<rparr>)"
proof -
  obtain f fs where fate: "fate_of h = (f, h\<lparr>faults := fs\<rparr>)" by (rule fate_of_cases)
  show thesis
  proof (cases f)
    case (Fault msg n)
    with fate show thesis by (intro failed) (simp add: os_rename_def)
  next
    case Fine
    consider "names h p = None" | (dir) e d where "names h p = Some e" "names h q = Some (Dir d)"
      | (ok) e where "names h p = Some e" "\<And>d. names h q \<noteq> Some (Dir d)" by blast
    then show thesis
    proof cases
      case 1
      with fate Fine show thesis by (intro failed) (simp add: os_rename_def)
    next
      case dir
      with fate Fine show thesis by (intro failed) (simp add: os_rename_def)
    next
      case ok
      with fate Fine show thesis
        by (intro moved) (auto simp: os_rename_def split: option.split entry.split)
    qed
  qed
qed

lemma os_write_file_cases:
  assumes "\<And>q. names h p \<noteq> Some (Symlink q)"
  obtains (failed) msg fs where "os_write_file p data h = (Some msg, h\<lparr>faults := fs\<rparr>)"
  | (rewritten) err content i fs where "names h p = Some (Regular i)" "err = None \<Longrightarrow> content = data"
      "os_write_file p data h = (err, h\<lparr>faults := fs, inodes := (inodes h)(i := content)\<rparr>)"
  | (created) err content fs where "names h p = None" "err = None \<Longrightarrow> content = data"
      "os_write_file p data h = (err, h\<lparr>faults := fs, names := (names h)(p \<mapsto> Regular (next_inode h)),
          inodes := (inodes h)(next_inode h := content), synced := (synced h)(next_inode h := []),
          next_inode := Suc (next_inode h)\<rparr>)"
proof -
  obtain f fs where fate: "fate_of h = (f, h\<lparr>faults := fs\<rparr>)" by (rule fate_of_cases)
  have link: "follow 40 (names h) p = Some p"
    using assms by (rule follow_40)
  consider (noopen) msg where "f = Fault msg 0"
    | (go) err content where "(err = None \<longrightarrow> content = data)"
        "os_write_file p data h = (case names h p of
             Some (Regular i) \<Rightarrow> (err, h\<lparr>faults := fs, inodes := (inodes h)(i := content)\<rparr>)
           | None \<Rightarrow> (err, h\<lparr>faults := fs, names := (names h)(p \<mapsto> Regular (next_inode h)),
                inodes := (inodes h)(next_inode h := content), synced := (synced h)(next_inode h := []),
                next_inode := Suc (next_inode h)\<rparr>)
           | _ \<Rightarrow> (Some ''is a directory'', h\<lparr>faults := fs\<rparr>))"
  proof (cases f)
    case Fine
    then show thesis using fate link by (intro go [of None data]) (simp_all add: os_write_file_def)
  next
    case (Fault msg n)
    show thesis
    proof (cases n)
      case 0
      with Fault noopen show thesis by blast
    next
      case (Suc k)
      with Fault show thesis using fate link
        by (intro go [of "Some msg" "take k data"]) (simp_all add: os_write_file_def)
    qed
  qed
  then show thesis
  proof cases
    case noopen
    with fate link show thesis by (intro failed) (simp add: os_write_file_def)
  next
    case go
    show thesis
    proof (cases "names h p")
      case None
      with go show thesis by (intro created) auto
    next
      case (Some e)
      with go assms failed rewritten show thesis by (cases e) auto
    qed
  qed
qed

lemma os_write_file_keeps:
  assumes "owns st ino m" "paths_ok st" "os_write_file (tmp_path st) data m = (err, m')"
  shows "keeps st ino m m' \<and> synced m' ino = synced m ino \<and> sent m' = sent m \<and> emitted m' = emitted m
    \<and> (err = None \<longrightarrow> (\<exists>j. names m' (tmp_path st) = Some (Regular j) \<and> inodes m' j = data))"
proof -
  note dist = paths_distinct [OF assms(2)]
  have plain: "\<And>q. names m (tmp_path st) \<noteq> Some (Symlink q)"
    using assms(1) by (simp add: owns_def)
  show ?thesis
  proof (cases rule: os_write_file_cases [where h = m and p = "tmp_path st" and data = data, OF plain])
    case (1 msg fs)
    with assms(3) have "err = Some msg" "m' = m\<lparr>faults := fs\<rparr>" by simp_all
    then show ?thesis by (simp add: keeps_def same_tables_def owns_def)
  next
    case (2 err' content i fs)
    have "i \<noteq> ino" using 2(1) assms(1) dist(5) by (auto simp: owns_def)
    moreover have "err = err'" "m' = m\<lparr>faults := fs, inodes := (inodes m)(i := content)\<rparr>"
      using 2(3) assms(3) by simp_all
    ultimately show ?thesis using 2(1,2) by (simp add: keeps_def same_tables_def owns_def)
  next
    case (3 err' content fs)
    have "ino < next_inode m" using assms(1) by (simp add: owns_def)
    moreover have "err = err'" "m' = m\<lparr>faults := fs, names := (names m)(tmp_path st \<mapsto> Regular (next_inode m)),
          inodes := (inodes m)(next_inode m := content), synced := (synced m)(next_inode m := []),
          next_inode := Suc (next_inode m)\<rparr>"
      using 3(3) assms(3) by simp_all
    ultimately show ?thesis using 3(2) dist
      by (simp add: keeps_def same_tables_def owns_def)
  qed
qed

lemma sidecar_rename_keeps:
  assumes "owns st ino m" "paths_ok st" "os_rename (tmp_path st) (rcv_metaPath st) m = (err, m')"
  shows "keeps st ino m m' \<and> synced m' ino = synced m ino \<and> sent m' = sent m \<and> emitted m' = emitted m
    \<and> inodes m' = inodes m \<and> (err = None \<longrightarrow> names m' (rcv_metaPath st) = names m (tmp_path st))"
proof (cases rule: os_rename_cases [where h = m and p = "tmp_path st" and q = "rcv_metaPath st"])
  case (failed msg fs)
  with assms(3) have "err = Some msg" "m' = m\<lparr>faults := fs\<rparr>" by simp_all
  then show ?thesis by (simp add: keeps_def same_tables_def owns_def)
next
  case (moved e fs)
  note dist = paths_distinct [OF assms(2)]
  have e: "e \<noteq> Regular ino" using moved(1) assms(1) dist(5) by (auto simp: owns_def)
  moreover have "err = None" "m' = m\<lparr>faults := fs,
      names := ((names m)(tmp_path st := None))(rcv_metaPath st \<mapsto> e)\<rparr>"
    using moved(3) assms(3) by simp_all
  ultimately show ?thesis using moved(1) dist
    by (simp add: keeps_def same_tables_def owns_def)
qed

lemma writePartialMetadata_keeps:
  assumes own: "owns st ino m" "paths_ok st" and res: "writePartialMetadata (rcv_metaPath st) md m = (err, m')"
  shows "keeps st ino m m' \<and> synced m' ino = synced m ino \<and> sent m' = sent m \<and> emitted m' = emitted m
    \<and> (err = None \<longrightarrow> (\<exists>j. names m' (rcv_metaPath st) = Some (Regular j)
          \<and> inodes m' j = to_bytes (json_text (partial_json md))))"
proof -
  let ?data = "to_bytes (json_text (partial_json md))"
  obtain e1 m1 where w: "os_write_file (tmp_path st) ?data m = (e1, m1)" by fastforce
  note W = os_write_file_keeps [OF own w]
  show ?thesis
  proof (cases e1)
    case (Some e)
    with res w have "m' = m1" "err = Some e" by (simp_all add: writePartialMetadata_def Let_def)
    with W show ?thesis by simp
  next
    case None
    with res w have ren: "os_rename (tmp_path st) (rcv_metaPath st) m1 = (err, m')"
      by (simp add: writePartialMetadata_def Let_def replaceFile_def)
    have "owns st ino m1" using W own(1) by (simp add: keeps_def)
    note R = sidecar_rename_keeps [OF this own(2) ren]
    show ?thesis using W R None by (auto intro: keeps_trans)
  qed
qed

end
