(* ===== verification/Receive_Invariant.thy ===== *)
theory Receive_Invariant
  imports Receive_Frames
begin

text \<open>
  The invariant of \<open>receiveLoop\<close> and its proof for every closure and branch of the loop:
  what the open partial file holds, what is durable, what is buffered, and which controls
  and events may have gone out. Every lemma holds for every list of outcomes of the system
  calls.
\<close>

section \<open>Geometry of an accepted file\<close>

definition geometry :: "file_metadata \<Rightarrow> bool" where
  "geometry md \<longleftrightarrow> 0 \<le> file_Size md \<and> 0 < file_ChunkSize md \<and> file_ChunkSize md \<le> 1048576
     \<and> file_Size md + file_ChunkSize md < 2 ^ 63
     \<and> file_TotalChunks md = TotalChunks (file_Size md) (file_ChunkSize md)"

lemma geometry_valid:
  "validFileMetadata md \<Longrightarrow> file_Size md + file_ChunkSize md < 2 ^ 63 \<Longrightarrow> geometry md"
  by (simp add: validFileMetadata_def geometry_def)

text \<open>Where chunk \<open>i\<close> starts and how long it is, without the machine arithmetic.\<close>

definition boundary :: "file_metadata \<Rightarrow> int \<Rightarrow> int" where
  "boundary md i = min (file_Size md) (i * file_ChunkSize md)"

lemma boundary_0 [simp]: "geometry md \<Longrightarrow> boundary md 0 = 0"
  by (simp add: boundary_def geometry_def)

lemma boundary_nonneg: "geometry md \<Longrightarrow> 0 \<le> i \<Longrightarrow> 0 \<le> boundary md i"
  by (simp add: boundary_def geometry_def)

lemma boundary_le: "boundary md i \<le> file_Size md"
  by (simp add: boundary_def)

lemma total_iff: "geometry md \<Longrightarrow> 0 \<le> i \<Longrightarrow> i < file_TotalChunks md \<longleftrightarrow> i * file_ChunkSize md < file_Size md"
  using TotalChunks_iff [of "file_Size md" "file_ChunkSize md" i]
  by (simp add: geometry_def in_i64_def)

lemma boundary_total: "geometry md \<Longrightarrow> 0 \<le> i \<Longrightarrow> boundary md i = file_Size md \<longleftrightarrow> file_TotalChunks md \<le> i"
  using total_iff [of md i] by (auto simp: boundary_def min_def)

lemma boundary_start: "geometry md \<Longrightarrow> 0 \<le> i \<Longrightarrow> i < file_TotalChunks md \<Longrightarrow>
    boundary md i = i * file_ChunkSize md"
  using total_iff [of md i] by (simp add: boundary_def)

lemma chunk_offset_eq:
  assumes "geometry md" "0 \<le> i" "i < file_TotalChunks md"
  shows "chunk_offset md i = boundary md i"
proof -
  have "0 \<le> i * file_ChunkSize md" "i * file_ChunkSize md < file_Size md"
    using assms total_iff [of md i] by (auto simp: geometry_def)
  with assms(1) have "in_i64 (i * file_ChunkSize md)"
    by (auto simp: geometry_def in_i64_def)
  with assms show ?thesis by (simp add: chunk_offset_def boundary_start)
qed

lemma chunk_length_eq:
  assumes "geometry md" "0 \<le> i" "i < file_TotalChunks md"
  shows "chunk_length md i = boundary md (i + 1) - boundary md i"
proof -
  have b: "boundary md i = i * file_ChunkSize md" "boundary md i < file_Size md"
    using assms boundary_start total_iff [of md i] by auto
  have "0 \<le> boundary md i" using assms by (simp add: boundary_nonneg)
  with assms(1) b have "in_i64 (file_Size md - boundary md i)"
    by (auto simp: geometry_def in_i64_def)
  with assms b have "chunk_length md i = min (file_ChunkSize md) (file_Size md - boundary md i)"
    by (simp add: chunk_length_def chunk_offset_eq)
  then show ?thesis using b(1) by (simp add: boundary_def min_def algebra_simps)
qed

lemma boundary_step:
  assumes "geometry md" "0 \<le> i" "i < file_TotalChunks md"
  shows "boundary md i < boundary md (i + 1)" "boundary md (i + 1) - boundary md i \<le> file_ChunkSize md"
  using assms total_iff [of md i] by (auto simp: boundary_def geometry_def min_def algebra_simps)

section \<open>The invariant of the loop\<close>

text \<open>
  The partial file, read through its open handle, holds exactly the bytes fed to the hash;
  they end at a chunk boundary; the first \<open>lastDurable\<close> of them are on stable storage; and
  every buffered chunk is one the file still misses, at its place, with its length. The
  handle may have been closed by another goroutine: then every file operation fails.
\<close>

definition file_inv :: "nat \<Rightarrow> nat \<Rightarrow> recv_loop \<Rightarrow> manager \<Rightarrow> bool" where
  "file_inv a ino L m \<longleftrightarrow>
     (let st = rcv_heap m a; md = rcv_metadata st in
      geometry md \<and> paths_ok st \<and> owns st ino m
      \<and> (handles m (rcv_file st) = Some (ino, length (hashed L)) \<or> handles m (rcv_file st) = None)
      \<and> inodes m ino = hashed L
      \<and> int (length (hashed L)) = expectedOffset L
      \<and> 0 \<le> expectedIndex L \<and> expectedIndex L \<le> file_TotalChunks md
      \<and> expectedOffset L = boundary md (expectedIndex L)
      \<and> 0 \<le> lastDurable L \<and> lastDurable L \<le> expectedOffset L
      \<and> take (nat (lastDurable L)) (synced m ino) = take (nat (lastDurable L)) (hashed L)
      \<and> lastDurable L \<le> int (length (synced m ino)))"

definition buffer_inv :: "nat \<Rightarrow> recv_loop \<Rightarrow> manager \<Rightarrow> bool" where
  "buffer_inv a L m \<longleftrightarrow>
     (let md = rcv_metadata (rcv_heap m a) in
      map_ok (pending L) \<and> pendingBytes L = held snd (pending L)
      \<and> pendingBytes L \<le> opt_MaxReorderBufferBytes (options m)
      \<and> opt_MaxReorderBufferBytes (options m) < 2 ^ 62
      \<and> (\<forall>i h d. map_get (pending L) i = Some (h, d) \<longrightarrow>
           expectedIndex L \<le> i \<and> i < file_TotalChunks md \<and> hdr_Offset h = boundary md i
           \<and> int (length d) = boundary md (i + 1) - boundary md i))"

text \<open>A control the loop may send while the transfer is still running.\<close>

definition running_control :: "file_metadata \<Rightarrow> recv_loop \<Rightarrow> control \<Rightarrow> bool" where
  "running_control md L c \<longleftrightarrow> (ctl_Type c = ''file_ack'' \<or> ctl_Type c = ''file_progress'')
     \<and> 0 \<le> ctl_ReceivedBytes c \<and> ctl_ReceivedBytes c \<le> expectedOffset L
     \<and> (file_CommitAck md \<longrightarrow> ctl_ReceivedBytes c < file_Size md)
     \<and> (file_ProgressAck md \<longrightarrow> ctl_Type c = ''file_ack'' \<longrightarrow> ctl_ReceivedBytes c \<le> lastDurable L)"

definition ran :: "file_metadata \<Rightarrow> recv_loop \<Rightarrow> manager \<Rightarrow> manager \<Rightarrow> bool" where
  "ran md L' m m' \<longleftrightarrow> (\<exists>cs es. sent m' = sent m @ cs \<and> (\<forall>c\<in>set cs. running_control md L' c)
     \<and> emitted m' = emitted m @ es \<and> (\<forall>e\<in>set es. evt_Type e = ''checkpoint'' \<or> evt_Type e = ''progress''))"

definition grew :: "recv_loop \<Rightarrow> recv_loop \<Rightarrow> bool" where
  "grew L L' \<longleftrightarrow> lastDurable L \<le> lastDurable L' \<and> expectedOffset L \<le> expectedOffset L'
     \<and> expectedIndex L \<le> expectedIndex L' \<and> end_msg L' = end_msg L"

lemma grew_refl [simp]: "grew L L"
  by (simp add: grew_def)

lemma grew_trans [trans]: "grew L L1 \<Longrightarrow> grew L1 L2 \<Longrightarrow> grew L L2"
  by (simp add: grew_def)

lemma ran_refl [simp]: "ran md L m m"
  by (simp add: ran_def)

lemma running_control_mono: "running_control md L c \<Longrightarrow> grew L L' \<Longrightarrow> running_control md L' c"
  by (auto simp: running_control_def grew_def)

lemma ran_trans:
  assumes "ran md L1 m m1" "grew L1 L2" "ran md L2 m1 m2"
  shows "ran md L2 m m2"
proof -
  obtain cs es where 1: "sent m1 = sent m @ cs" "\<forall>c\<in>set cs. running_control md L2 c"
      "emitted m1 = emitted m @ es" "\<forall>e\<in>set es. evt_Type e = ''checkpoint'' \<or> evt_Type e = ''progress''"
    using assms(1,2) running_control_mono unfolding ran_def by blast
  obtain cs' es' where 2: "sent m2 = sent m1 @ cs'" "\<forall>c\<in>set cs'. running_control md L2 c"
      "emitted m2 = emitted m1 @ es'" "\<forall>e\<in>set es'. evt_Type e = ''checkpoint'' \<or> evt_Type e = ''progress''"
    using assms(3) unfolding ran_def by blast
  show ?thesis unfolding ran_def
    by (rule exI [of _ "cs @ cs'"], rule exI [of _ "es @ es'"]) (use 1 2 in auto)
qed

lemma ran_sendControl: "running_control md L c \<Longrightarrow> ran md L m (snd (sendControl c m))"
  using sendControl_sent [of c m] by (auto simp: ran_def sendControl_frame)

lemma ran_emit: "evt_Type e = ''checkpoint'' \<or> evt_Type e = ''progress'' \<Longrightarrow> ran md L m (emit e m)"
  by (simp add: ran_def emit_def)

lemma ran_same: "sent m' = sent m \<Longrightarrow> emitted m' = emitted m \<Longrightarrow> ran md L m m'"
  by (simp add: ran_def)

section \<open>Checkpoints and progress\<close>

lemma checkpoint_ok:
  assumes inv: "file_inv a ino L m" and cp: "checkpoint tid a L m = (None, L', m')"
  defines "md \<equiv> rcv_metadata (rcv_heap m a)"
  shows "file_inv a ino L' m' \<and> L' = L\<lparr>lastDurable := expectedOffset L\<rparr> \<and> ran md L' m m'
    \<and> keeps (rcv_heap m a) ino m m'
    \<and> (\<exists>j. names m' (rcv_metaPath (rcv_heap m a)) = Some (Regular j) \<and> inodes m' j =
         to_bytes (json_text (partial_json \<lparr>part_File = md, part_ReceivedBytes = expectedOffset L\<rparr>)))"
proof -
  define st where "st = rcv_heap m a"
  define L1 where "L1 = L\<lparr>lastDurable := expectedOffset L\<rparr>"
  from inv have I: "geometry md" "paths_ok st" "owns st ino m"
      "handles m (rcv_file st) = Some (ino, length (hashed L)) \<or> handles m (rcv_file st) = None"
      "inodes m ino = hashed L" "int (length (hashed L)) = expectedOffset L"
    by (auto simp: file_inv_def st_def md_def Let_def)
  obtain t1 ts1 where now1: "time_now m = (t1, m\<lparr>clock := ts1\<rparr>)" by (rule time_now_cases)
  define m1 where "m1 = m\<lparr>clock := ts1\<rparr>"
  obtain f fs where fate: "fate_of m1 = (f, m1\<lparr>faults := fs\<rparr>)" by (rule fate_of_cases)
  have fd: "handles m (rcv_file st) = Some (ino, length (hashed L))"
  proof (rule ccontr)
    assume "handles m (rcv_file st) \<noteq> Some (ino, length (hashed L))"
    with I(4) have "handles m1 (rcv_file st) = None" by (simp add: m1_def)
    with cp now1 show False
      by (simp add: checkpoint_def Let_def os_sync_def m1_def [symmetric] st_def [symmetric])
  qed
  from cp now1 fate fd have f: "f = Fine"
    by (auto simp: checkpoint_def Let_def os_sync_def m1_def st_def split: fate.splits)
  define m2 where "m2 = m1\<lparr>faults := fs, synced := (synced m)(ino := hashed L)\<rparr>"
  have sync: "os_sync (rcv_file st) m1 = (None, m2)"
    using fate f fd I(5) by (simp add: os_sync_def m1_def m2_def)
  obtain t2 ts2 where now2: "time_now m2 = (t2, m2\<lparr>clock := ts2\<rparr>)" by (rule time_now_cases)
  define m3 where "m3 = m2\<lparr>clock := ts2\<rparr>"
  obtain e m4 where wp: "writePartialMetadata (rcv_metaPath st)
      \<lparr>part_File = md, part_ReceivedBytes = lastDurable L1\<rparr> m3 = (e, m4)" by fastforce
  have k3: "keeps st ino m m3" "synced m3 ino = hashed L" "sent m3 = sent m" "emitted m3 = emitted m"
    by (simp_all add: keeps_def owns_def same_tables_def m1_def m2_def m3_def)
  then have "owns st ino m3" using I(3) by (simp add: keeps_def)
  note W = writePartialMetadata_keeps [OF this I(2) wp]
  from cp now1 sync now2 wp have e: "e = None"
    by (auto simp: checkpoint_def Let_def m1_def [symmetric] m3_def [symmetric] st_def [symmetric]
        md_def L1_def split: option.splits)
  define ev where "ev = zero_event\<lparr>evt_Type := ''checkpoint'', evt_TransferID := tid,
      evt_Direction := ''receive'', evt_Name := file_Name md, evt_Transferred := lastDurable L1,
      evt_Size := file_Size md, evt_Path := rcv_path st, evt_CheckpointDurationMS := go_quot (t2 - t1) 1000000\<rparr>"
  define ack where "ack = ack_control ''file_ack'' tid (lastDurable L1)"
  define guard where "guard \<longleftrightarrow> expectedOffset L1 < file_Size md \<or> \<not> file_CommitAck md"
  have res: "L' = L1" "m' = (if guard then snd (sendControl ack (emit ev m4)) else emit ev m4)"
    using cp now1 sync now2 wp e
    by (auto simp: checkpoint_def Let_def m1_def [symmetric] m3_def [symmetric] st_def [symmetric]
        md_def L1_def ev_def ack_def guard_def split: if_splits)
  have same: "same_files m4 m'" "same_tables m4 m'"
    using res(2) by (auto intro: same_files_trans [OF emit_frame(1) sendControl_frame(1)]
        same_tables_trans [OF emit_frame(2) sendControl_frame(2)] simp: emit_frame)
  have kp: "keeps st ino m m'"
    using k3(1) W same by (blast intro: keeps_trans same_files_keeps)
  have "0 \<le> expectedOffset L" using I(6) by linarith
  then have "guard \<Longrightarrow> running_control md L1 ack"
    using inv by (auto simp: running_control_def ack_def guard_def L1_def zero_control_def)
  then have "ran md L1 (emit ev m4) m'"
    using res(2) by (auto intro: ran_sendControl)
  moreover have "ran md L1 m m4" using k3(3,4) W by (intro ran_same) simp_all
  moreover have "ran md L1 m4 (emit ev m4)" by (rule ran_emit) (simp add: ev_def)
  ultimately have ran: "ran md L1 m m'" by (blast intro: ran_trans grew_refl)
  have "synced m' ino = hashed L" "inodes m' ino = hashed L" "handles m' = handles m" "owns st ino m'"
      "rcv_heap m' = rcv_heap m"
    using same W k3 kp I by (auto simp: same_files_def keeps_def same_tables_def)
  with inv have "file_inv a ino L1 m'"
    by (simp add: file_inv_def L1_def Let_def st_def)
  moreover have "\<exists>j. names m' (rcv_metaPath st) = Some (Regular j) \<and> inodes m' j =
      to_bytes (json_text (partial_json \<lparr>part_File = md, part_ReceivedBytes = expectedOffset L\<rparr>))"
    using W e same(1) by (simp add: same_files_def L1_def)
  ultimately show ?thesis using res ran kp by (simp add: L1_def st_def)
qed

lemma checkpoint_failed:
  assumes inv: "file_inv a ino L m" and cp: "checkpoint tid a L m = (Some err, L', m')"
  shows "keeps (rcv_heap m a) ino m m' \<and> sent m' = sent m \<and> emitted m' = emitted m"
proof -
  define st where "st = rcv_heap m a"
  from inv have I: "paths_ok st" "owns st ino m"
      "handles m (rcv_file st) = Some (ino, length (hashed L)) \<or> handles m (rcv_file st) = None"
    by (auto simp: file_inv_def st_def Let_def)
  obtain t1 ts1 where now1: "time_now m = (t1, m\<lparr>clock := ts1\<rparr>)" by (rule time_now_cases)
  define m1 where "m1 = m\<lparr>clock := ts1\<rparr>"
  have k1: "keeps st ino m m1" "owns st ino m1" "sent m1 = sent m" "emitted m1 = emitted m"
      "handles m1 (rcv_file st) = Some (ino, length (hashed L)) \<or> handles m1 (rcv_file st) = None"
    using I by (simp_all add: keeps_def owns_def same_tables_def m1_def)
  obtain f fs where fate: "fate_of m1 = (f, m1\<lparr>faults := fs\<rparr>)" by (rule fate_of_cases)
  consider (closed) "handles m1 (rcv_file st) = None"
    | (fault) msg n where "f = Fault msg n" "handles m1 (rcv_file st) \<noteq> None"
    | (fine) "f = Fine" "handles m1 (rcv_file st) = Some (ino, length (hashed L))"
    using k1(5) by (cases f) auto
  then show ?thesis
  proof cases
    case closed
    then have "m' = m1"
      using cp now1 by (simp add: checkpoint_def Let_def os_sync_def m1_def [symmetric] st_def [symmetric])
    with k1 show ?thesis by (simp add: st_def)
  next
    case fault
    have "m' = m1\<lparr>faults := fs\<rparr>"
      using cp now1 fate fault k1(5)
      by (auto simp: checkpoint_def Let_def os_sync_def m1_def [symmetric] st_def [symmetric])
    with k1 show ?thesis by (simp add: keeps_def owns_def same_tables_def st_def)
  next
    case fine
    define m2 where "m2 = m1\<lparr>faults := fs, synced := (synced m1)(ino := inodes m1 ino)\<rparr>"
    have sync: "os_sync (rcv_file st) m1 = (None, m2)"
      using fate fine by (simp add: os_sync_def m2_def)
    obtain t2 ts2 where now2: "time_now m2 = (t2, m2\<lparr>clock := ts2\<rparr>)" by (rule time_now_cases)
    define m3 where "m3 = m2\<lparr>clock := ts2\<rparr>"
    obtain e m4 where wp: "writePartialMetadata (rcv_metaPath st)
        \<lparr>part_File = rcv_metadata st, part_ReceivedBytes = expectedOffset L\<rparr> m3 = (e, m4)" by fastforce
    have k3: "keeps st ino m m3" "owns st ino m3" "sent m3 = sent m" "emitted m3 = emitted m"
      using k1 by (simp_all add: keeps_def owns_def same_tables_def m2_def m3_def)
    note W = writePartialMetadata_keeps [OF k3(2) I(1) wp]
    have "m' = m4"
      using cp now1 sync now2 wp
      by (auto simp: checkpoint_def Let_def m1_def [symmetric] m3_def [symmetric] st_def [symmetric]
          split: option.splits)
    with W k3 show ?thesis by (auto simp: st_def intro: keeps_trans)
  qed
qed

lemma file_inv_cong:
  assumes "file_inv a ino L m" "keeps (rcv_heap m a) ino m m'" "synced m' ino = synced m ino"
  shows "file_inv a ino L m'"
  using assms by (simp add: file_inv_def keeps_def same_tables_def Let_def)

lemma report_progress_ok:
  assumes inv: "file_inv a ino L m" and res: "report_progress tid a L m = (L', m')"
  shows "file_inv a ino L' m' \<and> ran (rcv_metadata (rcv_heap m a)) L' m m' \<and> keeps (rcv_heap m a) ino m m'
    \<and> (\<exists>x y. L' = L\<lparr>lastProgressAck := x, lastProgressAckAt := y\<rparr>)"
proof -
  define st where "st = rcv_heap m a"
  define ev where "ev = zero_event\<lparr>evt_Type := ''progress'', evt_TransferID := tid,
      evt_Direction := ''receive'', evt_Name := file_Name (rcv_metadata st),
      evt_Transferred := expectedOffset L, evt_Size := file_Size (rcv_metadata st), evt_Path := rcv_path st\<rparr>"
  define ack where "ack = ack_control (progress_kind st) tid (expectedOffset L)"
  obtain t ts where now: "time_now (emit ev m) = (t, (emit ev m)\<lparr>clock := ts\<rparr>)" by (rule time_now_cases)
  define m2 where "m2 = (emit ev m)\<lparr>clock := ts\<rparr>"
  define due where "due \<longleftrightarrow> due_for_progress st L t"
  have res': "L' = (if due then L\<lparr>lastProgressAck := expectedOffset L, lastProgressAckAt := t\<rparr> else L)"
      "m' = (if due then snd (sendControl ack m2) else m2)"
    using res now by (auto simp: report_progress_def Let_def st_def [symmetric] ev_def [symmetric]
        m2_def [symmetric] due_def ack_def)
  have "0 \<le> expectedOffset L" using inv by (auto simp: file_inv_def Let_def)
  then have "due \<Longrightarrow> running_control (rcv_metadata st) L' ack"
    by (auto simp: res' running_control_def ack_def due_def due_for_progress_def zero_control_def
        progress_kind_def)
  then have "ran (rcv_metadata st) L' m2 m'"
    by (auto simp: res'(2) intro: ran_sendControl)
  moreover have "ran (rcv_metadata st) L' m (emit ev m)" by (rule ran_emit) (simp add: ev_def)
  moreover have "ran (rcv_metadata st) L' (emit ev m) m2" by (rule ran_same) (simp_all add: m2_def)
  ultimately have R: "ran (rcv_metadata st) L' m m'" by (blast intro: ran_trans grew_refl)
  have same: "same_files m m2" "same_tables m m2"
    by (simp_all add: m2_def emit_def same_files_def same_tables_def)
  then have same': "same_files m m'" "same_tables m m'"
    using sendControl_frame(1,2) [of m2 ack] by (auto simp: res'(2) intro: same_files_trans same_tables_trans)
  then have k: "keeps st ino m m'" by (rule same_files_keeps)
  have "synced m' ino = synced m ino" using same'(1) by (simp add: same_files_def)
  then have "file_inv a ino L m'" using file_inv_cong inv k by (simp add: st_def)
  then have "file_inv a ino L' m'" by (simp add: file_inv_def res'(1) Let_def)
  moreover have "\<exists>x y. L' = L\<lparr>lastProgressAck := x, lastProgressAckAt := y\<rparr>"
    by (cases due; cases L; simp add: res'(1))
  ultimately show ?thesis using R k by (simp add: st_def)
qed

section \<open>Writing the next chunk\<close>

lemma write_at_end: "write_at (length xs) ys xs = xs @ ys"
  by (simp add: write_at_def)

lemma os_write_append:
  assumes "handles m fd = Some (i, length (inodes m i))"
  obtains (failed) msg n fs where "os_write fd data m = (Some msg, m\<lparr>faults := fs,
        inodes := (inodes m)(i := inodes m i @ take n data),
        handles := (handles m)(fd \<mapsto> (i, length (inodes m i) + length (take n data)))\<rparr>)"
  | (ok) fs where "os_write fd data m = (None, m\<lparr>faults := fs, inodes := (inodes m)(i := inodes m i @ data),
        handles := (handles m)(fd \<mapsto> (i, length (inodes m i) + length data))\<rparr>)"
proof -
  obtain f fs where fate: "fate_of m = (f, m\<lparr>faults := fs\<rparr>)" by (rule fate_of_cases)
  show thesis
  proof (cases f)
    case Fine
    with fate assms show thesis by (intro ok) (simp add: os_write_def write_at_end)
  next
    case (Fault msg n)
    with fate assms show thesis by (intro failed) (simp add: os_write_def write_at_end)
  qed
qed

section \<open>How a transfer ends\<close>

text \<open>Nothing that went out promises the file: no \<open>completed\<close> event, no final acknowledgement.\<close>

definition quiet :: "file_metadata \<Rightarrow> manager \<Rightarrow> manager \<Rightarrow> bool" where
  "quiet md m m' \<longleftrightarrow> (\<exists>cs es. sent m' = sent m @ cs
     \<and> (\<forall>c\<in>set cs. ctl_Type c = ''file_cancel'' \<or> (file_CommitAck md \<longrightarrow> ctl_ReceivedBytes c < file_Size md))
     \<and> emitted m' = emitted m @ es \<and> (\<forall>e\<in>set es. evt_Type e \<noteq> ''completed''))"

definition gave_up :: "receive_state \<Rightarrow> manager \<Rightarrow> manager \<Rightarrow> bool" where
  "gave_up st m m' \<longleftrightarrow> quiet (rcv_metadata st) m m'
     \<and> (names m' (rcv_path st) = names m (rcv_path st)
        \<or> opt_Overwrite (options m) \<and> names m' (rcv_path st) = None)"

lemma quietI:
  "sent m' = sent m @ cs \<Longrightarrow> emitted m' = emitted m @ es \<Longrightarrow>
   (\<And>c. c \<in> set cs \<Longrightarrow> ctl_Type c = ''file_cancel'' \<or> (file_CommitAck md \<longrightarrow> ctl_ReceivedBytes c < file_Size md)) \<Longrightarrow>
   (\<And>e. e \<in> set es \<Longrightarrow> evt_Type e \<noteq> ''completed'') \<Longrightarrow> quiet md m m'"
  unfolding quiet_def by blast

lemma quiet_trans [trans]:
  assumes "quiet md m m1" "quiet md m1 m2" shows "quiet md m m2"
proof -
  obtain cs es where "sent m1 = sent m @ cs" "emitted m1 = emitted m @ es"
      "\<forall>c\<in>set cs. ctl_Type c = ''file_cancel'' \<or> (file_CommitAck md \<longrightarrow> ctl_ReceivedBytes c < file_Size md)"
      "\<forall>e\<in>set es. evt_Type e \<noteq> ''completed''"
    using assms(1) unfolding quiet_def by blast
  moreover obtain cs' es' where "sent m2 = sent m1 @ cs'" "emitted m2 = emitted m1 @ es'"
      "\<forall>c\<in>set cs'. ctl_Type c = ''file_cancel'' \<or> (file_CommitAck md \<longrightarrow> ctl_ReceivedBytes c < file_Size md)"
      "\<forall>e\<in>set es'. evt_Type e \<noteq> ''completed''"
    using assms(2) unfolding quiet_def by blast
  ultimately show ?thesis by (intro quietI [where cs = "cs @ cs'" and es = "es @ es'"]) auto
qed

lemma quiet_same: "sent m' = sent m \<Longrightarrow> emitted m' = emitted m \<Longrightarrow> quiet md m m'"
  by (rule quietI [where cs = "[]" and es = "[]"]) auto

lemma ran_quiet: "ran md L m m' \<Longrightarrow> quiet md m m'"
proof -
  assume "ran md L m m'"
  then obtain cs es where R: "sent m' = sent m @ cs" "\<forall>c\<in>set cs. running_control md L c"
      "emitted m' = emitted m @ es" "\<forall>e\<in>set es. evt_Type e = ''checkpoint'' \<or> evt_Type e = ''progress''"
    unfolding ran_def by blast
  show ?thesis by (rule quietI [OF R(1) R(3)]) (use R in \<open>auto simp: running_control_def\<close>)
qed

lemma quiet_emit: "evt_Type e \<noteq> ''completed'' \<Longrightarrow> quiet md m (emit e m)"
  by (cases "opt_OnEvent (options m)"; rule quietI [where cs = "[]" and es = "if opt_OnEvent (options m) then [e] else []"])
     (auto simp: emit_def)

lemma quiet_cancel: "quiet md m (snd (sendControl (cancel_control tid reason) m))"
  using sendControl_sent [of "cancel_control tid reason" m] sendControl_frame(3) [of "cancel_control tid reason" m]
  by (auto intro: quietI [where cs = "[]" and es = "[]"] quietI [where cs = "[cancel_control tid reason]" and es = "[]"])

lemma gave_up_after:
  "quiet (rcv_metadata st) m m1 \<Longrightarrow> names m1 (rcv_path st) = names m (rcv_path st) \<Longrightarrow> options m1 = options m \<Longrightarrow>
   gave_up st m1 m' \<Longrightarrow> gave_up st m m'"
  by (auto simp: gave_up_def intro: quiet_trans)

lemma os_close_frame [frame_simps]:
  "names (snd (os_close fd m)) = names m" "inodes (snd (os_close fd m)) = inodes m"
  "synced (snd (os_close fd m)) = synced m" "same_tables m (snd (os_close fd m))"
  "sent (snd (os_close fd m)) = sent m" "emitted (snd (os_close fd m)) = emitted m"
  for m :: manager
  by (cases rule: fate_of_cases [of m];
      simp add: os_close_def same_tables_def split: option.split fate.split)+

lemma os_remove_frame [frame_simps]:
  "inodes (snd (os_remove p m)) = inodes m" "synced (snd (os_remove p m)) = synced m"
  "same_tables m (snd (os_remove p m))" "handles (snd (os_remove p m)) = handles m"
  "sent (snd (os_remove p m)) = sent m" "emitted (snd (os_remove p m)) = emitted m"
  "q \<noteq> p \<Longrightarrow> names (snd (os_remove p m)) q = names m q"
  "names (snd (os_remove p m)) p = names m p \<or> names (snd (os_remove p m)) p = None"
  for m :: manager
  by (cases rule: fate_of_cases [of m];
      simp add: os_remove_def same_tables_def split: option.split fate.split entry.split bool.split)+

lemma finishReceiver_frame [frame_simps]:
  "names (finishReceiver tid m) = names m" "inodes (finishReceiver tid m) = inodes m"
  "synced (finishReceiver tid m) = synced m" "options (finishReceiver tid m) = options m"
  "sha256 (finishReceiver tid m) = sha256 m"
  "sent (finishReceiver tid m) = sent m" "emitted (finishReceiver tid m) = emitted m"
  "rcv_metadata (rcv_heap (finishReceiver tid m) a) = rcv_metadata (rcv_heap m a)"
  "rcv_path (rcv_heap (finishReceiver tid m) a) = rcv_path (rcv_heap m a)"
  "rcv_partPath (rcv_heap (finishReceiver tid m) a) = rcv_partPath (rcv_heap m a)"
  "rcv_metaPath (rcv_heap (finishReceiver tid m) a) = rcv_metaPath (rcv_heap m a)"
  using os_close_frame unfolding finishReceiver_def Let_def same_tables_def
  by (simp_all split: option.split)

lemma finishReceiver_gone: "map_get (receivers (finishReceiver tid m)) tid = None"
  using os_close_frame(4) unfolding finishReceiver_def Let_def same_tables_def
  by (simp split: option.split)

lemma receiveFailed_gave_up: "gave_up st m (receiveFailed tid name err m)"
proof -
  define m1 where "m1 = snd (sendControl (cancel_control tid err) m)"
  define m2 where "m2 = finishReceiver tid m1"
  have "quiet (rcv_metadata st) m m1" unfolding m1_def by (rule quiet_cancel)
  also have "quiet (rcv_metadata st) m1 m2" by (rule quiet_same) (simp_all add: m2_def frame_simps)
  also have "quiet (rcv_metadata st) m2 (receiveFailed tid name err m)"
    unfolding receiveFailed_def Let_def m1_def [symmetric] m2_def [symmetric] by (rule quiet_emit) simp
  finally have "quiet (rcv_metadata st) m (receiveFailed tid name err m)" .
  moreover have "names (receiveFailed tid name err m) = names m"
    using sendControl_frame(1) [of m "cancel_control tid err"] emit_frame(1)
    unfolding receiveFailed_def Let_def m1_def [symmetric] m2_def [symmetric]
    by (simp add: same_files_def m2_def m1_def frame_simps)
  ultimately show ?thesis by (simp add: gave_up_def)
qed

lemma receiveIntegrityFailed_gave_up:
  assumes "st = rcv_heap m a" "paths_ok st"
  shows "gave_up st m (receiveIntegrityFailed tid a err m)"
proof -
  define m1 where "m1 = snd (sendControl (cancel_control tid err) m)"
  define m2 where "m2 = finishReceiver tid m1"
  define m3 where "m3 = snd (os_remove (rcv_partPath (rcv_heap m2 a)) m2)"
  define m4 where "m4 = snd (os_remove (rcv_metaPath (rcv_heap m3 a)) m3)"
  let ?m' = "receiveIntegrityFailed tid a err m"
  have h: "rcv_heap m1 = rcv_heap m" "names m1 = names m"
    using sendControl_frame(1,2) [of m "cancel_control tid err"]
    by (simp_all add: m1_def same_files_def same_tables_def)
  have h3: "rcv_heap m3 = rcv_heap m2"
    using os_remove_frame(3) by (simp add: m3_def same_tables_def)
  have p: "rcv_partPath (rcv_heap m2 a) = rcv_partPath st" "rcv_metaPath (rcv_heap m3 a) = rcv_metaPath st"
    by (simp_all add: h3 m2_def frame_simps h assms(1))
  have "quiet (rcv_metadata st) m m1" unfolding m1_def by (rule quiet_cancel)
  also have "quiet (rcv_metadata st) m1 m4"
    by (rule quiet_same) (simp_all add: m2_def m3_def m4_def frame_simps)
  also have "quiet (rcv_metadata st) m4 ?m'"
    unfolding receiveIntegrityFailed_def Let_def m1_def [symmetric] m2_def [symmetric]
      m3_def [symmetric] m4_def [symmetric] by (rule quiet_emit) simp
  finally have q: "quiet (rcv_metadata st) m ?m'" .
  have "names ?m' (rcv_path st) = names m4 (rcv_path st)"
    using emit_frame(1) [of m4]
    unfolding receiveIntegrityFailed_def Let_def m1_def [symmetric] m2_def [symmetric]
      m3_def [symmetric] m4_def [symmetric] by (simp add: same_files_def)
  also have "\<dots> = names m (rcv_path st)"
    using paths_distinct [OF assms(2)] unfolding m4_def p(2) unfolding m3_def p(1)
    by (simp add: os_remove_frame m2_def frame_simps h)
  finally show ?thesis using q by (simp add: gave_up_def)
qed

text \<open>
  A committed file: the destination is the inode of the partial file, the partial name is
  gone, and the content has the promised size and digest and is on stable storage.
\<close>

definition committed :: "receive_state \<Rightarrow> nat \<Rightarrow> control \<Rightarrow> manager \<Rightarrow> manager \<Rightarrow> bool" where
  "committed st ino msg m m' \<longleftrightarrow>
     (let md = rcv_metadata st;
          expectedHash = (if file_SHA256 md = [] then ctl_SHA256 msg else file_SHA256 md)
      in names m' (rcv_path st) = Some (Regular ino) \<and> names m' (rcv_partPath st) = None
         \<and> int (length (inodes m' ino)) = file_Size md
         \<and> (expectedHash = [] \<or> EqualFold expectedHash (hex_text (sha256 m (inodes m' ino))))
         \<and> take (length (inodes m' ino)) (synced m' ino) = inodes m' ino)"

lemma commit_file_cases:
  assumes st: "st = rcv_heap m a" and own: "owns st ino m" "paths_ok st"
  shows "gave_up st m (commit_file tid a digest m)
    \<or> (names (commit_file tid a digest m) (rcv_path st) = Some (Regular ino)
       \<and> names (commit_file tid a digest m) (rcv_partPath st) = None
       \<and> inodes (commit_file tid a digest m) = inodes m \<and> synced (commit_file tid a digest m) = synced m)"
proof -
  note dist = paths_distinct [OF own(2)]
  let ?m' = "commit_file tid a digest m"
  let ?name = "file_Name (rcv_metadata st)"
  obtain e1 m1 where c: "os_close (rcv_file st) m = (e1, m1)" by fastforce
  have k1: "names m1 = names m" "inodes m1 = inodes m" "synced m1 = synced m" "options m1 = options m"
      "sent m1 = sent m" "emitted m1 = emitted m"
    using os_close_frame [where m = m and fd = "rcv_file st"] c by (simp_all add: same_tables_def)
  show ?thesis
  proof (cases e1)
    case (Some err)
    have "?m' = receiveFailed tid ?name err m1"
      using c Some by (simp add: commit_file_def Let_def st)
    moreover have "quiet (rcv_metadata st) m m1" using k1 by (intro quiet_same) simp_all
    ultimately show ?thesis using k1 receiveFailed_gave_up [of st m1 tid ?name err]
      by (auto intro: gave_up_after)
  next
    case None
    define m2 where "m2 = (if opt_Overwrite (options m1) then snd (os_remove (rcv_path st) m1) else m1)"
    obtain e3 m3 where r: "os_rename (rcv_partPath st) (rcv_path st) m2 = (e3, m3)" by fastforce
    have k2: "inodes m2 = inodes m" "synced m2 = synced m" "options m2 = options m" "sent m2 = sent m"
        "emitted m2 = emitted m" "\<And>q. q \<noteq> rcv_path st \<Longrightarrow> names m2 q = names m q"
        "names m2 (rcv_path st) = names m (rcv_path st)
          \<or> opt_Overwrite (options m) \<and> names m2 (rcv_path st) = None"
      using os_remove_frame [where m = m1 and p = "rcv_path st"] k1
      by (auto simp: m2_def same_tables_def)
    have q2: "quiet (rcv_metadata st) m m2" using k2 by (intro quiet_same) simp_all
    have part: "names m2 (rcv_partPath st) = Some (Regular ino)"
      using own(1) dist k2(6) by (simp add: owns_def)
    show ?thesis
    proof (cases rule: os_rename_cases [where h = m2 and p = "rcv_partPath st" and q = "rcv_path st"])
      case (failed msg fs)
      with r have e3: "e3 = Some msg" and m3: "m3 = m2\<lparr>faults := fs\<rparr>" by simp_all
      have "?m' = receiveFailed tid ?name msg m3"
        using c None r e3
        by (simp add: commit_file_def Let_def st [symmetric] m2_def [symmetric] del: if_split)
      moreover have "quiet (rcv_metadata st) m m3"
        using k2 m3 by (intro quiet_same) simp_all
      moreover have "names m3 (rcv_path st) = names m (rcv_path st)
          \<or> opt_Overwrite (options m) \<and> names m3 (rcv_path st) = None" using k2(7) m3 by simp
      moreover have "quiet (rcv_metadata st) m3 (receiveFailed tid ?name msg m3)"
          "names (receiveFailed tid ?name msg m3) (rcv_path st) = names m3 (rcv_path st)
           \<or> names (receiveFailed tid ?name msg m3) (rcv_path st) = None \<and> opt_Overwrite (options m)"
        using receiveFailed_gave_up [of st m3 tid ?name msg] k2(3) m3 by (auto simp: gave_up_def)
      ultimately show ?thesis by (auto simp: gave_up_def intro: quiet_trans)
    next
      case (moved e fs)
      with part have e: "e = Regular ino" by simp
      have e3: "e3 = None" and m3: "m3 = m2\<lparr>faults := fs,
          names := ((names m2)(rcv_partPath st := None))(rcv_path st \<mapsto> e)\<rparr>"
        using moved(3) r by simp_all
      define m4 where "m4 = snd (os_remove (rcv_metaPath st) m3)"
      define m5 where "m5 = snd (sendControl (ack_control ''file_ack'' tid (file_Size (rcv_metadata st))) m4)"
      define m6 where "m6 = finishReceiver tid m5"
      have "\<exists>ev. ?m' = emit ev m6"
        using c None r e3
        by (auto simp: commit_file_def Let_def st [symmetric] m2_def [symmetric] m4_def m5_def m6_def
            simp del: if_split)
      then obtain ev where m': "?m' = emit ev m6" by blast
      have f: "same_files m4 m5" "same_files m6 (emit ev m6)"
        unfolding m5_def by (rule sendControl_frame emit_frame)+
      have "names m6 = names m4" "inodes m6 = inodes m4" "synced m6 = synced m4"
        using f(1) by (simp_all add: m6_def frame_simps same_files_def)
      then have s: "names ?m' = names m4" "inodes ?m' = inodes m4" "synced ?m' = synced m4"
        using f(2) m' by (simp_all add: same_files_def)
      have "names m4 (rcv_path st) = Some (Regular ino)"
        using dist unfolding m4_def by (simp add: os_remove_frame m3 e)
      moreover have "names m4 (rcv_partPath st) = None"
        using dist unfolding m4_def by (simp add: os_remove_frame m3)
      moreover have "inodes m4 = inodes m" "synced m4 = synced m"
        unfolding m4_def by (simp_all add: os_remove_frame m3 k2)
      ultimately show ?thesis by (simp add: s)
    qed
  qed
qed

lemma commit_file_ok:
  assumes inv: "file_inv a ino L m" and full: "expectedOffset L = file_Size (rcv_metadata (rcv_heap m a))"
    and dur: "lastDurable L = expectedOffset L"
    and hash: "expectedHash = (if file_SHA256 (rcv_metadata (rcv_heap m a)) = [] then ctl_SHA256 msg
                else file_SHA256 (rcv_metadata (rcv_heap m a)))"
      "expectedHash = [] \<or> EqualFold expectedHash (hex_text (sha256 m (hashed L)))"
  shows "gave_up (rcv_heap m a) m (commit_file tid a digest m)
    \<or> committed (rcv_heap m a) ino msg m (commit_file tid a digest m)
       \<and> inodes (commit_file tid a digest m) ino = hashed L"
proof -
  have I: "paths_ok (rcv_heap m a)" "owns (rcv_heap m a) ino m" "inodes m ino = hashed L"
      "int (length (hashed L)) = expectedOffset L"
      "take (nat (lastDurable L)) (synced m ino) = take (nat (lastDurable L)) (hashed L)"
    using inv by (auto simp: file_inv_def Let_def)
  have n: "nat (expectedOffset L) = length (hashed L)" using I(4) by linarith
  from commit_file_cases [OF refl I(2,1), of tid digest] show ?thesis
  proof
    assume c: "names (commit_file tid a digest m) (rcv_path (rcv_heap m a)) = Some (Regular ino)
       \<and> names (commit_file tid a digest m) (rcv_partPath (rcv_heap m a)) = None
       \<and> inodes (commit_file tid a digest m) = inodes m \<and> synced (commit_file tid a digest m) = synced m"
    then have "committed (rcv_heap m a) ino msg m (commit_file tid a digest m)"
      using I(3-5) hash full dur n by (auto simp: committed_def Let_def)
    with c I(3) show ?thesis by simp
  qed blast
qed

lemma complete_full:
  assumes "expectedOffset L = file_Size (rcv_metadata (rcv_heap m a))" "pending L = []"
    and "expectedHash = (if file_SHA256 (rcv_metadata (rcv_heap m a)) = [] then ctl_SHA256 msg
           else file_SHA256 (rcv_metadata (rcv_heap m a)))"
  shows "complete tid a (Some msg) L m =
     (if expectedHash \<noteq> [] \<and> \<not> EqualFold expectedHash (hex_text (sha256 m (hashed L))) then
        Return (receiveIntegrityFailed tid a ''SHA-256 verification failed'' m)
      else if lastDurable L \<noteq> expectedOffset L then
        (case checkpoint tid a L m of
           (Some err, L1, m1) \<Rightarrow> Return (receiveFailed tid (file_Name (rcv_metadata (rcv_heap m a))) err m1)
         | (None, L1, m1) \<Rightarrow> Return (commit_file tid a (hex_text (sha256 m (hashed L))) m1))
      else Return (commit_file tid a (hex_text (sha256 m (hashed L))) m))"
  using assms(1,2) unfolding complete_def Let_def assms(3) by (simp del: if_split)

lemma complete_ok:
  assumes inv: "file_inv a ino L m"
  shows "case complete tid a message L m of
      Loop L' m' \<Rightarrow> L' = L \<and> m' = m
    | Return m' \<Rightarrow> gave_up (rcv_heap m a) m m'
        \<or> (\<exists>msg. message = Some msg \<and> committed (rcv_heap m a) ino msg m m' \<and> inodes m' ino = hashed L
            \<and> expectedOffset L = file_Size (rcv_metadata (rcv_heap m a)))"
proof (cases "message = None \<or> expectedOffset L \<noteq> file_Size (rcv_metadata (rcv_heap m a)) \<or> pending L \<noteq> []")
  case True
  then show ?thesis by (auto simp: complete_def Let_def split: option.split)
next
  case False
  define st where "st = rcv_heap m a"
  define md where "md = rcv_metadata st"
  from False obtain msg where msg: "message = Some msg" and full: "expectedOffset L = file_Size md"
      and none: "pending L = []" by (auto simp: md_def st_def)
  have po: "paths_ok st" using inv by (auto simp: file_inv_def st_def Let_def)
  define digest where "digest = hex_text (sha256 m (hashed L))"
  define expectedHash where "expectedHash = (if file_SHA256 md = [] then ctl_SHA256 msg else file_SHA256 md)"
  note eq = complete_full [of L m a expectedHash msg tid, folded msg digest_def st_def, folded md_def,
      OF full none expectedHash_def]
  consider (bad) "expectedHash \<noteq> [] \<and> \<not> EqualFold expectedHash digest"
    | (now) "expectedHash = [] \<or> EqualFold expectedHash digest" "lastDurable L = expectedOffset L"
    | (sync) "expectedHash = [] \<or> EqualFold expectedHash digest" "lastDurable L \<noteq> expectedOffset L"
    by blast
  then show ?thesis
  proof cases
    case bad
    then have "complete tid a message L m
        = Return (receiveIntegrityFailed tid a ''SHA-256 verification failed'' m)" by (simp add: eq)
    then show ?thesis using receiveIntegrityFailed_gave_up [OF refl] po by (simp add: st_def)
  next
    case now
    then have "complete tid a message L m = Return (commit_file tid a digest m)" by (auto simp: eq)
    moreover have "gave_up st m (commit_file tid a digest m)
        \<or> committed st ino msg m (commit_file tid a digest m)
           \<and> inodes (commit_file tid a digest m) ino = hashed L"
      unfolding st_def
      by (rule commit_file_ok [OF inv _ now(2) _ now(1) [unfolded digest_def]])
         (simp_all add: full expectedHash_def flip: md_def st_def)
    ultimately show ?thesis using full msg by (auto simp: md_def st_def)
  next
    case sync
    obtain e L1 m1 where cp: "checkpoint tid a L m = (e, L1, m1)" by (cases "checkpoint tid a L m")
    show ?thesis
    proof (cases e)
      case (Some err)
      with sync cp have r: "complete tid a message L m = Return (receiveFailed tid (file_Name md) err m1)"
        by (auto simp: eq)
      note F = checkpoint_failed [OF inv cp [unfolded Some]]
      have "gave_up st m (receiveFailed tid (file_Name md) err m1)"
        using F by (intro gave_up_after [OF _ _ _ receiveFailed_gave_up])
          (auto simp: keeps_def same_tables_def st_def intro: quiet_same)
      with r show ?thesis by (simp add: st_def)
    next
      case None
      with sync cp have r: "complete tid a message L m = Return (commit_file tid a digest m1)"
        by (auto simp: eq)
      note K = checkpoint_ok [OF inv cp [unfolded None]]
      then have h: "rcv_heap m1 = rcv_heap m" "options m1 = options m" "sha256 m1 = sha256 m"
          "names m1 (rcv_path st) = names m (rcv_path st)"
        by (auto simp: keeps_def same_tables_def st_def)
      have L1: "hashed L1 = hashed L" "lastDurable L1 = expectedOffset L1" "expectedOffset L1 = expectedOffset L"
        using K by auto
      have "gave_up st m1 (commit_file tid a digest m1)
          \<or> committed st ino msg m1 (commit_file tid a digest m1)
             \<and> inodes (commit_file tid a digest m1) ino = hashed L1"
        unfolding st_def h(1) [symmetric]
      proof (rule commit_file_ok)
        show "file_inv a ino L1 m1" using K by blast
        show "expectedHash = [] \<or> EqualFold expectedHash (hex_text (sha256 m1 (hashed L1)))"
          using sync(1) by (simp add: h L1 digest_def)
      qed (simp_all add: L1 h full expectedHash_def flip: md_def st_def)
      then show ?thesis
      proof
        assume g: "gave_up st m1 (commit_file tid a digest m1)"
        have "quiet md m m1" using K by (auto simp: md_def st_def intro: ran_quiet)
        then have "gave_up st m (commit_file tid a digest m1)"
          using gave_up_after [OF _ h(4) h(2) g] by (simp add: md_def)
        with r show ?thesis by (simp add: st_def)
      next
        assume c: "committed st ino msg m1 (commit_file tid a digest m1)
             \<and> inodes (commit_file tid a digest m1) ino = hashed L1"
        then have "committed st ino msg m (commit_file tid a digest m1)"
          unfolding committed_def Let_def h(3) by blast
        with r msg c L1(1) full show ?thesis by (simp add: st_def md_def)
      qed
    qed
  qed
qed

section \<open>One chunk, the drain, one event\<close>

definition turn_ok :: "nat \<Rightarrow> nat \<Rightarrow> recv_loop \<Rightarrow> manager \<Rightarrow> loop_result \<Rightarrow> bool" where
  "turn_ok a ino L m res \<longleftrightarrow>
     (let st = rcv_heap m a in
      case res of
        Loop L' m' \<Rightarrow> file_inv a ino L' m' \<and> buffer_inv a L' m' \<and> grew L L'
          \<and> ran (rcv_metadata st) L' m m' \<and> names m' (rcv_path st) = names m (rcv_path st)
          \<and> same_tables m m'
      | Return m' \<Rightarrow> gave_up st m m' \<or> (\<exists>msg. committed st ino msg m m'))"

lemma turn_ok_refl: "file_inv a ino L m \<Longrightarrow> buffer_inv a L m \<Longrightarrow> turn_ok a ino L m (Loop L m)"
  by (simp add: turn_ok_def Let_def)

lemma turn_ok_gave_up: "gave_up (rcv_heap m a) m m' \<Longrightarrow> turn_ok a ino L m (Return m')"
  by (simp add: turn_ok_def Let_def)

lemma turn_ok_trans:
  assumes 1: "turn_ok a ino L m (Loop L1 m1)" and 2: "turn_ok a ino L1 m1 res"
  shows "turn_ok a ino L m res"
proof (cases res)
  case (Loop L' m')
  have "ran (rcv_metadata (rcv_heap m a)) L' m m'" "same_tables m m'"
    using 1 2 Loop by (auto simp: turn_ok_def Let_def same_tables_def intro: ran_trans)
  then show ?thesis using 1 2 Loop by (auto simp: turn_ok_def Let_def same_tables_def grew_def)
next
  case (Return m')
  have h: "rcv_heap m1 = rcv_heap m" "options m1 = options m" "sha256 m1 = sha256 m"
      "names m1 (rcv_path (rcv_heap m a)) = names m (rcv_path (rcv_heap m a))"
      "quiet (rcv_metadata (rcv_heap m a)) m m1"
    using 1 by (auto simp: turn_ok_def Let_def same_tables_def intro: ran_quiet)
  have "gave_up (rcv_heap m a) m1 m' \<or> (\<exists>msg. committed (rcv_heap m a) ino msg m1 m')"
    using 2 Return h(1) by (simp add: turn_ok_def Let_def)
  then show ?thesis
  proof
    assume "gave_up (rcv_heap m a) m1 m'"
    then have "gave_up (rcv_heap m a) m m'" by (rule gave_up_after [OF h(5) h(4) h(2)])
    then show ?thesis unfolding Return by (rule turn_ok_gave_up)
  next
    assume "\<exists>msg. committed (rcv_heap m a) ino msg m1 m'"
    then have "\<exists>msg. committed (rcv_heap m a) ino msg m m'"
      unfolding committed_def Let_def h(3) .
    then show ?thesis by (simp add: turn_ok_def Let_def Return)
  qed
qed

lemma buffer_inv_written:
  assumes "buffer_inv a L m" "map_get (pending L) (expectedIndex L) = Some (h, d)"
    and "L1 = L\<lparr>pending := map_del (expectedIndex L) (pending L),
           pendingBytes := i64 (pendingBytes L - int (length d)), hashed := x, expectedOffset := y,
           expectedIndex := expectedIndex L + 1\<rparr>"
    and "rcv_heap m' = rcv_heap m" "options m' = options m"
  shows "buffer_inv a L1 m'"
proof -
  have B: "map_ok (pending L)" "pendingBytes L = held snd (pending L)" "pendingBytes L < 2 ^ 62"
      "pendingBytes L \<le> opt_MaxReorderBufferBytes (options m)" "opt_MaxReorderBufferBytes (options m) < 2 ^ 62"
      "\<And>i h d. map_get (pending L) i = Some (h, d) \<Longrightarrow> expectedIndex L \<le> i
        \<and> i < file_TotalChunks (rcv_metadata (rcv_heap m a))
        \<and> hdr_Offset h = boundary (rcv_metadata (rcv_heap m a)) i
        \<and> int (length d) = boundary (rcv_metadata (rcv_heap m a)) (i + 1) - boundary (rcv_metadata (rcv_heap m a)) i"
    using assms(1) by (auto simp: buffer_inv_def Let_def)
  have hd: "held snd (map_del (expectedIndex L) (pending L)) = held snd (pending L) - int (length d)"
    using held_del [OF B(1) assms(2), of snd] by simp
  have "0 \<le> held snd (map_del (expectedIndex L) (pending L))" by simp
  then have "0 \<le> pendingBytes L - int (length d)" using hd B(2) by linarith
  then have pb: "i64 (pendingBytes L - int (length d)) = pendingBytes L - int (length d)"
    using B(3) by (intro i64_id) (simp add: in_i64_def)
  have "expectedIndex L + 1 \<le> i" if "map_get (pending L) i = Some (h', d')" "i \<noteq> expectedIndex L" for i h' d'
    using B(6) [OF that(1)] that(2) by linarith
  with B(6) show ?thesis unfolding buffer_inv_def Let_def assms(3-5)
    using B(1-5) pb hd by simp
qed

lemma buffer_inv_cong:
  "buffer_inv a L m \<Longrightarrow> pending L' = pending L \<Longrightarrow> pendingBytes L' = pendingBytes L \<Longrightarrow>
   expectedIndex L' = expectedIndex L \<Longrightarrow> same_tables m m' \<Longrightarrow> buffer_inv a L' m'"
  by (auto simp: buffer_inv_def same_tables_def Let_def)

lemma index_plus_1:
  assumes "geometry md" "0 \<le> i" "i < file_TotalChunks md"
  shows "i64 (i + 1) = i + 1"
proof -
  have "i * file_ChunkSize md < file_Size md" "1 \<le> file_ChunkSize md" "file_Size md < 2 ^ 63 - 1"
    using assms total_iff [of md i] by (auto simp: geometry_def)
  moreover have "i \<le> i * file_ChunkSize md"
    using assms(2) calculation(2) mult_left_mono [of 1 "file_ChunkSize md" i] by simp
  ultimately show ?thesis using assms(2) by (intro i64_id) (simp add: in_i64_def)
qed

text \<open>The variables after the write, and the machine arithmetic in them.\<close>

definition written :: "bytes \<Rightarrow> recv_loop \<Rightarrow> recv_loop" where
  "written data L = L\<lparr>pending := map_del (expectedIndex L) (pending L),
     pendingBytes := i64 (pendingBytes L - int (length data)), hashed := hashed L @ data,
     expectedOffset := i64 (expectedOffset L + int (length data)),
     expectedIndex := i64 (expectedIndex L + 1)\<rparr>"

lemma written_ok:
  assumes inv: "file_inv a ino L m" "buffer_inv a L m"
    and nxt: "map_get (pending L) (expectedIndex L) = Some (h, d)"
    and m': "m' = m\<lparr>faults := fs, inodes := (inodes m)(ino := inodes m ino @ d),
        handles := (handles m)(rcv_file (rcv_heap m a) \<mapsto> (ino, length (inodes m ino) + length d))\<rparr>"
  shows "file_inv a ino (written d L) m' \<and> buffer_inv a (written d L) m' \<and> grew L (written d L)
    \<and> expectedIndex (written d L) = expectedIndex L + 1
    \<and> expectedOffset (written d L) = expectedOffset L + int (length d)"
proof -
  define md where "md = rcv_metadata (rcv_heap m a)"
  define i where "i = expectedIndex L"
  have I: "geometry md" "int (length (hashed L)) = expectedOffset L" "0 \<le> i" "expectedOffset L = boundary md i"
      "0 \<le> lastDurable L" "lastDurable L \<le> expectedOffset L" "inodes m ino = hashed L"
    using inv(1) by (auto simp: file_inv_def Let_def md_def i_def)
  have B: "i < file_TotalChunks md" "int (length d) = boundary md (i + 1) - boundary md i"
    using inv(2) nxt by (auto simp: buffer_inv_def Let_def md_def i_def)
  have step: "i64 (expectedIndex L + 1) = i + 1"
    using index_plus_1 [OF I(1,3) B(1)] by (simp add: i_def)
  have off: "expectedOffset L + int (length d) = boundary md (i + 1)" using I(4) B(2) by simp
  have "0 \<le> boundary md (i + 1)" "boundary md (i + 1) < 2 ^ 63"
    using boundary_nonneg [OF I(1), of "i + 1"] boundary_le [of md "i + 1"] I(1,3) by (auto simp: geometry_def)
  then have off': "i64 (expectedOffset L + int (length d)) = boundary md (i + 1)"
    unfolding off by (intro i64_id) (simp add: in_i64_def)
  have L2: "written d L = L\<lparr>pending := map_del (expectedIndex L) (pending L),
      pendingBytes := i64 (pendingBytes L - int (length d)), hashed := hashed L @ d,
      expectedOffset := boundary md (i + 1), expectedIndex := expectedIndex L + 1\<rparr>"
    unfolding written_def step off' i_def by simp
  have "buffer_inv a (written d L) m'"
    by (rule buffer_inv_written [OF inv(2) nxt L2]) (simp_all add: m')
  moreover have "file_inv a ino (written d L) m'"
    using inv(1) I B(1) off unfolding L2 m'
    by (auto simp: file_inv_def Let_def owns_def md_def i_def)
  moreover have "grew L (written d L)" using off by (simp add: L2 grew_def)
  ultimately show ?thesis using off L2 by simp
qed

lemma write_chunk_eq:
  "write_chunk tid a (h, d) L m =
     (if hdr_Offset h \<noteq> expectedOffset L then
        Return (receiveFailed tid (file_Name (rcv_metadata (rcv_heap m a))) ''file chunk continuity mismatch'' m)
      else
        (case os_write (rcv_file (rcv_heap m a)) d m of
           (Some err, m1) \<Rightarrow> Return (receiveFailed tid (file_Name (rcv_metadata (rcv_heap m a))) err m1)
         | (None, m1) \<Rightarrow>
             (if i64 (expectedOffset (written d L) - lastDurable (written d L)) \<ge> opt_DurableAckInterval (options m1)
                 \<or> expectedOffset (written d L) = file_Size (rcv_metadata (rcv_heap m a)) then
                (case checkpoint tid a (written d L) m1 of
                   (Some err, L3, m2) \<Rightarrow>
                     Return (receiveFailed tid (file_Name (rcv_metadata (rcv_heap m a))) err m2)
                 | (None, L3, m2) \<Rightarrow> (case report_progress tid a L3 m2 of (L4, m3) \<Rightarrow> Loop L4 m3))
              else (case report_progress tid a (written d L) m1 of (L3, m2) \<Rightarrow> Loop L3 m2))))"
  unfolding write_chunk_def Let_def
  by (simp add: written_def del: if_split cong: if_cong option.case_cong)

text \<open>The report after a chunk, as the last part of a round.\<close>

lemma report_turn_ok:
  assumes "file_inv a ino L m" "buffer_inv a L m" "report_progress tid a L m = (L', m')"
  shows "turn_ok a ino L m (Loop L' m')"
proof -
  note R = report_progress_ok [OF assms(1,3)]
  then have "same_tables m m'" "names m' (rcv_path (rcv_heap m a)) = names m (rcv_path (rcv_heap m a))"
    by (auto simp: keeps_def)
  moreover have "buffer_inv a L' m'"
    using R \<open>same_tables m m'\<close> by (auto intro: buffer_inv_cong [OF assms(2)])
  moreover have "grew L L'" using R by (auto simp: grew_def)
  ultimately show ?thesis using R by (simp add: turn_ok_def Let_def)
qed

lemma checkpoint_turn_ok:
  assumes "file_inv a ino L m" "buffer_inv a L m" "checkpoint tid a L m = (None, L', m')"
  shows "turn_ok a ino L m (Loop L' m')"
proof -
  note C = checkpoint_ok [OF assms(1,3)]
  then have "same_tables m m'" "names m' (rcv_path (rcv_heap m a)) = names m (rcv_path (rcv_heap m a))"
    by (auto simp: keeps_def)
  moreover have "buffer_inv a L' m'"
    using C \<open>same_tables m m'\<close> by (auto intro: buffer_inv_cong [OF assms(2)])
  moreover have "grew L L'" using C assms(1) by (auto simp: grew_def file_inv_def Let_def)
  ultimately show ?thesis using C by (auto simp: turn_ok_def Let_def)
qed

lemma checkpoint_turn_failed:
  assumes "file_inv a ino L m" "checkpoint tid a L m = (Some err, L', m')"
  shows "turn_ok a ino L m (Return (receiveFailed tid name err' m'))"
proof -
  note F = checkpoint_failed [OF assms]
  then have "quiet (rcv_metadata (rcv_heap m a)) m m'" by (auto intro: quiet_same)
  with F show ?thesis
    by (intro turn_ok_gave_up gave_up_after [OF _ _ _ receiveFailed_gave_up])
       (auto simp: keeps_def same_tables_def)
qed

lemma write_chunk_ok:
  assumes inv: "file_inv a ino L m" "buffer_inv a L m"
    and nxt: "map_get (pending L) (expectedIndex L) = Some (h, d)"
  shows "turn_ok a ino L m (write_chunk tid a (h, d) L m)"
proof -
  let ?st = "rcv_heap m a"
  show ?thesis
  proof (cases "hdr_Offset h = expectedOffset L \<and> handles m (rcv_file ?st) \<noteq> None")
    case False
    then consider "hdr_Offset h \<noteq> expectedOffset L" | "handles m (rcv_file ?st) = None" by blast
    then show ?thesis
      by cases (simp_all add: write_chunk_eq os_write_def turn_ok_gave_up receiveFailed_gave_up)
  next
    case both: True
    then have True: "hdr_Offset h = expectedOffset L" by simp
    have fd: "handles m (rcv_file ?st) = Some (ino, length (inodes m ino))"
      using inv(1) both by (auto simp: file_inv_def Let_def)
    show ?thesis
    proof (cases rule: os_write_append [OF fd, of d])
      case failed: (1 msg n fs)
      show ?thesis unfolding write_chunk_eq using True failed
        by (auto simp: intro!: turn_ok_gave_up gave_up_after [OF _ _ _ receiveFailed_gave_up] quiet_same)
    next
      case ok: (2 fs)
      define m1 where "m1 = m\<lparr>faults := fs, inodes := (inodes m)(ino := inodes m ino @ d),
        handles := (handles m)(rcv_file (rcv_heap m a) \<mapsto> (ino, length (inodes m ino) + length d))\<rparr>"
      define L2 where "L2 = written d L"
      note W = written_ok [OF inv nxt m1_def, folded L2_def]
      have t1: "turn_ok a ino L m (Loop L2 m1)"
        using W by (simp add: turn_ok_def Let_def m1_def same_tables_def ran_same)
      have ok': "os_write (rcv_file ?st) d m = (None, m1)" using ok by (simp add: m1_def)
      have "turn_ok a ino L2 m1 (write_chunk tid a (h, d) L m)"
      proof (cases "i64 (expectedOffset L2 - lastDurable L2) \<ge> opt_DurableAckInterval (options m1)
                 \<or> expectedOffset L2 = file_Size (rcv_metadata ?st)")
        case False
        then show ?thesis using True ok' W
          by (auto simp: write_chunk_eq L2_def [symmetric] intro!: report_turn_ok split: prod.split)
      next
        case cp: True
        obtain e L3 m2 where c: "checkpoint tid a L2 m1 = (e, L3, m2)" by (cases "checkpoint tid a L2 m1")
        show ?thesis
        proof (cases e)
          case (Some err)
          then show ?thesis using True ok' cp c W
            by (auto simp: write_chunk_eq L2_def [symmetric] intro!: checkpoint_turn_failed)
        next
          case None
          have t3: "turn_ok a ino L2 m1 (Loop L3 m2)"
            using W c None by (auto intro: checkpoint_turn_ok)
          then have "file_inv a ino L3 m2" "buffer_inv a L3 m2" by (auto simp: turn_ok_def Let_def)
          then have "turn_ok a ino L3 m2 (write_chunk tid a (h, d) L m)"
            using True ok' cp c None
            by (auto simp: write_chunk_eq L2_def [symmetric] intro!: report_turn_ok split: prod.split)
          with t3 show ?thesis by (rule turn_ok_trans)
        qed
      qed
      with t1 show ?thesis by (rule turn_ok_trans)
    qed
  qed
qed

lemma drain_ok:
  "file_inv a ino L m \<Longrightarrow> buffer_inv a L m \<Longrightarrow> turn_ok a ino L m (drain tid a L m)"
proof (induction tid a L m rule: drain.induct)
  case (1 tid a L m)
  show ?case
  proof (cases "map_get (pending L) (expectedIndex L)")
    case None
    then show ?thesis using 1 by (subst drain.simps) (simp add: turn_ok_refl)
  next
    case (Some c)
    obtain h d where c: "c = (h, d)" by (cases c)
    note w = write_chunk_ok [OF "1.prems" Some [unfolded c], of tid]
    show ?thesis
    proof (cases "write_chunk tid a c L m")
      case (Return m1)
      then show ?thesis using w Some c by (subst drain.simps) simp
    next
      case (Loop L1 m1)
      with w c have t: "turn_ok a ino L m (Loop L1 m1)" by simp
      then have "turn_ok a ino L1 m1 (drain tid a L1 m1)"
        using "1.IH" [OF Some Loop] by (simp add: turn_ok_def Let_def)
      with t have "turn_ok a ino L m (drain tid a L1 m1)" by (rule turn_ok_trans)
      then show ?thesis using Some Loop by (subst drain.simps) simp
    qed
  qed
qed

lemma complete_turn_ok:
  assumes "file_inv a ino L m" "buffer_inv a L m"
  shows "turn_ok a ino L m (complete tid a message L m)"
  using complete_ok [OF assms(1), where tid = tid and message = message] turn_ok_refl [OF assms]
  by (auto simp: turn_ok_def Let_def split: loop_result.splits)

text \<open>Which chunks the loop takes into its buffer, without the machine arithmetic.\<close>

definition fits :: "string \<Rightarrow> file_metadata \<Rightarrow> chunk_header \<Rightarrow> bytes \<Rightarrow> bool" where
  "fits tid md h d \<longleftrightarrow> hdr_TransferID h = tid \<and> 0 \<le> hdr_Index h \<and> hdr_Index h < file_TotalChunks md
     \<and> hdr_Length h = int (length d) \<and> hdr_Offset h = boundary md (hdr_Index h)
     \<and> int (length d) = boundary md (hdr_Index h + 1) - boundary md (hdr_Index h)"

lemma fits_iff:
  assumes g: "geometry md"
  shows "fits tid md h d \<longleftrightarrow>
     \<not> (hdr_TransferID h \<noteq> tid \<or> hdr_Index h < 0 \<or> hdr_Index h \<ge> file_TotalChunks md
        \<or> hdr_Length h \<noteq> int (length d))
     \<and> \<not> (hdr_Offset h \<noteq> chunk_offset md (hdr_Index h) \<or> hdr_Length h \<noteq> chunk_length md (hdr_Index h)
        \<or> chunk_offset md (hdr_Index h) < 0
        \<or> i64 (chunk_offset md (hdr_Index h) + chunk_length md (hdr_Index h)) > file_Size md)"
proof (cases "0 \<le> hdr_Index h \<and> hdr_Index h < file_TotalChunks md")
  case True
  define i where "i = hdr_Index h"
  have c: "chunk_offset md i = boundary md i" "chunk_length md i = boundary md (i + 1) - boundary md i"
      "0 \<le> boundary md i" "0 \<le> boundary md (i + 1)" "boundary md (i + 1) \<le> file_Size md"
    using True g by (auto simp: i_def chunk_offset_eq chunk_length_eq boundary_nonneg boundary_le)
  moreover have "i64 (boundary md (i + 1)) = boundary md (i + 1)"
    using c g by (intro i64_id) (auto simp: in_i64_def geometry_def)
  ultimately show ?thesis using True by (auto simp: fits_def i_def)
qed (auto simp: fits_def)

lemma buffer_inv_put:
  assumes inv: "file_inv a ino L m" "buffer_inv a L m"
    and fit: "fits tid (rcv_metadata (rcv_heap m a)) h d"
    and new: "expectedIndex L \<le> hdr_Index h" "map_get (pending L) (hdr_Index h) = None"
    and L1: "L1 = L\<lparr>pending := map_put (hdr_Index h) (h, d) (pending L),
                   pendingBytes := i64 (pendingBytes L + int (length d))\<rparr>"
    and room: "pendingBytes L1 \<le> opt_MaxReorderBufferBytes (options m)"
  shows "buffer_inv a L1 m" "file_inv a ino L1 m" "grew L L1"
proof -
  define md where "md = rcv_metadata (rcv_heap m a)"
  have g: "geometry md" using inv(1) by (simp add: file_inv_def Let_def md_def)
  have "int (length d) \<le> 1048576"
    using fit boundary_step(2) [OF g, of "hdr_Index h"] g by (auto simp: fits_def md_def geometry_def)
  moreover have "0 \<le> pendingBytes L" "pendingBytes L < 2 ^ 62"
    using inv(2) by (auto simp: buffer_inv_def Let_def)
  ultimately have pb: "i64 (pendingBytes L + int (length d)) = pendingBytes L + int (length d)"
    by (intro i64_id) (simp add: in_i64_def)
  show "buffer_inv a L1 m"
    using inv(2) fit new room pb held_put_new [OF new(2), of snd "(h, d)"] unfolding L1
    by (auto simp: buffer_inv_def Let_def fits_def)
  show "file_inv a ino L1 m" using inv(1) by (simp add: L1 file_inv_def Let_def)
  show "grew L L1" by (simp add: L1 grew_def)
qed

lemma handle_chunk_ok:
  assumes inv: "file_inv a ino L m" "buffer_inv a L m"
  shows "turn_ok a ino L m (handle_chunk tid a h d L m)"
proof -
  define md where "md = rcv_metadata (rcv_heap m a)"
  have g: "geometry md" using inv(1) by (simp add: file_inv_def Let_def md_def)
  define L1 where "L1 = L\<lparr>pending := map_put (hdr_Index h) (h, d) (pending L),
                   pendingBytes := i64 (pendingBytes L + int (length d))\<rparr>"
  have f: "turn_ok a ino L m (Return (receiveFailed tid name err m))" for name err
    by (intro turn_ok_gave_up receiveFailed_gave_up)
  consider "\<not> fits tid md h d" | "fits tid md h d" "hdr_Index h < expectedIndex L"
    | "fits tid md h d" "map_get (pending L) (hdr_Index h) \<noteq> None"
    | (full) "fits tid md h d" "pendingBytes L1 > opt_MaxReorderBufferBytes (options m)"
    | (go) "fits tid md h d" "expectedIndex L \<le> hdr_Index h" "map_get (pending L) (hdr_Index h) = None"
        "pendingBytes L1 \<le> opt_MaxReorderBufferBytes (options m)"
    by linarith
  then show ?thesis
  proof cases
    case go
    note P = buffer_inv_put [OF inv go(1)[unfolded md_def] go(2,3) L1_def go(4)]
    have t1: "turn_ok a ino L m (Loop L1 m)" using P by (simp add: turn_ok_def Let_def)
    have eq: "handle_chunk tid a h d L m =
        (case drain tid a L1 m of Return m1 \<Rightarrow> Return m1
         | Loop L2 m1 \<Rightarrow> complete tid a (end_msg L2) L2 m1)"
      using go fits_iff [OF g, of tid h d]
      by (auto simp: handle_chunk_def Let_def md_def [symmetric] L1_def [symmetric])
    have "turn_ok a ino L1 m (handle_chunk tid a h d L m)"
    proof (cases "drain tid a L1 m")
      case (Return m1)
      then show ?thesis using drain_ok [OF P(2,1), of tid] by (simp add: eq)
    next
      case (Loop L2 m1)
      then have t2: "turn_ok a ino L1 m (Loop L2 m1)" using drain_ok [OF P(2,1), of tid] by simp
      then have "turn_ok a ino L2 m1 (complete tid a (end_msg L2) L2 m1)"
        by (intro complete_turn_ok) (auto simp: turn_ok_def Let_def)
      with t2 have "turn_ok a ino L1 m (complete tid a (end_msg L2) L2 m1)" by (rule turn_ok_trans)
      then show ?thesis by (simp add: eq Loop)
    qed
    with t1 show ?thesis by (rule turn_ok_trans)
  qed (use fits_iff [OF g, of tid h d] f turn_ok_refl [OF inv] in
       \<open>auto simp: handle_chunk_def Let_def md_def [symmetric] L1_def\<close>)
qed

lemma gave_up_finished:
  assumes "evt_Type e \<noteq> ''completed''"
  shows "gave_up st m (emit e (finishReceiver tid m))"
proof -
  have "quiet (rcv_metadata st) m (finishReceiver tid m)"
    by (intro quiet_same) (simp_all add: frame_simps)
  also have "quiet (rcv_metadata st) (finishReceiver tid m) (emit e (finishReceiver tid m))"
    using assms by (rule quiet_emit)
  finally show ?thesis
    using emit_frame(1) [of "finishReceiver tid m" e] by (simp add: gave_up_def same_files_def frame_simps)
qed

lemma handle_event_ok:
  assumes inv: "file_inv a ino L m" "buffer_inv a L m"
  shows "case handle_event tid a ev L m of
      Loop L' m' \<Rightarrow> turn_ok a ino (L\<lparr>end_msg := end_msg L'\<rparr>) m (Loop L' m')
    | Return m' \<Rightarrow> turn_ok a ino L m (Return m')"
proof (cases "rev_cancel ev")
  case (Some reason)
  then show ?thesis by (simp add: handle_event_def turn_ok_gave_up gave_up_finished)
next
  case nc: None
  show ?thesis
  proof (cases "rev_end ev")
    case (Some msg)
    define L1 where "L1 = L\<lparr>end_msg := Some msg\<rparr>"
    have i1: "file_inv a ino L1 m" "buffer_inv a L1 m"
      using inv by (auto simp: L1_def file_inv_def buffer_inv_def Let_def)
    have c: "case complete tid a (Some msg) L1 m of Loop L' m' \<Rightarrow> L' = L1 \<and> m' = m
        | Return m' \<Rightarrow> turn_ok a ino L1 m (Return m')"
      using complete_ok [OF i1(1), where tid = tid and message = "Some msg"] complete_turn_ok [OF i1, where tid = tid and message = "Some msg"]
      by (auto split: loop_result.splits)
    show ?thesis
    proof (cases "complete tid a (Some msg) L1 m")
      case (Return m')
      with c nc Some show ?thesis by (simp add: handle_event_def L1_def turn_ok_def Let_def)
    next
      case (Loop L' m')
      with c have "L' = L1" "m' = m" by simp_all
      with Loop nc Some i1 have
        "handle_event tid a ev L m = Loop (L1\<lparr>end_armed := True\<rparr>) m"
        by (simp add: handle_event_def L1_def)
      moreover have "file_inv a ino (L1\<lparr>end_armed := True\<rparr>) m" "buffer_inv a (L1\<lparr>end_armed := True\<rparr>) m"
        using i1 by (auto simp: file_inv_def buffer_inv_def Let_def)
      ultimately show ?thesis by (simp add: turn_ok_def Let_def grew_def L1_def)
    qed
  next
    case ne: None
    have "turn_ok a ino L m (handle_event tid a ev L m)"
      using nc ne turn_ok_refl [OF inv] handle_chunk_ok [OF inv]
      by (simp add: handle_event_def split: option.split)
    then show ?thesis
      by (cases "handle_event tid a ev L m") (auto simp: turn_ok_def Let_def grew_def)
  qed
qed

end
