(* ===== verification/Receive_Run.thy ===== *)
theory Receive_Run
  imports Receive_Invariant
begin

text \<open>
  The receive goroutine among the others: its turns interleaved with anything the message
  handler and the other transfers may do. The invariant of the loop holds in every state
  of every such run, so the end of a run and all acknowledgements are as promised.
\<close>

section \<open>The goroutine as a step relation\<close>

text \<open>The acknowledgements sent for one transfer.\<close>

definition acks_of :: "string \<Rightarrow> manager \<Rightarrow> control list" where
  "acks_of tid m = filter (\<lambda>c. ctl_TransferID c = tid
     \<and> (ctl_Type c = ''file_ack'' \<or> ctl_Type c = ''file_progress'')) (sent m)"

text \<open>
  The steps of the other goroutines. They queue events for the loop, may mark it done and
  close its file, and let the system write dirty pages back; they do not touch the inode
  of its partial file, nor acknowledge its transfer.
\<close>

definition others :: "string \<Rightarrow> nat \<Rightarrow> nat \<Rightarrow> manager \<Rightarrow> manager \<Rightarrow> bool" where
  "others tid a ino m m' \<longleftrightarrow>
     (let st = rcv_heap m a in
      (\<exists>es d. rcv_heap m' a = st\<lparr>rcv_events := es, rcv_done := d\<rparr>)
      \<and> (handles m' (rcv_file st) = handles m (rcv_file st) \<or> handles m' (rcv_file st) = None)
      \<and> inodes m' ino = inodes m ino \<and> owns st ino m'
      \<and> (synced m' ino = synced m ino \<or> synced m' ino = inodes m ino)
      \<and> options m' = options m \<and> sha256 m' = sha256 m \<and> acks_of tid m' = acks_of tid m)"

datatype run_state = Running recv_loop manager | Ended manager

inductive recv_step :: "string \<Rightarrow> nat \<Rightarrow> nat \<Rightarrow> run_state \<Rightarrow> run_state \<Rightarrow> bool"
  for tid :: string and a :: nat and ino :: nat where
  turn: "case_ready k a L m \<Longrightarrow> loop_turn tid a k L m = Loop L' m' \<Longrightarrow>
    recv_step tid a ino (Running L m) (Running L' m')"
| stop: "case_ready k a L m \<Longrightarrow> loop_turn tid a k L m = Return m' \<Longrightarrow>
    recv_step tid a ino (Running L m) (Ended m')"
| other: "others tid a ino m m' \<Longrightarrow> recv_step tid a ino (Running L m) (Running L m')"

inductive_cases recv_stepE [elim!]: "recv_step tid a ino (Running L m) s"
inductive_simps recv_step_ended: "recv_step tid a ino (Ended m) s"

section \<open>One turn keeps the invariant\<close>

definition pop_event :: "nat \<Rightarrow> manager \<Rightarrow> manager" where
  "pop_event a m = m\<lparr>rcv_heap := (rcv_heap m)(a := (rcv_heap m a)\<lparr>rcv_events := tl (rcv_events (rcv_heap m a))\<rparr>)\<rparr>"

lemma pop_event_simps [simp]:
  "rcv_metadata (rcv_heap (pop_event a m) b) = rcv_metadata (rcv_heap m b)"
  "rcv_path (rcv_heap (pop_event a m) b) = rcv_path (rcv_heap m b)"
  "rcv_partPath (rcv_heap (pop_event a m) b) = rcv_partPath (rcv_heap m b)"
  "rcv_metaPath (rcv_heap (pop_event a m) b) = rcv_metaPath (rcv_heap m b)"
  "rcv_file (rcv_heap (pop_event a m) b) = rcv_file (rcv_heap m b)"
  "names (pop_event a m) = names m" "inodes (pop_event a m) = inodes m" "synced (pop_event a m) = synced m"
  "handles (pop_event a m) = handles m" "options (pop_event a m) = options m" "sha256 (pop_event a m) = sha256 m"
  "sent (pop_event a m) = sent m" "emitted (pop_event a m) = emitted m" "next_inode (pop_event a m) = next_inode m"
  "faults (pop_event a m) = faults m"
  by (simp_all add: pop_event_def)

lemma loop_turn_event:
  "loop_turn tid a EventReady L m = handle_event tid a (hd (rcv_events (rcv_heap m a))) L (pop_event a m)"
  by (simp add: loop_turn_def pop_event_def Let_def)

lemma file_inv_pop: "file_inv a ino L (pop_event a m) \<longleftrightarrow> file_inv a ino L m"
  by (simp add: file_inv_def owns_def paths_ok_def Let_def)

lemma buffer_inv_pop: "buffer_inv a L (pop_event a m) \<longleftrightarrow> buffer_inv a L m"
  by (simp add: buffer_inv_def Let_def)

lemma gave_up_pop: "gave_up (rcv_heap (pop_event a m) a) (pop_event a m) m' \<longleftrightarrow> gave_up (rcv_heap m a) m m'"
  by (simp add: gave_up_def quiet_def)

lemma committed_pop:
  "committed (rcv_heap (pop_event a m) a) ino msg (pop_event a m) m' \<longleftrightarrow> committed (rcv_heap m a) ino msg m m'"
  by (simp add: committed_def Let_def)

lemma loop_turn_ok:
  assumes inv: "file_inv a ino L m" "buffer_inv a L m" and res: "loop_turn tid a k L m = res"
  shows "case res of
      Loop L' m' \<Rightarrow> file_inv a ino L' m' \<and> buffer_inv a L' m' \<and> ran (rcv_metadata (rcv_heap m a)) L' m m'
        \<and> rcv_metadata (rcv_heap m' a) = rcv_metadata (rcv_heap m a)
        \<and> lastDurable L \<le> lastDurable L' \<and> expectedOffset L \<le> expectedOffset L'
    | Return m' \<Rightarrow> gave_up (rcv_heap m a) m m' \<or> (\<exists>msg. committed (rcv_heap m a) ino msg m m')"
proof (cases k)
  case EventReady
  have inv': "file_inv a ino L (pop_event a m)" "buffer_inv a L (pop_event a m)"
    using inv by (simp_all add: file_inv_pop buffer_inv_pop)
  note H = handle_event_ok [OF inv', of tid "hd (rcv_events (rcv_heap m a))"]
  show ?thesis
  proof (cases res)
    case (Loop L' m')
    then have t: "turn_ok a ino (L\<lparr>end_msg := end_msg L'\<rparr>) (pop_event a m) (Loop L' m')"
      using H res by (simp add: EventReady loop_turn_event)
    then have "ran (rcv_metadata (rcv_heap m a)) L' m m'"
      by (auto simp: turn_ok_def Let_def ran_def)
    with t Loop show ?thesis by (auto simp: turn_ok_def Let_def grew_def same_tables_def)
  next
    case (Return m')
    then have "turn_ok a ino L (pop_event a m) (Return m')"
      using H res by (simp add: EventReady loop_turn_event)
    with Return show ?thesis by (simp add: turn_ok_def Let_def gave_up_pop committed_pop)
  qed
next
  case DeadlineReady
  with res show ?thesis by (auto simp: loop_turn_def Let_def receiveFailed_gave_up)
next
  case DoneReady
  with res show ?thesis by (auto simp: loop_turn_def Let_def gave_up_def intro: quiet_same)
next
  case ClosedReady
  with res show ?thesis by (auto simp: loop_turn_def Let_def gave_up_finished)
qed

section \<open>Where a run starts\<close>

text \<open>
  What \<open>startReceive\<close> hands to the goroutine: metadata that passed the checks, its own open
  partial file holding exactly the bytes to resume from, and those bytes on stable storage.
\<close>

definition accepted :: "nat \<Rightarrow> nat \<Rightarrow> int \<Rightarrow> manager \<Rightarrow> bool" where
  "accepted a ino off m \<longleftrightarrow>
     (let st = rcv_heap m a; md = rcv_metadata st in
      geometry md \<and> paths_ok st \<and> owns st ino m \<and> handles m (rcv_file st) = Some (ino, nat off)
      \<and> 0 \<le> off \<and> off \<le> file_Size md \<and> file_ChunkSize md dvd off
      \<and> int (length (inodes m ino)) = off \<and> take (nat off) (synced m ino) = inodes m ino
      \<and> 0 \<le> opt_MaxReorderBufferBytes (options m) \<and> opt_MaxReorderBufferBytes (options m) < 2 ^ 62)"

lemma TotalChunks_nonneg:
  assumes "geometry md"
  shows "0 \<le> file_TotalChunks md"
proof (cases "file_Size md = 0")
  case True
  with assms show ?thesis by (simp add: geometry_def TotalChunks_def)
next
  case False
  with assms have "file_TotalChunks md = (file_Size md + file_ChunkSize md - 1) div file_ChunkSize md"
    by (simp add: geometry_def TotalChunks_ceil in_i64_def)
  moreover have "0 \<le> (file_Size md + file_ChunkSize md - 1) div file_ChunkSize md"
    using assms by (simp add: geometry_def pos_imp_zdiv_nonneg_iff)
  ultimately show ?thesis by (simp only:)
qed

lemma start_vars_ok:
  assumes acc: "accepted a ino off m"
    and same: "names m' = names m" "inodes m' = inodes m" "synced m' = synced m" "next_inode m' = next_inode m"
      "rcv_heap m' = rcv_heap m" "options m' = options m"
    and pos: "handles m' (rcv_file (rcv_heap m a)) = Some (ino, nat off)"
  shows "file_inv a ino (start_vars (rcv_metadata (rcv_heap m a)) off (inodes m ino) now) m'
    \<and> buffer_inv a (start_vars (rcv_metadata (rcv_heap m a)) off (inodes m ino) now) m'"
proof -
  define md where "md = rcv_metadata (rcv_heap m a)"
  have A: "geometry md" "0 \<le> off" "off \<le> file_Size md" "file_ChunkSize md dvd off"
      "int (length (inodes m ino)) = off" "take (nat off) (synced m ino) = inodes m ino"
    using acc by (auto simp: accepted_def Let_def md_def)
  then obtain i where i: "off = file_ChunkSize md * i" by blast
  have c: "0 < file_ChunkSize md" using A(1) by (simp add: geometry_def)
  then have i0: "0 \<le> i" using A(2) i by (simp add: zero_le_mult_iff)
  have q: "go_quot off (file_ChunkSize md) = i"
    using A(2) c i by (simp add: go_quot_nonneg)
  have b: "boundary md i = off" using A(3) i by (simp add: boundary_def mult.commute)
  have t: "i \<le> file_TotalChunks md"
  proof (rule ccontr)
    assume "\<not> i \<le> file_TotalChunks md"
    then have n: "file_TotalChunks md \<le> i - 1" "0 \<le> i - 1"
      using TotalChunks_nonneg [of md] A(1) by linarith+
    then have "boundary md (i - 1) = file_Size md" using boundary_total [OF A(1)] by blast
    then have "file_Size md \<le> (i - 1) * file_ChunkSize md" by (simp add: boundary_def min_def split: if_splits)
    also have "\<dots> < off" using c i by (simp add: algebra_simps)
    finally show False using A(3) by simp
  qed
  have s: "off \<le> int (length (synced m ino))"
    using arg_cong [OF A(6), of length] A(2,5) by simp
  have n: "nat off = length (inodes m ino)" using A(5) by linarith
  show ?thesis
    using acc A same pos q b t i0 s n
    by (auto simp: accepted_def file_inv_def buffer_inv_def start_vars_def owns_def Let_def md_def)
qed

lemma os_seek_cases:
  assumes "handles h fd = Some (i, pos)" "0 \<le> off"
  obtains (failed) msg fs where "os_seek fd off h = (Some msg, h\<lparr>faults := fs\<rparr>)"
  | (ok) fs where "os_seek fd off h = (None, h\<lparr>faults := fs, handles := (handles h)(fd \<mapsto> (i, nat off))\<rparr>)"
proof -
  obtain f fs where "fate_of h = (f, h\<lparr>faults := fs\<rparr>)" by (rule fate_of_cases)
  then show thesis using assms failed ok by (cases f) (auto simp: os_seek_def)
qed

lemma os_copy_n_cases:
  assumes "handles h fd = Some (i, 0)" "length (inodes h i) = nat n"
  obtains (failed) msg fs where "os_copy_n fd n h = (Inl msg, h\<lparr>faults := fs\<rparr>)"
  | (ok) fs where "os_copy_n fd n h = (Inr (inodes h i), h\<lparr>faults := fs, handles := (handles h)(fd \<mapsto> (i, nat n))\<rparr>)"
proof -
  obtain f fs where "fate_of h = (f, h\<lparr>faults := fs\<rparr>)" by (rule fate_of_cases)
  then show thesis using assms failed ok by (cases f) (auto simp: os_copy_n_def Let_def)
qed

lemma loop_start_cases:
  assumes acc: "accepted a ino off m"
  obtains (failed) err fs hs where "loop_start tid a off m =
      Return (receiveFailed tid (file_Name (rcv_metadata (rcv_heap m a))) err (m\<lparr>faults := fs, handles := hs\<rparr>))"
  | (ok) now fs ts where "loop_start tid a off m =
      Loop (start_vars (rcv_metadata (rcv_heap m a)) off (inodes m ino) now) (m\<lparr>faults := fs, clock := ts,
        handles := (handles m)(rcv_file (rcv_heap m a) \<mapsto> (ino, nat off))\<rparr>)"
proof -
  define fd where "fd = rcv_file (rcv_heap m a)"
  have A: "handles m fd = Some (ino, nat off)" "0 \<le> off" "int (length (inodes m ino)) = off"
    using acc by (auto simp: accepted_def Let_def fd_def)
  have n: "length (inodes m ino) = nat off" using A(3) by linarith
  show thesis
  proof (cases "off > 0")
    case False
    then have z: "off = 0" "inodes m ino = []" using A by auto
    obtain t ts where now: "time_now m = (t, m\<lparr>clock := ts\<rparr>)" by (rule time_now_cases)
    have "(handles m)(fd \<mapsto> (ino, nat off)) = handles m" using A(1) by (simp add: fun_upd_idem)
    moreover have "m\<lparr>faults := faults m, clock := ts, handles := handles m\<rparr> = m\<lparr>clock := ts\<rparr>" by simp
    ultimately show thesis using z now by (intro ok [where now = t and fs = "faults m" and ts = ts]) (simp add: loop_start_def Let_def fd_def)
  next
    case True
    show thesis
    proof (cases rule: os_seek_cases [OF A(1), of 0])
      case 2
      with True failed [where hs = "handles m"] show thesis by (simp add: loop_start_def Let_def fd_def)
    next
      case (3 fs1)
      define m1 where "m1 = m\<lparr>faults := fs1, handles := (handles m)(fd \<mapsto> (ino, 0))\<rparr>"
      have s1: "os_seek fd 0 m = (None, m1)" using 3 by (simp add: m1_def)
      have h1: "handles m1 fd = Some (ino, 0)" "length (inodes m1 ino) = nat off" using n by (simp_all add: m1_def)
      show thesis
      proof (cases rule: os_copy_n_cases [OF h1])
        case (1 msg fs)
        moreover have "m1\<lparr>faults := fs\<rparr> = m\<lparr>faults := fs, handles := handles m1\<rparr>" by (simp add: m1_def)
        ultimately show thesis using True s1 failed [where err = msg and fs = fs and hs = "handles m1"]
          by (simp add: loop_start_def Let_def fd_def)
      next
        case (2 fs2)
        define m2 where "m2 = m1\<lparr>faults := fs2, handles := (handles m1)(fd \<mapsto> (ino, nat off))\<rparr>"
        have c: "os_copy_n fd off m1 = (Inr (inodes m ino), m2)" using 2 by (simp add: m1_def m2_def)
        have h2: "handles m2 fd = Some (ino, nat off)" by (simp add: m2_def)
        show thesis
        proof (cases rule: os_seek_cases [OF h2 A(2)])
          case (1 msg fs)
          moreover have "m2\<lparr>faults := fs\<rparr> = m\<lparr>faults := fs, handles := handles m2\<rparr>"
            by (simp add: m1_def m2_def)
          ultimately show thesis using True s1 c failed [where err = msg and fs = fs and hs = "handles m2"]
            by (simp add: loop_start_def Let_def fd_def)
        next
          case (2 fs3)
          define m3 where "m3 = m2\<lparr>faults := fs3, handles := (handles m2)(fd \<mapsto> (ino, nat off))\<rparr>"
          have s3: "os_seek fd off m2 = (None, m3)" using 2 by (simp add: m3_def)
          obtain t ts where now: "time_now m3 = (t, m3\<lparr>clock := ts\<rparr>)" by (rule time_now_cases)
          have "m3\<lparr>clock := ts\<rparr> = m\<lparr>faults := fs3, clock := ts, handles := (handles m)(fd \<mapsto> (ino, nat off))\<rparr>"
            by (simp add: m1_def m2_def m3_def)
          with True s1 c s3 now ok [where now = t and fs = fs3 and ts = ts] show thesis
            by (simp add: loop_start_def Let_def fd_def)
        qed
      qed
    qed simp
  qed
qed

lemma loop_start_ok:
  assumes acc: "accepted a ino off m" and res: "loop_start tid a off m = Loop L m'"
  shows "file_inv a ino L m' \<and> buffer_inv a L m' \<and> rcv_heap m' = rcv_heap m \<and> sent m' = sent m
    \<and> options m' = options m \<and> end_msg L = None \<and> expectedOffset L = off \<and> lastDurable L = off"
proof (cases rule: loop_start_cases [OF acc, of tid])
  case (2 now fs ts)
  with res have L: "L = start_vars (rcv_metadata (rcv_heap m a)) off (inodes m ino) now"
    and m': "m' = m\<lparr>faults := fs, clock := ts, handles := (handles m)(rcv_file (rcv_heap m a) \<mapsto> (ino, nat off))\<rparr>"
    by simp_all
  then show ?thesis
    using start_vars_ok [OF acc, of m' now] by (simp add: start_vars_def)
qed (use res in simp)

section \<open>The invariant of a run\<close>

text \<open>Counted from the state \<open>m0\<close> the goroutine starts in.\<close>

definition run_inv :: "string \<Rightarrow> nat \<Rightarrow> nat \<Rightarrow> manager \<Rightarrow> run_state \<Rightarrow> bool" where
  "run_inv tid a ino m0 s \<longleftrightarrow>
     (case s of
        Ended m \<Rightarrow> True
      | Running L m \<Rightarrow> file_inv a ino L m \<and> buffer_inv a L m
          \<and> rcv_metadata (rcv_heap m a) = rcv_metadata (rcv_heap m0 a)
          \<and> (\<exists>cs. acks_of tid m = acks_of tid m0 @ cs
               \<and> (\<forall>c\<in>set cs. running_control (rcv_metadata (rcv_heap m0 a)) L c)))"

definition run_init :: "string \<Rightarrow> nat \<Rightarrow> nat \<Rightarrow> manager \<Rightarrow> run_state \<Rightarrow> bool" where
  "run_init tid a ino m0 s \<longleftrightarrow>
     (\<exists>off L m. s = Running L m \<and> accepted a ino off m0 \<and> loop_start tid a off m0 = Loop L m)"

lemma run_inv_init: "run_init tid a ino m0 s \<Longrightarrow> run_inv tid a ino m0 s"
  by (auto simp: run_init_def run_inv_def acks_of_def dest!: loop_start_ok)

lemma running_control_later:
  "running_control md L c \<Longrightarrow> lastDurable L \<le> lastDurable L' \<Longrightarrow> expectedOffset L \<le> expectedOffset L' \<Longrightarrow>
   running_control md L' c"
  by (auto simp: running_control_def)

lemma run_inv_turn:
  assumes inv: "run_inv tid a ino m0 (Running L m)" and res: "loop_turn tid a k L m = Loop L' m'"
  shows "run_inv tid a ino m0 (Running L' m')"
proof -
  define md where "md = rcv_metadata (rcv_heap m0 a)"
  have I: "file_inv a ino L m" "buffer_inv a L m" "rcv_metadata (rcv_heap m a) = md"
    using inv by (simp_all add: run_inv_def md_def)
  obtain cs where cs: "acks_of tid m = acks_of tid m0 @ cs" "\<forall>c\<in>set cs. running_control md L c"
    using inv by (auto simp: run_inv_def md_def)
  note T = loop_turn_ok [OF I(1,2) res, simplified]
  then obtain ds where ds: "sent m' = sent m @ ds" "\<forall>c\<in>set ds. running_control md L' c"
    using I(3) by (auto simp: ran_def)
  define es where "es = filter (\<lambda>c. ctl_TransferID c = tid
      \<and> (ctl_Type c = ''file_ack'' \<or> ctl_Type c = ''file_progress'')) ds"
  have "acks_of tid m' = acks_of tid m0 @ (cs @ es)"
    using cs(1) ds(1) by (simp add: acks_of_def es_def)
  moreover have "\<forall>c\<in>set (cs @ es). running_control md L' c"
    using cs(2) ds(2) T by (auto simp: es_def intro: running_control_later)
  ultimately have "\<exists>cs. acks_of tid m' = acks_of tid m0 @ cs \<and> (\<forall>c\<in>set cs. running_control md L' c)"
    by blast
  then show ?thesis using T I(3) by (simp add: run_inv_def md_def)
qed

lemma file_inv_others:
  assumes inv: "file_inv a ino L m" and o: "others tid a ino m m'"
  shows "file_inv a ino L m'"
proof -
  define st where "st = rcv_heap m a"
  obtain es d where st': "rcv_heap m' a = st\<lparr>rcv_events := es, rcv_done := d\<rparr>"
    using o by (auto simp: others_def Let_def st_def)
  have O: "handles m' (rcv_file st) = handles m (rcv_file st) \<or> handles m' (rcv_file st) = None"
      "inodes m' ino = inodes m ino" "owns st ino m'"
      "synced m' ino = synced m ino \<or> synced m' ino = inodes m ino"
    using o by (simp_all add: others_def Let_def st_def)
  have I: "handles m (rcv_file st) = Some (ino, length (hashed L)) \<or> handles m (rcv_file st) = None"
      "inodes m ino = hashed L" "int (length (hashed L)) = expectedOffset L" "lastDurable L \<le> expectedOffset L"
      "take (nat (lastDurable L)) (synced m ino) = take (nat (lastDurable L)) (hashed L)"
      "lastDurable L \<le> int (length (synced m ino))"
    using inv by (simp_all add: file_inv_def Let_def st_def)
  have "take (nat (lastDurable L)) (synced m' ino) = take (nat (lastDurable L)) (hashed L)
      \<and> lastDurable L \<le> int (length (synced m' ino))"
    using O(4) I by auto
  moreover have "handles m' (rcv_file st) = Some (ino, length (hashed L)) \<or> handles m' (rcv_file st) = None"
    using O(1) I(1) by auto
  moreover have "owns (rcv_heap m' a) ino m'" using O(3) by (simp add: st' owns_def)
  ultimately show ?thesis
    using inv O(2) by (simp add: file_inv_def Let_def st' paths_ok_def flip: st_def)
qed

lemma buffer_inv_others:
  assumes "buffer_inv a L m" and o: "others tid a ino m m'"
  shows "buffer_inv a L m'"
proof -
  have "rcv_metadata (rcv_heap m' a) = rcv_metadata (rcv_heap m a)" "options m' = options m"
    using o by (auto simp: others_def Let_def)
  then show ?thesis using assms(1) by (auto simp: buffer_inv_def Let_def)
qed

lemma run_inv_step:
  assumes "recv_step tid a ino s t" "run_inv tid a ino m0 s"
  shows "run_inv tid a ino m0 t"
  using assms
proof cases
  case (turn k L m L' m')
  then show ?thesis using assms(2) run_inv_turn by blast
next
  case (stop k L m m')
  then show ?thesis by (simp add: run_inv_def)
next
  case o: (other m m' L)
  have "acks_of tid m' = acks_of tid m" "rcv_metadata (rcv_heap m' a) = rcv_metadata (rcv_heap m a)"
    using o(3) by (auto simp: others_def Let_def)
  moreover have "file_inv a ino L m'" "buffer_inv a L m'"
    using assms(2) o(1) file_inv_others [OF _ o(3)] buffer_inv_others [OF _ o(3)] by (simp_all add: run_inv_def)
  ultimately show ?thesis using assms(2) o(1,2) by (simp add: run_inv_def)
qed

interpretation receiving: transition_system "run_init tid a ino m0" "recv_step tid a ino" "run_inv tid a ino m0"
  for tid a ino m0
  by unfold_locales (auto intro: run_inv_init run_inv_step)

end
