(* ===== verification/Receive_Safety.thy ===== *)
theory Receive_Safety
  imports Receive_Run
begin

text \<open>
  What a receiver promises, whatever the system calls answer and however its turns are
  interleaved with the other goroutines; and one concrete transfer of three bytes in two
  chunks, the second arriving first, on which the statements are tried.
\<close>

section \<open>A concrete transfer\<close>

fun run_turns :: "string \<Rightarrow> nat \<Rightarrow> nat \<Rightarrow> recv_loop \<Rightarrow> manager \<Rightarrow> loop_result" where
  "run_turns tid a 0 L m = Loop L m"
| "run_turns tid a (Suc n) L m =
     (if rcv_events (rcv_heap m a) = [] then Loop L m
      else (case loop_turn tid a EventReady L m of
              Loop L' m' \<Rightarrow> run_turns tid a n L' m'
            | Return m' \<Rightarrow> Return m'))"

lemma run_turns_reach:
  "run_turns tid a n L m = Loop L' m' \<Longrightarrow> (recv_step tid a ino)\<^sup>*\<^sup>* (Running L m) (Running L' m')"
proof (induction n arbitrary: L m)
  case (Suc n)
  show ?case
  proof (cases "rcv_events (rcv_heap m a) = []")
    case True
    with Suc.prems show ?thesis by simp
  next
    case False
    with Suc.prems obtain L1 m1 where t: "loop_turn tid a EventReady L m = Loop L1 m1"
        and r: "run_turns tid a n L1 m1 = Loop L' m'"
      by (auto split: loop_result.splits)
    have "recv_step tid a ino (Running L m) (Running L1 m1)"
      using False t by (intro recv_step.turn [of EventReady]) (simp add: case_ready_def)
    then show ?thesis using Suc.IH [OF r] by (rule converse_rtranclp_into_rtranclp)
  qed
qed simp

definition demo_file :: file_metadata where
  "demo_file = zero_file\<lparr>file_Name := ''f'', file_Size := 3, file_ChunkSize := 2, file_TotalChunks := 2,
     file_SHA256 := ''010203'', file_CommitAck := True, file_ProgressAck := True\<rparr>"

definition demo_chunk :: "int \<Rightarrow> int \<Rightarrow> bytes \<Rightarrow> receive_event" where
  "demo_chunk i off d = \<lparr>rev_header = Some \<lparr>hdr_TransferID = ''t'', hdr_Index = i, hdr_Offset = off,
      hdr_Length = int (length d)\<rparr>, rev_data = d, rev_end = None, rev_cancel = None\<rparr>"

definition demo_end :: receive_event where
  "demo_end = \<lparr>rev_header = None, rev_data = [], rev_end = Some (new_control ''file_end'' ''t''), rev_cancel = None\<rparr>"

definition demo_state :: receive_state where
  "demo_state = \<lparr>rcv_metadata = demo_file, rcv_path = ''d/f'', rcv_partPath = ''d/f.quickdrop.part'',
     rcv_metaPath = ''d/f.quickdrop.json'', rcv_file = 0,
     rcv_events = [demo_chunk 1 2 [3], demo_chunk 0 0 [1, 2], demo_end], rcv_done = False\<rparr>"

definition demo_options :: transfer_options where
  "demo_options = \<lparr>opt_ReceiveDir = ''d'', opt_AutoAccept = True, opt_AcceptFile = None,
     opt_Overwrite = False, opt_MaxFileSize = 0, opt_BandwidthLimitBPS = 0, opt_DurableAckInterval = 0,
     opt_MaxReorderBufferBytes = 0, opt_ReceiveCompletionTimeout = 0, opt_OnEvent = True\<rparr>"

text \<open>The digest function is a parameter of the model; here it is the identity.\<close>

definition demo_host :: host where
  "demo_host = \<lparr>names = [''d/f.quickdrop.part'' \<mapsto> Regular 0], inodes = (\<lambda>_. []), synced = (\<lambda>_. []),
     handles = [0 \<mapsto> (0, 0)], next_inode = 1, next_handle = 1, faults = [], clock = [0, 200000000],
     free_blocks = 100, block_size = 4096, sha256 = (\<lambda>b. b), mtimes = (\<lambda>_. 0), mime_types = (\<lambda>_. [])\<rparr>"

definition demo_manager :: manager where
  "demo_manager = (NewTransferManager 65536 demo_options demo_host)
     \<lparr>receivers := [(''t'', 0)], rcv_heap := (\<lambda>_. demo_state), next_rcv := 1\<rparr>"

definition demo_at :: "manager \<Rightarrow> nat \<Rightarrow> loop_result" where
  "demo_at M n = (case loop_start ''t'' 0 0 M of
     Loop L m \<Rightarrow> run_turns ''t'' 0 n L m | Return m \<Rightarrow> Return m)"

definition demo_loop :: "manager \<Rightarrow> nat \<Rightarrow> recv_loop" where
  "demo_loop M n = (case demo_at M n of Loop L m \<Rightarrow> L | Return m \<Rightarrow> start_vars zero_file 0 [] 0)"

definition demo_mgr :: "manager \<Rightarrow> nat \<Rightarrow> manager" where
  "demo_mgr M n = (case demo_at M n of Loop L m \<Rightarrow> m | Return m \<Rightarrow> m)"

lemma demo_accepted: "accepted 0 0 0 demo_manager"
  by (simp add: accepted_def demo_manager_def demo_host_def demo_state_def demo_file_def geometry_def
      paths_ok_def owns_def NewTransferManager_def host.extend_def manager.fields_def default_options_def
      demo_options_def zero_file_def maxReorderBufferBytes_def TotalChunks_def i64_def go_quot_def)

lemma demo_running:
  assumes "accepted 0 0 0 M" "case demo_at M n of Loop L m \<Rightarrow> True | Return m \<Rightarrow> False"
  shows "\<exists>s. run_init ''t'' 0 0 M s \<and> (recv_step ''t'' 0 0)\<^sup>*\<^sup>* s (Running (demo_loop M n) (demo_mgr M n))"
proof -
  obtain L m where s: "loop_start ''t'' 0 0 M = Loop L m"
      and r: "run_turns ''t'' 0 n L m = Loop (demo_loop M n) (demo_mgr M n)"
    using assms(2) by (auto simp: demo_at_def demo_loop_def demo_mgr_def split: loop_result.splits)
  have "run_init ''t'' 0 0 M (Running L m)"
    using s assms(1) by (auto simp: run_init_def)
  with run_turns_reach [OF r] show ?thesis by blast
qed

lemma demo_ready: "case demo_at demo_manager 2 of Loop L m \<Rightarrow> True | Return m \<Rightarrow> False"
  by code_simp

lemma boundary_mono: "geometry md \<Longrightarrow> i \<le> j \<Longrightarrow> boundary md i \<le> boundary md j"
  unfolding boundary_def geometry_def by (intro min.mono order_refl mult_right_mono) simp_all

section \<open>Properties\<close>







text \<open>C6: The reorder buffer holds at most \<open>MaxReorderBufferBytes\<close> bytes, and the counter
  \<open>pendingBytes\<close> is their exact number; every buffered chunk lies at its place in the part of
  the file not yet written.\<close>

theorem reorder_buffer_bounded:
  assumes "run_init tid a ino m0 s" and "(recv_step tid a ino)\<^sup>*\<^sup>* s (Running L m)"
  shows "pendingBytes L = held snd (pending L) \<and> held snd (pending L) \<le> opt_MaxReorderBufferBytes (options m)
    \<and> (\<forall>i h d. map_get (pending L) i = Some (h, d) \<longrightarrow> expectedOffset L \<le> hdr_Offset h
          \<and> hdr_Offset h + int (length d) \<le> file_Size (rcv_metadata (rcv_heap m a)))"
proof -
  have inv: "run_inv tid a ino m0 (Running L m)"
    using receiving.inv_reachable assms by blast
  then have B: "buffer_inv a L m" and F: "file_inv a ino L m" by (simp_all add: run_inv_def)
  have "expectedOffset L \<le> hdr_Offset h \<and> hdr_Offset h + int (length d) \<le> file_Size (rcv_metadata (rcv_heap m a))"
    if "map_get (pending L) i = Some (h, d)" for i h d
  proof -
    let ?md = "rcv_metadata (rcv_heap m a)"
    have "expectedIndex L \<le> i" "hdr_Offset h = boundary ?md i"
        "int (length d) = boundary ?md (i + 1) - boundary ?md i"
      using B that by (auto simp: buffer_inv_def Let_def)
    moreover have "expectedOffset L = boundary ?md (expectedIndex L)" "geometry ?md"
      using F by (simp_all add: file_inv_def Let_def)
    ultimately show ?thesis
      using boundary_mono [of ?md "expectedIndex L" i] boundary_le [of ?md "i + 1"] by simp
  qed
  then show ?thesis using B by (simp add: buffer_inv_def Let_def)
qed

theorem reorder_buffer_bounded_witness:
  "held snd (pending (demo_loop demo_manager 1)) \<le> opt_MaxReorderBufferBytes (options (demo_mgr demo_manager 1)) \<and> pendingBytes (demo_loop demo_manager 1) = 1"
proof -
  have r: "case demo_at demo_manager 1 of Loop L m \<Rightarrow> pendingBytes L = 1 | Return m \<Rightarrow> False" by code_simp
  then have "case demo_at demo_manager 1 of Loop L m \<Rightarrow> True | Return m \<Rightarrow> False" by (simp split: loop_result.splits)
  then obtain s where s: "run_init ''t'' 0 0 demo_manager s"
      "(recv_step ''t'' 0 0)\<^sup>*\<^sup>* s (Running (demo_loop demo_manager 1) (demo_mgr demo_manager 1))"
    using demo_running [OF demo_accepted] by blast
  show ?thesis using reorder_buffer_bounded [OF s] r by (auto simp: demo_loop_def split: loop_result.splits)
qed

end
