(* ===== verification/Receive_Delivery.thy ===== *)
theory Receive_Delivery
  imports Receive_Safety
begin

text \<open>
  The receive loop delivers: when no system call fails, the chunks of a content may arrive in
  any order, with the end of the file announced at any point among them, and the loop ends with
  exactly that content under the destination's name.
\<close>

section \<open>Runs without faults\<close>

definition calm :: "receive_state \<Rightarrow> manager \<Rightarrow> bool" where
  "calm st m \<longleftrightarrow> faults m = [] \<and> (\<forall>d. names m (rcv_path st) \<noteq> Some (Dir d))
     \<and> (\<forall>d. names m (rcv_metaPath st) \<noteq> Some (Dir d)) \<and> (\<forall>d. names m (tmp_path st) \<noteq> Some (Dir d))"

lemma sendControl_calm: "faults m = [] \<Longrightarrow> snd (sendControl c m) = m\<lparr>sent := sent m @ [c]\<rparr>"
  by (simp add: sendControl_fine)

lemma os_rename_calm:
  "faults h = [] \<Longrightarrow> names h p = Some e \<Longrightarrow> (\<And>d. names h q \<noteq> Some (Dir d)) \<Longrightarrow>
   os_rename p q h = (None, h\<lparr>names := ((names h)(p := None))(q \<mapsto> e)\<rparr>)"
  by (auto simp: os_rename_def fate_of_fine split: option.split entry.split)

lemma writePartialMetadata_calm:
  assumes "calm st m" "owns st ino m" "paths_ok st"
  shows "\<exists>m'. writePartialMetadata (rcv_metaPath st) md m = (None, m') \<and> calm st m'"
proof -
  note dist = paths_distinct [OF assms(3)]
  have f: "faults m = []" and nd: "\<And>d. names m (tmp_path st) \<noteq> Some (Dir d)"
      "\<And>d. names m (rcv_metaPath st) \<noteq> Some (Dir d)" "\<And>d. names m (rcv_path st) \<noteq> Some (Dir d)"
    using assms(1) by (simp_all add: calm_def)
  have plain: "\<And>q. names m (tmp_path st) \<noteq> Some (Symlink q)" using assms(2) by (simp add: owns_def)
  have fol: "follow 40 (names m) (tmp_path st) = Some (tmp_path st)" using plain by (rule follow_40)
  define data where "data = to_bytes (json_text (partial_json md))"
  obtain m1 i where w: "os_write_file (tmp_path st) data m = (None, m1)"
      and m1: "faults m1 = []" "names m1 (tmp_path st) = Some (Regular i)"
        "\<And>p. p \<noteq> tmp_path st \<Longrightarrow> names m1 p = names m p"
  proof (cases "names m (tmp_path st)")
    case None
    then show thesis
      by (intro that [of "m\<lparr>names := (names m)(tmp_path st \<mapsto> Regular (next_inode m)),
          inodes := (inodes m)(next_inode m := data), synced := (synced m)(next_inode m := []),
          next_inode := Suc (next_inode m)\<rparr>" "next_inode m"])
         (simp_all add: os_write_file_def fol fate_of_fine [OF f] f)
  next
    case (Some e)
    then obtain i where "e = Regular i" using plain nd(1) by (cases e) auto
    with Some show thesis
      by (intro that [of "m\<lparr>inodes := (inodes m)(i := data)\<rparr>" i])
         (simp_all add: os_write_file_def fol fate_of_fine [OF f] f)
  qed
  have d1: "names m1 (rcv_metaPath st) \<noteq> Some (Dir d)" for d
    using m1(3) dist nd(2) by auto
  define m2 where "m2 = m1\<lparr>names := ((names m1)(tmp_path st := None))(rcv_metaPath st \<mapsto> Regular i)\<rparr>"
  have r: "os_rename (tmp_path st) (rcv_metaPath st) m1 = (None, m2)"
    unfolding m2_def using m1(1,2) d1 by (rule os_rename_calm)
  have "calm st m2" using m1 dist nd(3) by (simp add: calm_def m2_def)
  with w r show ?thesis by (simp add: writePartialMetadata_def Let_def replaceFile_def data_def)
qed

lemma checkpoint_calm:
  assumes inv: "file_inv a ino L m" and c: "calm (rcv_heap m a) m"
    and h: "handles m (rcv_file (rcv_heap m a)) \<noteq> None"
  shows "\<exists>m'. checkpoint tid a L m = (None, L\<lparr>lastDurable := expectedOffset L\<rparr>, m') \<and> calm (rcv_heap m a) m'"
proof -
  define st where "st = rcv_heap m a"
  have I: "paths_ok st" "owns st ino m" "handles m (rcv_file st) = Some (ino, length (hashed L))"
    using inv h by (auto simp: file_inv_def st_def Let_def)
  have f: "faults m = []" using c by (simp add: calm_def)
  obtain t1 ts1 where now1: "time_now m = (t1, m\<lparr>clock := ts1\<rparr>)" by (rule time_now_cases)
  define m1 where "m1 = m\<lparr>clock := ts1\<rparr>"
  define m2 where "m2 = m1\<lparr>synced := (synced m)(ino := inodes m ino)\<rparr>"
  have sync: "os_sync (rcv_file st) m1 = (None, m2)"
    using f I(3) by (simp add: os_sync_def m1_def m2_def fate_of_fine)
  obtain t2 ts2 where now2: "time_now m2 = (t2, m2\<lparr>clock := ts2\<rparr>)" by (rule time_now_cases)
  define m3 where "m3 = m2\<lparr>clock := ts2\<rparr>"
  have "calm st m3" "owns st ino m3"
    using c I(2) by (simp_all add: calm_def owns_def m1_def m2_def m3_def st_def)
  then obtain m4 where wp: "writePartialMetadata (rcv_metaPath st)
      \<lparr>part_File = rcv_metadata st, part_ReceivedBytes = expectedOffset L\<rparr> m3 = (None, m4)" "calm st m4"
    using writePartialMetadata_calm I(1) by blast
  have e: "calm st (emit ev m4)" "faults (emit ev m4) = []" for ev
    using wp(2) by (simp_all add: calm_def emit_def)
  have s: "calm st (snd (sendControl ct (emit ev m4)))" for ev ct
    unfolding sendControl_calm [OF e(2)] using e(1) by (simp add: calm_def)
  show ?thesis
    using now1 sync now2 wp(1) e s
    by (simp add: checkpoint_def Let_def m1_def [symmetric] m3_def [symmetric] st_def [symmetric])
qed

lemma report_progress_calm:
  assumes "calm st m" "report_progress tid a L m = (L', m')"
  shows "calm st m' \<and> pending L' = pending L \<and> hashed L' = hashed L \<and> expectedIndex L' = expectedIndex L
    \<and> expectedOffset L' = expectedOffset L \<and> end_msg L' = end_msg L \<and> lastDurable L' = lastDurable L"
proof -
  define ev where "ev = zero_event\<lparr>evt_Type := ''progress'', evt_TransferID := tid,
      evt_Direction := ''receive'', evt_Name := file_Name (rcv_metadata (rcv_heap m a)),
      evt_Transferred := expectedOffset L, evt_Size := file_Size (rcv_metadata (rcv_heap m a)),
      evt_Path := rcv_path (rcv_heap m a)\<rparr>"
  obtain now ts where now: "time_now (emit ev m) = (now, (emit ev m)\<lparr>clock := ts\<rparr>)" by (rule time_now_cases)
  have "report_progress tid a L m = (if due_for_progress (rcv_heap m a) L now then
           (L\<lparr>lastProgressAck := expectedOffset L, lastProgressAckAt := now\<rparr>,
            snd (sendControl (ack_control (progress_kind (rcv_heap m a)) tid (expectedOffset L))
              ((emit ev m)\<lparr>clock := ts\<rparr>)))
         else (L, (emit ev m)\<lparr>clock := ts\<rparr>))"
    using now by (simp add: report_progress_def Let_def ev_def)
  note r = this [unfolded assms(2)]
  have c: "calm st ((emit ev m)\<lparr>clock := ts\<rparr>)" using assms(1) by (simp add: calm_def emit_def)
  then have "calm st (snd (sendControl ct ((emit ev m)\<lparr>clock := ts\<rparr>)))" for ct
    by (subst sendControl_calm) (auto simp: calm_def)
  with r c show ?thesis by (auto split: if_splits)
qed

lemma write_chunk_calm:
  assumes inv: "file_inv a ino L m" "buffer_inv a L m" and c: "calm (rcv_heap m a) m"
    and fd: "handles m (rcv_file (rcv_heap m a)) \<noteq> None"
    and nxt: "map_get (pending L) (expectedIndex L) = Some (h, d)"
  shows "\<exists>L' m'. write_chunk tid a (h, d) L m = Loop L' m' \<and> calm (rcv_heap m a) m'
    \<and> handles m' (rcv_file (rcv_heap m a)) \<noteq> None \<and> hashed L' = hashed L @ d
    \<and> pending L' = map_del (expectedIndex L) (pending L) \<and> expectedIndex L' = expectedIndex L + 1
    \<and> end_msg L' = end_msg L"
proof -
  define st where "st = rcv_heap m a"
  have f: "faults m = []" using c by (simp add: calm_def)
  have fd': "handles m (rcv_file st) = Some (ino, length (inodes m ino))"
    using inv(1) fd by (auto simp: file_inv_def Let_def st_def)
  define m1 where "m1 = m\<lparr>faults := faults m, inodes := (inodes m)(ino := inodes m ino @ d),
        handles := (handles m)(rcv_file (rcv_heap m a) \<mapsto> (ino, length (inodes m ino) + length d))\<rparr>"
  have w: "os_write (rcv_file st) d m = (None, m1)"
    using fd' f by (simp add: os_write_def fate_of_fine write_at_end m1_def st_def)
  define L2 where "L2 = written d L"
  note W = written_ok [OF inv nxt m1_def, folded L2_def]
  have off: "hdr_Offset h = expectedOffset L"
    using inv nxt by (auto simp: file_inv_def buffer_inv_def Let_def)
  have h1: "rcv_heap m1 = rcv_heap m" "calm st m1" "handles m1 (rcv_file st) \<noteq> None"
    using c by (simp_all add: m1_def calm_def st_def)
  have L2: "hashed L2 = hashed L @ d" "pending L2 = map_del (expectedIndex L) (pending L)" "end_msg L2 = end_msg L"
    by (simp_all add: L2_def written_def)
  have fin: "\<exists>L' m'. (case report_progress tid a L3 m2 of (L4, m3) \<Rightarrow> Loop L4 m3) = Loop L' m' \<and> calm st m'
      \<and> handles m' (rcv_file st) \<noteq> None \<and> hashed L' = hashed L @ d
      \<and> pending L' = map_del (expectedIndex L) (pending L) \<and> expectedIndex L' = expectedIndex L + 1
      \<and> end_msg L' = end_msg L"
    if "file_inv a ino L3 m2" "calm st m2" "rcv_heap m2 = rcv_heap m" "handles m2 (rcv_file st) \<noteq> None"
      "hashed L3 = hashed L2" "pending L3 = pending L2" "expectedIndex L3 = expectedIndex L2" "end_msg L3 = end_msg L2"
    for L3 m2
  proof -
    obtain L4 m3 where r: "report_progress tid a L3 m2 = (L4, m3)" by fastforce
    have "handles m3 = handles m2" using report_progress_ok [OF that(1) r] by (simp add: keeps_def)
    then show ?thesis using report_progress_calm [OF that(2) r] that L2 W r by simp
  qed
  show ?thesis
  proof (cases "i64 (expectedOffset L2 - lastDurable L2) \<ge> opt_DurableAckInterval (options m1)
                 \<or> expectedOffset L2 = file_Size (rcv_metadata st)")
    case False
    have "write_chunk tid a (h, d) L m = (case report_progress tid a L2 m1 of (L4, m3) \<Rightarrow> Loop L4 m3)"
      using off w False by (auto simp: write_chunk_eq L2_def st_def)
    then show ?thesis using fin [of L2 m1] W h1 by (simp add: st_def)
  next
    case True
    obtain m2 where cp: "checkpoint tid a L2 m1 = (None, L2\<lparr>lastDurable := expectedOffset L2\<rparr>, m2)"
        and c2: "calm st m2"
      using checkpoint_calm [of a ino L2 m1 tid] W h1 by (auto simp: st_def)
    have K: "file_inv a ino (L2\<lparr>lastDurable := expectedOffset L2\<rparr>) m2" "handles m2 = handles m1"
        "rcv_heap m2 = rcv_heap m"
      using checkpoint_ok [OF _ cp] W h1 by (auto simp: keeps_def same_tables_def)
    have "write_chunk tid a (h, d) L m
        = (case report_progress tid a (L2\<lparr>lastDurable := expectedOffset L2\<rparr>) m2 of (L4, m3) \<Rightarrow> Loop L4 m3)"
      using off w True cp by (auto simp: write_chunk_eq L2_def st_def)
    then show ?thesis using fin [of "L2\<lparr>lastDurable := expectedOffset L2\<rparr>" m2] K c2 h1 by (simp add: st_def)
  qed
qed

section \<open>The loop and the content\<close>

text \<open>Chunk \<open>i\<close> of the content \<open>c\<close>.\<close>

definition slice :: "file_metadata \<Rightarrow> bytes \<Rightarrow> int \<Rightarrow> bytes" where
  "slice md c i = take (nat (boundary md (i + 1) - boundary md i)) (drop (nat (boundary md i)) c)"

text \<open>
  The loop has taken the chunks \<open>S\<close> of \<open>c\<close>: the ones below \<open>expectedIndex\<close> are in the file, the
  others in the buffer.
\<close>

definition consistent :: "file_metadata \<Rightarrow> bytes \<Rightarrow> int set \<Rightarrow> recv_loop \<Rightarrow> bool" where
  "consistent md c S L \<longleftrightarrow> hashed L = take (nat (expectedOffset L)) c
     \<and> (\<forall>i. map_get (pending L) i \<noteq> None \<longleftrightarrow> i \<in> S \<and> expectedIndex L \<le> i)
     \<and> (\<forall>i h d. map_get (pending L) i = Some (h, d) \<longrightarrow> d = slice md c i)
     \<and> {0..<expectedIndex L} \<subseteq> S"

lemma take_slice:
  assumes "geometry md" "0 \<le> i" "int (length c) = file_Size md"
  shows "take (nat (boundary md i)) c @ slice md c i = take (nat (boundary md (i + 1))) c"
proof -
  have b: "0 \<le> boundary md i" "boundary md i \<le> boundary md (i + 1)" "boundary md (i + 1) \<le> file_Size md"
    using assms by (auto simp: boundary_nonneg boundary_le boundary_mono)
  then have "nat (boundary md (i + 1)) = nat (boundary md i) + nat (boundary md (i + 1) - boundary md i)"
    by linarith
  then show ?thesis unfolding slice_def
    by (simp add: take_add)
qed

lemma consistent_written:
  assumes con: "consistent md c S L" and g: "geometry md" "0 \<le> expectedIndex L" "int (length c) = file_Size md"
    and off: "expectedOffset L = boundary md (expectedIndex L)"
    and nxt: "map_get (pending L) (expectedIndex L) = Some (h, d)"
    and L': "hashed L' = hashed L @ d" "pending L' = map_del (expectedIndex L) (pending L)"
      "expectedIndex L' = expectedIndex L + 1" "expectedOffset L' = boundary md (expectedIndex L')"
  shows "consistent md c S L'"
proof -
  have d: "d = slice md c (expectedIndex L)" "expectedIndex L \<in> S"
    using con nxt unfolding consistent_def by (blast, metis option.distinct(1))
  have "hashed L' = take (nat (expectedOffset L')) c"
    using con take_slice [OF g] by (simp add: consistent_def L' d(1) off)
  moreover have "(map_get (pending L') i \<noteq> None) = (i \<in> S \<and> expectedIndex L' \<le> i)" for i
    using con by (auto simp: consistent_def L')
  moreover have "\<forall>i h d. map_get (pending L') i = Some (h, d) \<longrightarrow> d = slice md c i"
    using con by (auto simp: consistent_def L')
  moreover have "{0..<expectedIndex L'} \<subseteq> S"
  proof
    fix x assume "x \<in> {0..<expectedIndex L'}"
    then have "x \<in> {0..<expectedIndex L} \<or> x = expectedIndex L" by (auto simp: L')
    then show "x \<in> S" using con d(2) by (auto simp: consistent_def)
  qed
  ultimately show ?thesis unfolding consistent_def by blast
qed

lemma drain_calm:
  "file_inv a ino L m \<Longrightarrow> buffer_inv a L m \<Longrightarrow> calm (rcv_heap m a) m \<Longrightarrow>
   handles m (rcv_file (rcv_heap m a)) \<noteq> None \<Longrightarrow> consistent (rcv_metadata (rcv_heap m a)) c S L \<Longrightarrow>
   int (length c) = file_Size (rcv_metadata (rcv_heap m a)) \<Longrightarrow>
   \<exists>L' m'. drain tid a L m = Loop L' m' \<and> calm (rcv_heap m a) m'
     \<and> handles m' (rcv_file (rcv_heap m a)) \<noteq> None \<and> consistent (rcv_metadata (rcv_heap m a)) c S L'
     \<and> expectedIndex L' \<notin> S \<and> end_msg L' = end_msg L"
proof (induction tid a L m rule: drain.induct)
  case (1 tid a L m)
  define st where "st = rcv_heap m a"
  show ?case
  proof (cases "map_get (pending L) (expectedIndex L)")
    case None
    then have "expectedIndex L \<notin> S" using "1.prems"(5) unfolding consistent_def by blast
    then show ?thesis using None "1.prems" by (subst drain.simps) simp
  next
    case (Some cd)
    obtain h d where cd: "cd = (h, d)" by (cases cd)
    note nxt = Some [unfolded cd]
    obtain L1 m1 where w: "write_chunk tid a (h, d) L m = Loop L1 m1" and W: "calm st m1"
        "handles m1 (rcv_file st) \<noteq> None" "hashed L1 = hashed L @ d"
        "pending L1 = map_del (expectedIndex L) (pending L)" "expectedIndex L1 = expectedIndex L + 1"
        "end_msg L1 = end_msg L"
      using write_chunk_calm [OF "1.prems"(1-4) nxt, of tid] unfolding st_def by blast
    have t: "turn_ok a ino L m (Loop L1 m1)"
      using write_chunk_ok [OF "1.prems"(1,2) nxt, of tid] w by simp
    then have T: "file_inv a ino L1 m1" "buffer_inv a L1 m1" "rcv_heap m1 = rcv_heap m"
      by (auto simp: turn_ok_def Let_def same_tables_def)
    have con: "consistent (rcv_metadata st) c S L1"
    proof (rule consistent_written [OF "1.prems"(5)[folded st_def] _ _ "1.prems"(6)[folded st_def] _ nxt W(3,4,5)])
      show "geometry (rcv_metadata st)" "0 \<le> expectedIndex L"
        "expectedOffset L = boundary (rcv_metadata st) (expectedIndex L)"
        using "1.prems"(1) by (simp_all add: file_inv_def Let_def st_def)
      show "expectedOffset L1 = boundary (rcv_metadata st) (expectedIndex L1)"
        using T(1,3) by (simp add: file_inv_def Let_def st_def)
    qed
    obtain L' m' where "drain tid a L1 m1 = Loop L' m'" "calm st m'" "handles m' (rcv_file st) \<noteq> None"
        "consistent (rcv_metadata st) c S L'" "expectedIndex L' \<notin> S" "end_msg L' = end_msg L1"
      using "1.IH" [OF Some w [folded cd] T(1,2)] W con T(3) "1.prems"(6) by (auto simp: st_def)
    then show ?thesis using Some cd w W(6) by (subst drain.simps) (simp add: st_def)
  qed
qed

section \<open>The buffer never needs more than the rest of the file\<close>

lemma sum_steps: "k \<le> n \<Longrightarrow> (\<Sum>i\<in>{k..<n}. b (i + 1) - b i) = b n - (b k :: int)" for k n :: int
proof (induction n rule: int_ge_induct)
  case (step n)
  then have "{k..<n + 1} = insert n {k..<n}" by auto
  with step show ?case by simp
qed simp

lemma held_steps:
  fixes b :: "int \<Rightarrow> int"
  assumes "map_ok M" "k \<le> n" "\<And>i j. i \<le> j \<Longrightarrow> b i \<le> b j"
    and M: "\<And>i v. (i, v) \<in> set M \<Longrightarrow> k \<le> i \<and> i < n \<and> int (length (f v)) = b (i + 1) - b i"
  shows "held f M \<le> b n - b k"
proof -
  have "held f M = (\<Sum>i\<leftarrow>map fst M. b (i + 1) - b i)"
    unfolding held_def using M by (intro arg_cong [of _ _ sum_list]) (auto simp: comp_def)
  also have "\<dots> = (\<Sum>i\<in>set (map fst M). b (i + 1) - b i)"
    by (rule sum_list_distinct_conv_sum_set) (rule assms(1))
  also have "\<dots> \<le> (\<Sum>i\<in>{k..<n}. b (i + 1) - b i)"
    using M assms(3) by (intro sum_mono2) auto
  also have "\<dots> = b n - b k" by (rule sum_steps) (rule assms(2))
  finally show ?thesis .
qed

lemma held_rest:
  assumes g: "geometry md" "0 \<le> k" "k \<le> file_TotalChunks md" and M: "map_ok M"
      "\<And>i (h :: chunk_header) d. map_get M i = Some (h, d) \<Longrightarrow> k \<le> i \<and> i < file_TotalChunks md
        \<and> int (length d) = boundary md (i + 1) - boundary md i"
  shows "held snd M \<le> file_Size md - boundary md k"
proof -
  have "held snd M \<le> boundary md (file_TotalChunks md) - boundary md k"
  proof (rule held_steps [OF M(1) g(3)])
    fix i and v :: chunk assume "(i, v) \<in> set M"
    then have "map_get M i = Some v" using M(1) by simp
    then show "k \<le> i \<and> i < file_TotalChunks md \<and> int (length (snd v)) = boundary md (i + 1) - boundary md i"
      using M(2) [of i "fst v" "snd v"] by simp
  qed (rule boundary_mono [OF g(1)])
  moreover have "boundary md (file_TotalChunks md) = file_Size md"
    using boundary_total [OF g(1), of "file_TotalChunks md"] g(2,3) by simp
  ultimately show ?thesis by simp
qed

section \<open>Finishing without faults\<close>

lemma os_close_calm: "calm st m \<Longrightarrow> handles m fd \<noteq> None \<Longrightarrow>
    os_close fd m = (None, m\<lparr>handles := (handles m)(fd := None)\<rparr>)"
  by (auto simp: os_close_def calm_def fate_of_fine)

text \<open>The remaining steps cannot undo the rename.\<close>

lemma commit_file_calm:
  assumes st: "st = rcv_heap m a" and c: "calm st m" and own: "owns st ino m" "paths_ok st"
    and h: "handles m (rcv_file st) \<noteq> None"
  shows "names (commit_file tid a digest m) (rcv_path st) = Some (Regular ino)"
proof -
  note dist = paths_distinct [OF own(2)]
  define m1 where "m1 = m\<lparr>handles := (handles m)(rcv_file st := None)\<rparr>"
  have cl: "os_close (rcv_file st) m = (None, m1)" unfolding m1_def by (rule os_close_calm [OF c h])
  define m2 where "m2 = (if opt_Overwrite (options m1) then snd (os_remove (rcv_path st) m1) else m1)"
  have f1: "faults m1 = []" using c by (simp add: m1_def calm_def)
  have "faults m2 = []"
    unfolding m2_def by (auto simp: f1 os_remove_def fate_of_fine split: option.split entry.split bool.split)
  moreover have part: "names m2 (rcv_partPath st) = Some (Regular ino)"
    using own(1) dist by (auto simp: m2_def owns_def m1_def os_remove_frame)
  moreover have "names m2 (rcv_path st) \<noteq> Some (Dir d)" for d
    using os_remove_frame(8) [where m = m1 and p = "rcv_path st"] c by (auto simp: m2_def calm_def m1_def)
  ultimately obtain m3 where r: "os_rename (rcv_partPath st) (rcv_path st) m2 = (None, m3)"
      and m3: "names m3 (rcv_path st) = Some (Regular ino)"
    using os_rename_calm [of m2 "rcv_partPath st" "Regular ino" "rcv_path st"] by auto
  define m4 where "m4 = snd (os_remove (rcv_metaPath st) m3)"
  define m5 where "m5 = snd (sendControl (ack_control ''file_ack'' tid (file_Size (rcv_metadata st))) m4)"
  have "\<exists>ev. commit_file tid a digest m = emit ev (finishReceiver tid m5)"
    using cl r by (auto simp: commit_file_def Let_def st [symmetric] m2_def [symmetric] m4_def m5_def
        simp del: if_split)
  then obtain ev where e: "commit_file tid a digest m = emit ev (finishReceiver tid m5)" by blast
  have "names (emit ev (finishReceiver tid m5)) (rcv_path st) = names m4 (rcv_path st)"
    using emit_frame(1) [of "finishReceiver tid m5" ev] sendControl_frame(1) [of m4]
    by (simp add: same_files_def frame_simps m5_def)
  also have "\<dots> = Some (Regular ino)"
    using dist m3 by (simp add: m4_def os_remove_frame)
  finally show ?thesis using e by simp
qed

lemma complete_calm:
  assumes inv: "file_inv a ino L m" and c: "calm (rcv_heap m a) m"
    and h: "handles m (rcv_file (rcv_heap m a)) \<noteq> None"
    and full: "expectedOffset L = file_Size (rcv_metadata (rcv_heap m a))" "pending L = []"
    and hash: "expectedHash = (if file_SHA256 (rcv_metadata (rcv_heap m a)) = [] then ctl_SHA256 msg
                else file_SHA256 (rcv_metadata (rcv_heap m a)))"
      "expectedHash = [] \<or> EqualFold expectedHash (hex_text (sha256 m (hashed L)))"
  shows "\<exists>m'. complete tid a (Some msg) L m = Return m' \<and> committed (rcv_heap m a) ino msg m m'
    \<and> inodes m' ino = hashed L"
proof -
  define st where "st = rcv_heap m a"
  define digest where "digest = hex_text (sha256 m (hashed L))"
  have I: "paths_ok st" "owns st ino m" using inv by (auto simp: file_inv_def Let_def st_def)
  have ok: "(expectedHash \<noteq> [] \<and> \<not> EqualFold expectedHash digest) = False"
    using hash(2) by (simp add: digest_def)
  note eq = complete_full [OF full hash(1), of tid, folded digest_def, unfolded ok if_False]
  have "\<exists>m1. calm st m1 \<and> owns st ino m1 \<and> rcv_heap m1 = rcv_heap m \<and> handles m1 (rcv_file st) \<noteq> None
      \<and> complete tid a (Some msg) L m = Return (commit_file tid a digest m1)"
  proof (cases "lastDurable L = expectedOffset L")
    case True
    then have "complete tid a (Some msg) L m = Return (commit_file tid a digest m)"
      by (simp add: eq)
    then show ?thesis using c I(2) h by (auto simp: st_def)
  next
    case False
    obtain m1 where cp: "checkpoint tid a L m = (None, L\<lparr>lastDurable := expectedOffset L\<rparr>, m1)" "calm st m1"
      using checkpoint_calm [OF inv c h] unfolding st_def by blast
    have "complete tid a (Some msg) L m = Return (commit_file tid a digest m1)"
      using cp False by (simp add: eq)
    moreover have "owns st ino m1" "rcv_heap m1 = rcv_heap m" "handles m1 = handles m"
      using checkpoint_ok [OF inv cp(1)] I(2) by (auto simp: keeps_def same_tables_def st_def)
    ultimately show ?thesis using cp(2) h by (auto simp: st_def)
  qed
  then obtain m1 where m1: "calm st m1" "owns st ino m1" "rcv_heap m1 = rcv_heap m" "handles m1 (rcv_file st) \<noteq> None"
      and r: "complete tid a (Some msg) L m = Return (commit_file tid a digest m1)" by blast
  have n: "names (commit_file tid a digest m1) (rcv_path st) = Some (Regular ino)"
    using m1 I(1) by (intro commit_file_calm) (simp_all add: st_def)
  have "names m (rcv_path st) \<noteq> Some (Regular ino)"
  proof
    assume "names m (rcv_path st) = Some (Regular ino)"
    then have "rcv_path st = rcv_partPath st" using I(2) unfolding owns_def by blast
    then show False using paths_distinct(1) [OF I(1)] by simp
  qed
  with n have "\<not> gave_up st m (commit_file tid a digest m1)" by (auto simp: gave_up_def)
  then show ?thesis
    using complete_ok [OF inv, where tid = tid and message = "Some msg"] unfolding r st_def by simp
qed

section \<open>One arriving chunk\<close>

text \<open>What the loop knows between two turns of a run without faults.\<close>

definition receiving_ok :: "nat \<Rightarrow> nat \<Rightarrow> bytes \<Rightarrow> int set \<Rightarrow> recv_loop \<Rightarrow> manager \<Rightarrow> bool" where
  "receiving_ok a ino c S L m \<longleftrightarrow>
     file_inv a ino L m \<and> buffer_inv a L m \<and> calm (rcv_heap m a) m
     \<and> handles m (rcv_file (rcv_heap m a)) \<noteq> None
     \<and> consistent (rcv_metadata (rcv_heap m a)) c S L \<and> expectedIndex L \<notin> S
     \<and> int (length c) = file_Size (rcv_metadata (rcv_heap m a))
     \<and> file_Size (rcv_metadata (rcv_heap m a)) \<le> opt_MaxReorderBufferBytes (options m)"

lemma receiving_ok_drop:
  assumes "receiving_ok a ino c S L m" "S = {0..<file_TotalChunks (rcv_metadata (rcv_heap m a))}"
  shows "expectedOffset L = file_Size (rcv_metadata (rcv_heap m a)) \<and> pending L = [] \<and> hashed L = c"
proof -
  define md where "md = rcv_metadata (rcv_heap m a)"
  have R: "file_inv a ino L m" "consistent md c S L" "expectedIndex L \<notin> S" "int (length c) = file_Size md"
    using assms(1) by (simp_all add: receiving_ok_def md_def)
  have F: "geometry md" "0 \<le> expectedIndex L" "expectedIndex L \<le> file_TotalChunks md"
      "expectedOffset L = boundary md (expectedIndex L)"
    using R(1) by (simp_all add: file_inv_def Let_def md_def)
  then have i: "expectedIndex L = file_TotalChunks md" using R(3) assms(2) by (simp add: md_def)
  then have off: "expectedOffset L = file_Size md" using F boundary_total by simp
  have "map_get (pending L) k = None" for k
  proof (rule ccontr)
    assume "map_get (pending L) k \<noteq> None"
    then have "k \<in> S \<and> expectedIndex L \<le> k" using R(2) unfolding consistent_def by blast
    then show False using assms(2) i by (auto simp: md_def)
  qed
  then have "pending L = []" by (metis map_of_eq_None_iff list.set_intros(1) list.exhaust imageI)
  moreover have "nat (file_Size md) = length c" using R(4) by linarith
  then have "hashed L = c" using R(2) off by (simp add: consistent_def)
  ultimately show ?thesis using off by (simp add: md_def)
qed

lemma receiving_ok_more:
  assumes "receiving_ok a ino c S L m" "S \<subset> {0..<file_TotalChunks (rcv_metadata (rcv_heap m a))}"
  shows "complete tid a message L m = Loop L m"
proof -
  define md where "md = rcv_metadata (rcv_heap m a)"
  have R: "file_inv a ino L m" "consistent md c S L"
    using assms(1) by (simp_all add: receiving_ok_def md_def)
  have F: "geometry md" "0 \<le> expectedIndex L" "expectedIndex L \<le> file_TotalChunks md"
      "expectedOffset L = boundary md (expectedIndex L)"
    using R(1) by (simp_all add: file_inv_def Let_def md_def)
  have "expectedIndex L \<noteq> file_TotalChunks md"
  proof
    assume "expectedIndex L = file_TotalChunks md"
    then have "{0..<file_TotalChunks md} \<subseteq> S" using R(2) by (simp add: consistent_def)
    then show False using assms(2) by (auto simp: md_def)
  qed
  then have "expectedOffset L \<noteq> file_Size md"
    using F boundary_total [OF F(1,2)] by auto
  then show ?thesis by (simp add: complete_def Let_def md_def split: option.split)
qed

definition chunk_event :: "string \<Rightarrow> file_metadata \<Rightarrow> bytes \<Rightarrow> int \<Rightarrow> receive_event" where
  "chunk_event tid md c i =
     \<lparr>rev_header = Some \<lparr>hdr_TransferID = tid, hdr_Index = i, hdr_Offset = boundary md i,
        hdr_Length = int (length (slice md c i))\<rparr>, rev_data = slice md c i, rev_end = None, rev_cancel = None\<rparr>"

definition end_event :: "control \<Rightarrow> receive_event" where
  "end_event msg = \<lparr>rev_header = None, rev_data = [], rev_end = Some msg, rev_cancel = None\<rparr>"

lemma length_slice:
  assumes "geometry md" "0 \<le> i" "int (length c) = file_Size md"
  shows "int (length (slice md c i)) = boundary md (i + 1) - boundary md i"
proof -
  have "0 \<le> boundary md i" "boundary md i \<le> boundary md (i + 1)" "boundary md (i + 1) \<le> file_Size md"
    using assms by (auto simp: boundary_nonneg boundary_le boundary_mono)
  then show ?thesis using assms(3) by (simp add: slice_def)
qed

lemma room_for_chunk:
  assumes inv: "file_inv a ino L m" "buffer_inv a L m" and fit: "fits tid (rcv_metadata (rcv_heap m a)) h d"
    and new: "expectedIndex L \<le> hdr_Index h" "map_get (pending L) (hdr_Index h) = None"
  shows "i64 (pendingBytes L + int (length d)) \<le> file_Size (rcv_metadata (rcv_heap m a))"
proof -
  define md where "md = rcv_metadata (rcv_heap m a)"
  have F: "geometry md" "0 \<le> expectedIndex L" "expectedIndex L \<le> file_TotalChunks md"
    using inv(1) by (simp_all add: file_inv_def Let_def md_def)
  have B: "map_ok (pending L)" "pendingBytes L = held snd (pending L)"
      "\<And>i h d. map_get (pending L) i = Some (h, d) \<Longrightarrow> expectedIndex L \<le> i \<and> i < file_TotalChunks md
        \<and> int (length d) = boundary md (i + 1) - boundary md i"
    using inv(2) by (auto simp: buffer_inv_def Let_def md_def)
  have "held snd (map_put (hdr_Index h) (h, d) (pending L)) \<le> file_Size md - boundary md (expectedIndex L)"
    using B fit new by (intro held_rest [OF F]) (auto simp: fits_def md_def split: if_splits)
  then have s: "pendingBytes L + int (length d) \<le> file_Size md"
    using held_put_new [OF new(2), of snd "(h, d)"] B(2) boundary_nonneg [OF F(1,2)] by simp
  moreover have "0 \<le> pendingBytes L" using B(2) by simp
  ultimately have "i64 (pendingBytes L + int (length d)) = pendingBytes L + int (length d)"
    using F(1) by (intro i64_id) (auto simp: in_i64_def geometry_def)
  with s show ?thesis by (simp add: md_def)
qed

lemma handle_chunk_calm:
  assumes ok: "receiving_ok a ino c S L m" and i: "0 \<le> i" "i < file_TotalChunks md" "i \<notin> S"
    and md: "md = rcv_metadata (rcv_heap m a)"
    and h: "h = \<lparr>hdr_TransferID = tid, hdr_Index = i, hdr_Offset = boundary md i,
        hdr_Length = int (length (slice md c i))\<rparr>"
  shows "\<exists>L' m'. handle_chunk tid a h (slice md c i) L m = complete tid a (end_msg L') L' m'
    \<and> receiving_ok a ino c (insert i S) L' m' \<and> end_msg L' = end_msg L \<and> same_tables m m'"
proof -
  have R: "file_inv a ino L m" "buffer_inv a L m" "calm (rcv_heap m a) m"
      "handles m (rcv_file (rcv_heap m a)) \<noteq> None" "consistent md c S L" "int (length c) = file_Size md"
      "file_Size md \<le> opt_MaxReorderBufferBytes (options m)"
    using ok by (simp_all add: receiving_ok_def md)
  have g: "geometry md" using R(1) by (simp add: file_inv_def Let_def md)
  have len: "int (length (slice md c i)) = boundary md (i + 1) - boundary md i"
    using g i(1) R(6) by (rule length_slice)
  have fit: "fits tid md h (slice md c i)" using i len by (simp add: fits_def h)
  have "{0..<expectedIndex L} \<subseteq> S" using R(5) by (simp add: consistent_def)
  then have "\<not> i < expectedIndex L" using i by auto
  then have new: "expectedIndex L \<le> i" by simp
  have none: "map_get (pending L) i = None" using R(5) i(3) unfolding consistent_def by blast
  define L1 where "L1 = L\<lparr>pending := map_put i (h, slice md c i) (pending L),
                   pendingBytes := i64 (pendingBytes L + int (length (slice md c i)))\<rparr>"
  have idx: "hdr_Index h = i" by (simp add: h)
  have room: "pendingBytes L1 \<le> opt_MaxReorderBufferBytes (options m)"
    using room_for_chunk [OF R(1,2) fit [unfolded md]] new none R(7) by (simp add: L1_def idx md)
  note P = buffer_inv_put [OF R(1,2) fit [unfolded md], unfolded idx, OF new none L1_def [unfolded md] room]
  have con: "consistent md c (insert i S) L1"
    using R(5) new none by (auto simp: consistent_def L1_def)
  obtain L' m' where D: "drain tid a L1 m = Loop L' m'" "calm (rcv_heap m a) m'"
      "handles m' (rcv_file (rcv_heap m a)) \<noteq> None" "consistent md c (insert i S) L'"
      "expectedIndex L' \<notin> insert i S" "end_msg L' = end_msg L1"
    using drain_calm [OF P(2,1) R(3,4)] con R(6) unfolding md by blast
  have T: "file_inv a ino L' m'" "buffer_inv a L' m'" "same_tables m m'"
    using drain_ok [OF P(2,1), of tid] D(1) by (simp_all add: turn_ok_def Let_def)
  have "handle_chunk tid a h (slice md c i) L m = complete tid a (end_msg L') L' m'"
    using fits_iff [OF g, of tid h "slice md c i"] fit new none room D(1)
    by (simp add: handle_chunk_def Let_def md [symmetric] idx L1_def [symmetric])
  moreover have "receiving_ok a ino c (insert i S) L' m'"
    using D T R(6,7) by (simp add: receiving_ok_def md same_tables_def)
  moreover have "end_msg L' = end_msg L" using D(6) by (simp add: L1_def)
  ultimately show ?thesis using T(3) by blast
qed

section \<open>A whole transfer\<close>

text \<open>What arrives: \<open>Some i\<close> is chunk \<open>i\<close> of the content, \<open>None\<close> the \<open>file_end\<close> control.\<close>

definition arrival :: "string \<Rightarrow> file_metadata \<Rightarrow> control \<Rightarrow> bytes \<Rightarrow> int option \<Rightarrow> receive_event" where
  "arrival tid md msg c x = (case x of Some i \<Rightarrow> chunk_event tid md c i | None \<Rightarrow> end_event msg)"

definition delivered :: "receive_state \<Rightarrow> nat \<Rightarrow> bytes \<Rightarrow> manager \<Rightarrow> bool" where
  "delivered st ino c m \<longleftrightarrow> names m (rcv_path st) = Some (Regular ino) \<and> names m (rcv_partPath st) = None
     \<and> inodes m ino = c \<and> take (length c) (synced m ino) = c"

definition hash_fits :: "file_metadata \<Rightarrow> control \<Rightarrow> bytes \<Rightarrow> manager \<Rightarrow> bool" where
  "hash_fits md msg c m \<longleftrightarrow>
     (let expectedHash = (if file_SHA256 md = [] then ctl_SHA256 msg else file_SHA256 md)
      in expectedHash = [] \<or> EqualFold expectedHash (hex_text (sha256 m c)))"

lemma pop_faults: "faults (pop_event a m) = faults m"
  by (simp add: pop_event_def)

lemma receiving_ok_pop: "receiving_ok a ino c S L (pop_event a m) \<longleftrightarrow> receiving_ok a ino c S L m"
  by (simp add: receiving_ok_def calm_def file_inv_pop buffer_inv_pop pop_faults)

lemma end_frame:
  "file_inv a ino (L\<lparr>end_msg := e\<rparr>) m \<longleftrightarrow> file_inv a ino L m"
  "file_inv a ino (L\<lparr>end_armed := b\<rparr>) m \<longleftrightarrow> file_inv a ino L m"
  "buffer_inv a (L\<lparr>end_msg := e\<rparr>) m \<longleftrightarrow> buffer_inv a L m"
  "buffer_inv a (L\<lparr>end_armed := b\<rparr>) m \<longleftrightarrow> buffer_inv a L m"
  "consistent md c S (L\<lparr>end_msg := e\<rparr>) \<longleftrightarrow> consistent md c S L"
  "consistent md c S (L\<lparr>end_armed := b\<rparr>) \<longleftrightarrow> consistent md c S L"
  by (simp_all add: file_inv_def buffer_inv_def consistent_def)

lemma receiving_ok_end: "receiving_ok a ino c S L m \<Longrightarrow> receiving_ok a ino c S (L\<lparr>end_msg := e\<rparr>) m"
  "receiving_ok a ino c S L m \<Longrightarrow> receiving_ok a ino c S (L\<lparr>end_armed := b\<rparr>) m"
  by (simp_all add: receiving_ok_def end_frame)

lemma complete_delivers:
  assumes ok: "receiving_ok a ino c S L m" and all: "S = {0..<file_TotalChunks (rcv_metadata (rcv_heap m a))}"
    and h: "hash_fits (rcv_metadata (rcv_heap m a)) msg c m"
  shows "\<exists>m'. complete tid a (Some msg) L m = Return m' \<and> delivered (rcv_heap m a) ino c m'"
proof -
  note D = receiving_ok_drop [OF ok all]
  have R: "file_inv a ino L m" "calm (rcv_heap m a) m" "handles m (rcv_file (rcv_heap m a)) \<noteq> None"
    using ok by (simp_all add: receiving_ok_def)
  obtain m' where m': "complete tid a (Some msg) L m = Return m'" "committed (rcv_heap m a) ino msg m m'"
      "inodes m' ino = hashed L"
    using complete_calm [OF R _ _ refl, of msg tid] D h by (auto simp: hash_fits_def Let_def)
  then show ?thesis using D by (auto simp: committed_def delivered_def Let_def)
qed

lemma complete_after:
  assumes ok: "receiving_ok a ino c S L m"
    and md: "md = rcv_metadata (rcv_heap m a)" and sub: "S \<subseteq> {0..<file_TotalChunks md}"
    and h: "hash_fits md msg c m" and e: "e = None \<or> e = Some msg"
  shows "if S = {0..<file_TotalChunks md} \<and> e \<noteq> None
    then \<exists>m'. complete tid a e L m = Return m' \<and> delivered (rcv_heap m a) ino c m'
    else complete tid a e L m = Loop L m"
proof (cases "S = {0..<file_TotalChunks md} \<and> e \<noteq> None")
  case True
  then show ?thesis using complete_delivers [OF ok, of msg tid] h e by (auto simp: md)
next
  case False
  show ?thesis
  proof (cases "e = None")
    case True
    then show ?thesis by (simp add: complete_def)
  next
    case ne: False
    with False sub have "S \<subset> {0..<file_TotalChunks (rcv_metadata (rcv_heap m a))}" by (auto simp: md)
    with receiving_ok_more [OF ok this] False show ?thesis by auto
  qed
qed

lemma pop_path [simp]: "delivered (rcv_heap (pop_event a m) a) ino c m' \<longleftrightarrow> delivered (rcv_heap m a) ino c m'"
  by (simp add: delivered_def)

text \<open>One arrival: the file is complete, or the loop goes on with it taken.\<close>

lemma arrival_turn:
  assumes ok: "receiving_ok a ino c S L m" and md: "md = rcv_metadata (rcv_heap m a)"
    and q: "rcv_events (rcv_heap m a) = arrival tid md msg c x # rest"
    and x: "\<And>i. x = Some i \<Longrightarrow> 0 \<le> i \<and> i < file_TotalChunks md \<and> i \<notin> S" and sub: "S \<subseteq> {0..<file_TotalChunks md}"
    and h: "hash_fits md msg c m" and e: "end_msg L = None \<or> end_msg L = Some msg"
    and S': "S' = S \<union> set_option x" and e': "e' = (if x = None then Some msg else end_msg L)"
  shows "if S' = {0..<file_TotalChunks md} \<and> e' \<noteq> None
    then \<exists>m'. loop_turn tid a EventReady L m = Return m' \<and> delivered (rcv_heap m a) ino c m'
    else \<exists>L' m'. loop_turn tid a EventReady L m = Loop L' m' \<and> receiving_ok a ino c S' L' m'
      \<and> end_msg L' = e' \<and> rcv_heap m' a = (rcv_heap m a)\<lparr>rcv_events := rest\<rparr> \<and> sha256 m' = sha256 m"
proof (cases x)
  case None
  define L1 where "L1 = L\<lparr>end_msg := Some msg\<rparr>"
  have ok1: "receiving_ok a ino c S L1 (pop_event a m)"
    using ok by (simp add: receiving_ok_pop L1_def receiving_ok_end)
  have h1: "hash_fits md msg c (pop_event a m)" using h by (simp add: hash_fits_def)
  have t: "loop_turn tid a EventReady L m = (case complete tid a (Some msg) L1 (pop_event a m) of
      Return m1 \<Rightarrow> Return m1 | Loop L2 m1 \<Rightarrow> Loop (L2\<lparr>end_armed := True\<rparr>) m1)"
    using q None by (simp add: loop_turn_event handle_event_def arrival_def end_event_def L1_def)
  have p: "rcv_heap (pop_event a m) a = (rcv_heap m a)\<lparr>rcv_events := rest\<rparr>"
    using q by (simp add: pop_event_def)
  note C = complete_after [OF ok1 _ sub h1, of "Some msg" tid]
  show ?thesis
    using C None p ok1 by (auto simp: t S' e' md L1_def receiving_ok_end delivered_def split: if_splits)
next
  case (Some i)
  define m1 where "m1 = pop_event a m"
  define hd where "hd = \<lparr>hdr_TransferID = tid, hdr_Index = i, hdr_Offset = boundary md i,
        hdr_Length = int (length (slice md c i))\<rparr>"
  have ok1: "receiving_ok a ino c S L m1" using ok by (simp add: receiving_ok_pop m1_def)
  have md1: "md = rcv_metadata (rcv_heap m1 a)" by (simp add: md m1_def)
  have t: "loop_turn tid a EventReady L m = handle_chunk tid a hd (slice md c i) L m1"
    using q Some by (simp add: loop_turn_event handle_event_def arrival_def chunk_event_def hd_def m1_def)
  obtain L' m' where c: "handle_chunk tid a hd (slice md c i) L m1 = complete tid a (end_msg L') L' m'"
      and ok': "receiving_ok a ino c (insert i S) L' m'" and e2: "end_msg L' = end_msg L" and st: "same_tables m1 m'"
    using handle_chunk_calm [OF ok1 _ _ _ md1 hd_def] x [OF Some] by blast
  have p: "rcv_heap m' a = (rcv_heap m a)\<lparr>rcv_events := rest\<rparr>" "sha256 m' = sha256 m"
    using q st by (simp_all add: same_tables_def m1_def pop_event_def)
  have "insert i S \<subseteq> {0..<file_TotalChunks md}" using sub x [OF Some] by auto
  moreover have "hash_fits md msg c m'" using h p(2) by (simp add: hash_fits_def)
  ultimately have C: "if insert i S = {0..<file_TotalChunks md} \<and> end_msg L' \<noteq> None
    then \<exists>m''. complete tid a (end_msg L') L' m' = Return m'' \<and> delivered (rcv_heap m' a) ino c m''
    else complete tid a (end_msg L') L' m' = Loop L' m'"
    using ok' e e2 by (intro complete_after) (simp_all add: p md)
  have "S' = insert i S" "e' = end_msg L'" using S' e' Some e2 by auto
  with C ok' p show ?thesis unfolding t c
    by (auto simp: delivered_def split: if_splits)
qed

lemma arrivals_run:
  "receiving_ok a ino c S L m \<Longrightarrow> md = rcv_metadata (rcv_heap m a) \<Longrightarrow>
   rcv_events (rcv_heap m a) = map (arrival tid md msg c) xs \<Longrightarrow> xs \<noteq> [] \<Longrightarrow> distinct xs \<Longrightarrow>
   S \<inter> {i. Some i \<in> set xs} = {} \<Longrightarrow> S \<union> {i. Some i \<in> set xs} = {0..<file_TotalChunks md} \<Longrightarrow>
   end_msg L = (if None \<in> set xs then None else Some msg) \<Longrightarrow> hash_fits md msg c m \<Longrightarrow>
   \<exists>m'. run_turns tid a (length xs) L m = Return m' \<and> delivered (rcv_heap m a) ino c m'"
proof (induction xs arbitrary: S L m)
  case (Cons x xs)
  define S' where "S' = S \<union> set_option x"
  define e' where "e' = (if x = None then Some msg else end_msg L)"
  have all: "S' \<union> {i. Some i \<in> set xs} = {0..<file_TotalChunks md}"
    using Cons.prems(7) by (cases x) (auto simp: S'_def)
  have dis: "S' \<inter> {i. Some i \<in> set xs} = {}"
    using Cons.prems(5,6) by (cases x) (auto simp: S'_def)
  have e: "e' = (if None \<in> set xs then None else Some msg)"
    using Cons.prems(5,8) by (auto simp: e'_def)
  have T: "if S' = {0..<file_TotalChunks md} \<and> e' \<noteq> None
    then \<exists>m'. loop_turn tid a EventReady L m = Return m' \<and> delivered (rcv_heap m a) ino c m'
    else \<exists>L' m'. loop_turn tid a EventReady L m = Loop L' m' \<and> receiving_ok a ino c S' L' m'
      \<and> end_msg L' = e' \<and> rcv_heap m' a = (rcv_heap m a)\<lparr>rcv_events := map (arrival tid md msg c) xs\<rparr>
      \<and> sha256 m' = sha256 m"
  proof (rule arrival_turn [OF Cons.prems(1,2) _ _ _ Cons.prems(9) _ S'_def e'_def])
    show "rcv_events (rcv_heap m a) = arrival tid md msg c x # map (arrival tid md msg c) xs"
      using Cons.prems(3) by simp
    show "S \<subseteq> {0..<file_TotalChunks md}" using Cons.prems(7) by blast
    show "0 \<le> i \<and> i < file_TotalChunks md \<and> i \<notin> S" if "x = Some i" for i
      using Cons.prems(6,7) that by fastforce
    show "end_msg L = None \<or> end_msg L = Some msg" using Cons.prems(8) by (auto split: if_splits)
  qed
  have q: "rcv_events (rcv_heap m a) \<noteq> []" using Cons.prems(3) by simp
  show ?case
  proof (cases "xs = []")
    case True
    then show ?thesis using T all e q by (auto simp: Cons.prems(3))
  next
    case False
    have more: "\<not> (S' = {0..<file_TotalChunks md} \<and> e' \<noteq> None)"
    proof
      assume A: "S' = {0..<file_TotalChunks md} \<and> e' \<noteq> None"
      obtain y where y: "y \<in> set xs" using False by (cases xs) auto
      moreover from A e have "None \<notin> set xs" by presburger
      ultimately have "y \<noteq> None" by metis
      then show False using y A all dis by (cases y) auto
    qed
    obtain L' m' where t: "loop_turn tid a EventReady L m = Loop L' m'" and L': "receiving_ok a ino c S' L' m'"
        "end_msg L' = e'" "rcv_heap m' a = (rcv_heap m a)\<lparr>rcv_events := map (arrival tid md msg c) xs\<rparr>"
        "sha256 m' = sha256 m"
      using T [unfolded if_not_P [OF more]] by blast
    have "\<exists>m''. run_turns tid a (length xs) L' m' = Return m'' \<and> delivered (rcv_heap m' a) ino c m''"
    proof (rule Cons.IH [OF L'(1)])
      show "hash_fits md msg c m'" using Cons.prems(9) L'(4) by (simp add: hash_fits_def)
    qed (use L' all dis e False Cons.prems(2,5) in auto)
    then show ?thesis using t q L'(3) by (auto simp: delivered_def)
  qed
qed simp

section \<open>Delivery\<close>

lemma loop_start_calm:
  assumes acc: "accepted a ino off m" and f: "faults m = []"
  shows "\<exists>now ts. loop_start tid a off m
    = Loop (start_vars (rcv_metadata (rcv_heap m a)) off (inodes m ino) now) (m\<lparr>clock := ts\<rparr>)"
proof -
  define fd where "fd = rcv_file (rcv_heap m a)"
  have A: "handles m fd = Some (ino, nat off)" "0 \<le> off" "int (length (inodes m ino)) = off"
    using acc by (auto simp: accepted_def Let_def fd_def)
  obtain t ts where now: "time_now m = (t, m\<lparr>clock := ts\<rparr>)" by (rule time_now_cases)
  have same_pos: "m\<lparr>handles := (handles m)(fd \<mapsto> (ino, nat off))\<rparr> = m"
    using A(1) by (simp add: fun_upd_idem)
  show ?thesis
  proof (cases "off > 0")
    case True
    have n: "nat off = length (inodes m ino)" using A(3) by linarith
    have "os_seek fd 0 m = (None, m\<lparr>handles := (handles m)(fd \<mapsto> (ino, 0))\<rparr>)"
      using A(1) f by (simp add: os_seek_def fate_of_fine)
    moreover have "os_copy_n fd off (m\<lparr>handles := (handles m)(fd \<mapsto> (ino, 0))\<rparr>) = (Inr (inodes m ino), m)"
      using f n same_pos by (simp add: os_copy_n_def fate_of_fine Let_def)
    moreover have "os_seek fd off m = (None, m)"
      using A f same_pos by (simp add: os_seek_def fate_of_fine)
    ultimately show ?thesis using True now by (auto simp: loop_start_def Let_def fd_def [symmetric])
  next
    case False
    then have "inodes m ino = []" "off = 0" using A by auto
    then show ?thesis using now by (auto simp: loop_start_def Let_def)
  qed
qed

lemma receiving_ok_start:
  assumes acc: "accepted a ino off m" and c: "calm (rcv_heap m a) m" and md: "md = rcv_metadata (rcv_heap m a)"
    and len: "int (length con) = file_Size md" and room: "file_Size md \<le> opt_MaxReorderBufferBytes (options m)"
    and pre: "inodes m ino = take (nat off) con"
  shows "receiving_ok a ino con {0..<off div file_ChunkSize md} (start_vars md off (inodes m ino) now) (m\<lparr>clock := ts\<rparr>)
    \<and> off div file_ChunkSize md \<le> file_TotalChunks md"
proof -
  have A: "0 \<le> off" "geometry md" "handles m (rcv_file (rcv_heap m a)) = Some (ino, nat off)"
    using acc by (simp_all add: accepted_def Let_def md)
  have q: "go_quot off (file_ChunkSize md) = off div file_ChunkSize md"
    using A by (intro go_quot_nonneg) (auto simp: geometry_def)
  note V = start_vars_ok [OF acc, of "m\<lparr>clock := ts\<rparr>" now]
  have V: "file_inv a ino (start_vars md off (inodes m ino) now) (m\<lparr>clock := ts\<rparr>)"
      "buffer_inv a (start_vars md off (inodes m ino) now) (m\<lparr>clock := ts\<rparr>)"
    using V A(3) by (simp_all add: md)
  have "expectedIndex (start_vars md off (inodes m ino) now) \<le> file_TotalChunks md"
    using V(1) by (auto simp: file_inv_def Let_def md)
  then have "off div file_ChunkSize md \<le> file_TotalChunks md" by (simp add: start_vars_def q)
  moreover have "consistent md con {0..<off div file_ChunkSize md} (start_vars md off (inodes m ino) now)"
    by (simp add: consistent_def start_vars_def q pre)
  moreover have "calm (rcv_heap m a) (m\<lparr>clock := ts\<rparr>)" using c by (simp add: calm_def)
  moreover have "expectedIndex (start_vars md off (inodes m ino) now) = off div file_ChunkSize md"
    by (simp add: start_vars_def q)
  ultimately show ?thesis
    using V len room A(3) unfolding md by (simp add: receiving_ok_def)
qed



end
