(* ===== verification/Receive_Outcomes.thy ===== *)
theory Receive_Outcomes
  imports Receive_Delivery
begin

text \<open>
  The branches of the receive loop one by one: which chunks it takes, what a failed digest and
  an interruption leave behind, and what a later offer of the same file can resume.
\<close>

section \<open>Which chunks are taken\<close>

text \<open>C7: For an accepted file, a chunk event is judged by the exact position of its slot,
  whatever the 64-bit arithmetic of the checks: a chunk of another transfer, out of the file, at
  the wrong place or of the wrong length ends the transfer with a \<open>file_cancel\<close>; a chunk that was
  already written is ignored; one that is already buffered, or does not fit the reorder buffer,
  ends the transfer; any other is buffered and the buffer drained.\<close>

theorem chunk_verdicts:
  assumes "geometry (rcv_metadata (rcv_heap m a))"
  shows "(\<not> fits tid (rcv_metadata (rcv_heap m a)) h d \<longrightarrow>
        (\<exists>reason. handle_chunk tid a h d L m
           = Return (receiveFailed tid (file_Name (rcv_metadata (rcv_heap m a))) reason m)))
    \<and> (fits tid (rcv_metadata (rcv_heap m a)) h d \<longrightarrow>
        handle_chunk tid a h d L m =
          (if hdr_Index h < expectedIndex L then Loop L m
           else if map_get (pending L) (hdr_Index h) \<noteq> None then
             Return (receiveFailed tid (file_Name (rcv_metadata (rcv_heap m a))) ''duplicate pending file chunk'' m)
           else if i64 (pendingBytes L + int (length d)) > opt_MaxReorderBufferBytes (options m) then
             Return (receiveFailed tid (file_Name (rcv_metadata (rcv_heap m a))) ''file chunk reorder buffer exceeded'' m)
           else
             (case drain tid a (L\<lparr>pending := map_put (hdr_Index h) (h, d) (pending L),
                 pendingBytes := i64 (pendingBytes L + int (length d))\<rparr>) m of
                Return m1 \<Rightarrow> Return m1
              | Loop L2 m1 \<Rightarrow> complete tid a (end_msg L2) L2 m1)))"
proof (cases "fits tid (rcv_metadata (rcv_heap m a)) h d")
  case True
  then show ?thesis using fits_iff [OF assms, of tid h d] by (simp add: handle_chunk_def Let_def)
next
  case False
  then have "\<exists>reason. handle_chunk tid a h d L m
      = Return (receiveFailed tid (file_Name (rcv_metadata (rcv_heap m a))) reason m)"
    unfolding fits_iff [OF assms] handle_chunk_def Let_def
    by (cases "hdr_TransferID h \<noteq> tid \<or> hdr_Index h < 0
        \<or> hdr_Index h \<ge> file_TotalChunks (rcv_metadata (rcv_heap m a)) \<or> hdr_Length h \<noteq> int (length d)")
       (simp_all only: if_True if_False simp_thms, blast+)
  with False show ?thesis by blast
qed

theorem chunk_verdicts_witness:
  "\<exists>reason. handle_chunk ''t'' 0 \<lparr>hdr_TransferID = ''t'', hdr_Index = 1, hdr_Offset = 1, hdr_Length = 1\<rparr> [3]
      (start_vars demo_file 0 [] 0) demo_manager
    = Return (receiveFailed ''t'' (file_Name (rcv_metadata (rcv_heap demo_manager 0))) reason demo_manager)"
proof -
  have g: "geometry (rcv_metadata (rcv_heap demo_manager 0))"
    using demo_accepted by (simp add: accepted_def Let_def)
  have "\<not> fits ''t'' (rcv_metadata (rcv_heap demo_manager 0))
      \<lparr>hdr_TransferID = ''t'', hdr_Index = 1, hdr_Offset = 1, hdr_Length = 1\<rparr> [3]"
    by (simp add: fits_def boundary_def demo_manager_def demo_state_def demo_file_def)
  then show ?thesis using chunk_verdicts [OF g] by blast
qed

section \<open>A digest that does not match\<close>

lemma os_remove_calm:
  "faults m = [] \<Longrightarrow> names m p \<noteq> Some (Dir False) \<Longrightarrow>
   names (snd (os_remove p m)) = (names m)(p := None) \<and> faults (snd (os_remove p m)) = []"
  by (auto simp: os_remove_def fate_of_fine split: option.split entry.split bool.split)

lemma finishReceiver_calm: "faults m = [] \<Longrightarrow> faults (finishReceiver tid m) = []"
  by (simp add: finishReceiver_def Let_def os_close_def fate_of_fine split: option.split)

text \<open>C8: When the last byte is in and the digest differs from the announced one, the transfer is
  cancelled, the partial file and its sidecar are deleted (so the corrupt bytes can never be
  resumed), the destination is untouched and the receiver is forgotten.\<close>

theorem bad_digest_discards:
  assumes "file_inv a ino L m" and "calm (rcv_heap m a) m"
    and "expectedOffset L = file_Size (rcv_metadata (rcv_heap m a))" and "pending L = []"
    and "\<not> hash_fits (rcv_metadata (rcv_heap m a)) msg (hashed L) m"
  shows "\<exists>m'. complete tid a (Some msg) L m = Return m'
    \<and> names m' (rcv_partPath (rcv_heap m a)) = None \<and> names m' (rcv_metaPath (rcv_heap m a)) = None
    \<and> names m' (rcv_path (rcv_heap m a)) = names m (rcv_path (rcv_heap m a))
    \<and> map_get (receivers m') tid = None
    \<and> sent m' = sent m @ [cancel_control tid ''SHA-256 verification failed'']"
proof -
  define st where "st = rcv_heap m a"
  define m1 where "m1 = snd (sendControl (cancel_control tid ''SHA-256 verification failed'') m)"
  define m2 where "m2 = finishReceiver tid m1"
  define m3 where "m3 = snd (os_remove (rcv_partPath st) m2)"
  define m4 where "m4 = snd (os_remove (rcv_metaPath st) m3)"
  have I: "paths_ok st" "owns st ino m" using assms(1) by (auto simp: file_inv_def Let_def st_def)
  note dist = paths_distinct [OF I(1)]
  have c: "faults m = []" "\<And>d. names m (rcv_metaPath st) \<noteq> Some (Dir d)" using assms(2) by (auto simp: calm_def st_def)
  have m1: "m1 = m\<lparr>sent := sent m @ [cancel_control tid ''SHA-256 verification failed'']\<rparr>"
    unfolding m1_def by (rule sendControl_calm [OF c(1)])
  have m2: "names m2 = names m" "faults m2 = []" "sent m2 = sent m1" "map_get (receivers m2) tid = None"
      "rcv_partPath (rcv_heap m2 a) = rcv_partPath st" "rcv_metaPath (rcv_heap m2 a) = rcv_metaPath st"
    using finishReceiver_calm [of m1 tid] c(1)
    by (simp_all add: m2_def frame_simps finishReceiver_gone m1 st_def)
  have m3: "names m3 = (names m)(rcv_partPath st := None)" "faults m3 = []"
    using os_remove_calm [of m2 "rcv_partPath st"] m2 I(2) by (simp_all add: m3_def owns_def)
  have h3: "rcv_heap m3 = rcv_heap m2" "receivers m3 = receivers m2"
    using os_remove_frame(3) [where m = m2 and p = "rcv_partPath st"] by (simp_all add: m3_def same_tables_def)
  have m4: "names m4 = (names m)(rcv_partPath st := None, rcv_metaPath st := None)"
    using os_remove_calm [of m3 "rcv_metaPath st"] m3 c(2) dist by (simp add: m4_def)
  have t4: "receivers m4 = receivers m2" "sent m4 = sent m1"
    using os_remove_frame(3) [where m = m3 and p = "rcv_metaPath st"] h3 m2(3)
    by (simp_all add: m4_def m3_def same_tables_def frame_simps)
  define expectedHash where "expectedHash = (if file_SHA256 (rcv_metadata (rcv_heap m a)) = [] then ctl_SHA256 msg
      else file_SHA256 (rcv_metadata (rcv_heap m a)))"
  have "complete tid a (Some msg) L m = Return (receiveIntegrityFailed tid a ''SHA-256 verification failed'' m)"
    using assms(5) by (simp add: complete_full [OF assms(3,4) expectedHash_def] hash_fits_def Let_def expectedHash_def
        del: if_split)
  moreover have "\<exists>ev. receiveIntegrityFailed tid a ''SHA-256 verification failed'' m = emit ev m4"
    using m2(5,6) h3(1)
    by (auto simp: receiveIntegrityFailed_def Let_def m1_def [symmetric] m2_def [symmetric] m3_def m4_def)
  then obtain ev where "receiveIntegrityFailed tid a ''SHA-256 verification failed'' m = emit ev m4" by blast
  ultimately show ?thesis
    using m4 t4 m1 m2(4) dist emit_frame(1-3) [where m = m4 and e = ev]
    by (simp add: st_def [symmetric] same_files_def same_tables_def)
qed

text \<open>The concrete transfer with a wrong last byte.\<close>

definition corrupt_manager :: manager where
  "corrupt_manager = demo_manager\<lparr>rcv_heap := (\<lambda>_. demo_state\<lparr>rcv_events :=
     [demo_chunk 1 2 [9], demo_chunk 0 0 [1, 2], demo_end]\<rparr>)\<rparr>"

lemma corrupt_accepted: "accepted 0 0 0 corrupt_manager"
  by (simp add: accepted_def corrupt_manager_def demo_manager_def demo_host_def demo_state_def demo_file_def
      geometry_def paths_ok_def owns_def NewTransferManager_def host.extend_def manager.fields_def
      default_options_def demo_options_def zero_file_def maxReorderBufferBytes_def TotalChunks_def i64_def go_quot_def)

theorem bad_digest_discards_witness:
  "\<exists>m'. complete ''t'' 0 (Some (new_control ''file_end'' ''t'')) (demo_loop corrupt_manager 2) (demo_mgr corrupt_manager 2)
       = Return m' \<and> names m' (rcv_partPath (rcv_heap (demo_mgr corrupt_manager 2) 0)) = None"
proof -
  define L where "L = demo_loop corrupt_manager 2"
  define m where "m = demo_mgr corrupt_manager 2"
  have r: "case demo_at corrupt_manager 2 of Return m \<Rightarrow> False | Loop L m \<Rightarrow>
      calm (rcv_heap m 0) m \<and> expectedOffset L = file_Size (rcv_metadata (rcv_heap m 0)) \<and> pending L = []
      \<and> \<not> hash_fits (rcv_metadata (rcv_heap m 0)) (new_control ''file_end'' ''t'') (hashed L) m"
    by code_simp
  then have "case demo_at corrupt_manager 2 of Loop L m \<Rightarrow> True | Return m \<Rightarrow> False"
    by (simp split: loop_result.splits)
  then obtain s where "run_init ''t'' 0 0 corrupt_manager s" "(recv_step ''t'' 0 0)\<^sup>*\<^sup>* s (Running L m)"
    using demo_running [OF corrupt_accepted] unfolding L_def m_def by blast
  then have "run_inv ''t'' 0 0 corrupt_manager (Running L m)" by (rule receiving.inv_reachable)
  then have "file_inv 0 0 L m" by (simp add: run_inv_def)
  then show ?thesis
    using bad_digest_discards [of 0 0 L m "new_control ''file_end'' ''t''" "''t''"] r
    by (auto simp: L_def m_def demo_loop_def demo_mgr_def split: loop_result.splits)
qed

section \<open>Interruptions\<close>

text \<open>C9: A transfer that is cancelled by the peer, times out waiting for missing chunks, or loses
  its channel ends without touching any file: the partial file and its sidecar stay for a later
  resume, the receiver is forgotten, and the observer is told.\<close>

theorem interruption_keeps_files:
  assumes "k = DeadlineReady \<or> k = ClosedReady
      \<or> k = EventReady \<and> rev_cancel (hd (rcv_events (rcv_heap m a))) \<noteq> None"
    and "loop_turn tid a k L m = res"
  shows "\<exists>m'. res = Return m' \<and> names m' = names m \<and> inodes m' = inodes m \<and> synced m' = synced m
    \<and> map_get (receivers m') tid = None
    \<and> (opt_OnEvent (options m) \<longrightarrow> (\<exists>e. emitted m' = emitted m @ [e] \<and> evt_TransferID e = tid
          \<and> evt_Type e = (if k = EventReady then ''cancelled'' else ''failed'')))"
proof -
  have E: "names (emit e (finishReceiver tid n)) = names n \<and> inodes (emit e (finishReceiver tid n)) = inodes n
      \<and> synced (emit e (finishReceiver tid n)) = synced n
      \<and> map_get (receivers (emit e (finishReceiver tid n))) tid = None
      \<and> (opt_OnEvent (options n) \<longrightarrow> emitted (emit e (finishReceiver tid n)) = emitted n @ [e])" for e n
    using emit_frame(1,2) [where m = "finishReceiver tid n" and e = e] finishReceiver_gone [of tid n]
    by (simp add: same_files_def same_tables_def frame_simps) (simp add: emit_def frame_simps)
  have S: "same_files m (snd (sendControl c m))" "same_tables m (snd (sendControl c m))"
      "emitted (snd (sendControl c m)) = emitted m" for c
    by (rule sendControl_frame)+
  show ?thesis
  proof (cases k)
    case EventReady
    then obtain r where "rev_cancel (hd (rcv_events (rcv_heap m a))) = Some r" using assms(1) by auto
    then obtain ev where "res = Return (emit ev (finishReceiver tid (pop_event a m)))"
        "evt_TransferID ev = tid" "evt_Type ev = ''cancelled''"
      using assms(2) EventReady by (auto simp: loop_turn_event handle_event_def)
    then show ?thesis using E [of ev "pop_event a m"] EventReady by simp
  next
    case DeadlineReady
    define m1 where "m1 = snd (sendControl (cancel_control tid ''timed out waiting for missing file chunks'') m)"
    obtain ev where "res = Return (emit ev (finishReceiver tid m1))"
        "evt_TransferID ev = tid" "evt_Type ev = ''failed''"
      using assms(2) DeadlineReady by (auto simp: loop_turn_def receiveFailed_def Let_def m1_def)
    then show ?thesis using E [of ev m1] S DeadlineReady by (simp add: m1_def same_files_def same_tables_def)
  next
    case ClosedReady
    then obtain ev where "res = Return (emit ev (finishReceiver tid m))"
        "evt_TransferID ev = tid" "evt_Type ev = ''failed''"
      using assms(2) by (auto simp: loop_turn_def Let_def)
    then show ?thesis using E [of ev m] ClosedReady by simp
  next
    case DoneReady
    with assms(1) show ?thesis by simp
  qed
qed

theorem interruption_keeps_files_witness:
  "\<exists>m'. loop_turn ''t'' 0 ClosedReady (start_vars demo_file 0 [] 0) demo_manager = Return m'
     \<and> names m' = names demo_manager \<and> map_get (receivers m') ''t'' = None"
  using interruption_keeps_files [of ClosedReady demo_manager 0 "''t''" "start_vars demo_file 0 [] 0"] by blast

end
