(* ===== verification/Resume.thy ===== *)
theory Resume
  imports Receive_Outcomes
begin

text \<open>
  Resuming: the sidecar file is read back as it was written, a partial file is reused only for
  the same file, and an interrupted transfer resumes from its last checkpoint, provided nothing
  was written after it.
\<close>

section \<open>The sidecar format\<close>

definition partial_ok :: "partial_metadata \<Rightarrow> bool" where
  "partial_ok p \<longleftrightarrow> file_ok (part_File p) \<and> in_i64 (part_ReceivedBytes p)"

definition read_partial :: "bytes \<Rightarrow> unit + partial_metadata" where
  "read_partial encoded =
     (case unmarshal partial_fields set_partial_field (of_bytes encoded) zero_partial of
        None \<Rightarrow> Inl () | Some p \<Rightarrow> Inr p)"

lemma decode_partial_json:
  "partial_ok p \<Longrightarrow> decode_struct partial_fields set_partial_field (partial_json p) zero_partial = Some p"
  unfolding partial_json_def decode_struct_def json.case
  by (subst decode_member, simp add: partial_fields_def,
      simp add: set_partial_field_def partial_ok_def zero_partial_def decode_file_json)+
     (simp add: zero_partial_def)

lemma partial_json_ok: "partial_ok p \<Longrightarrow> json_ok (partial_json p)" "partial_ok p \<Longrightarrow> nesting (partial_json p) \<le> max_nesting"
  by (simp_all add: partial_json_def partial_ok_def file_json_ok utf8_width.simps max_nesting_def)

lemma read_partial_written:
  "partial_ok p \<Longrightarrow> unmarshal partial_fields set_partial_field (json_text (partial_json p)) zero_partial = Some p"
  by (simp add: unmarshal_json_text partial_json_ok decode_partial_json)

interpretation sidecar_codec: wire_codec "\<lambda>p. Inr (to_bytes (json_text (partial_json p)))" read_partial partial_ok
  by unfold_locales (auto simp: read_partial_def read_partial_written)

section \<open>What can be resumed\<close>

definition same_offer :: "file_metadata \<Rightarrow> file_metadata \<Rightarrow> bool" where
  "same_offer old offered \<longleftrightarrow> file_Name old = file_Name offered \<and> file_Size old = file_Size offered
     \<and> file_LastModified old = file_LastModified offered \<and> file_ChunkSize old = file_ChunkSize offered
     \<and> (file_SHA256 old = [] \<or> file_SHA256 offered = [] \<or> EqualFold (file_SHA256 old) (file_SHA256 offered))"

lemma matchingPartial_reused:
  assumes "matchingPartial metaPath partPath offered h = (n, h')" and "n \<noteq> 0"
  shows "\<exists>j p i q. follow 40 (names h) metaPath = Some q \<and> names h q = Some (Regular j)
    \<and> unmarshal partial_fields set_partial_field (of_bytes (inodes h j)) zero_partial = Some p
    \<and> same_offer (part_File p) offered \<and> part_ReceivedBytes p = n
    \<and> (\<exists>q. follow 40 (names h) partPath = Some q \<and> names h q = Some (Regular i)) \<and> int (length (inodes h i)) = n
    \<and> 0 < n \<and> n \<le> file_Size offered \<and> go_rem n (file_ChunkSize offered) = 0"
proof -
  obtain r h1 where r: "os_read_file metaPath h = (r, h1)" by fastforce
  from assms r obtain encoded where enc: "r = Some encoded" by (cases r) (auto simp: matchingPartial_def)
  obtain f fs where fate: "fate_of h = (f, h\<lparr>faults := fs\<rparr>)" by (rule fate_of_cases)
  from r enc fate obtain j q where meta: "follow 40 (names h) metaPath = Some q" "names h q = Some (Regular j)"
      "encoded = inodes h j" and h1: "h1 = h\<lparr>faults := fs\<rparr>"
    by (auto simp: os_read_file_def os_stat_def split: fate.splits option.splits entry.splits)
  from assms r enc obtain p where p: "unmarshal partial_fields set_partial_field (of_bytes encoded) zero_partial = Some p"
    by (auto simp: matchingPartial_def split: option.splits)
  have same: "same_offer (part_File p) offered"
    using assms r enc p by (auto simp: matchingPartial_def same_offer_def split: if_splits)
  have eq: "matchingPartial metaPath partPath offered h =
     (case os_stat partPath h1 of
        (Some (Regular i), h2) \<Rightarrow>
          (if int (length (inodes h2 i)) \<noteq> part_ReceivedBytes p \<or> part_ReceivedBytes p < 0
              \<or> part_ReceivedBytes p > file_Size offered
              \<or> go_rem (part_ReceivedBytes p) (file_ChunkSize offered) \<noteq> 0
           then 0 else part_ReceivedBytes p, h2)
      | (_, h2) \<Rightarrow> (0, h2))"
    using r enc p same by (auto simp: matchingPartial_def same_offer_def)
  obtain e h2 where e: "os_stat partPath h1 = (e, h2)" by fastforce
  from assms eq e obtain i where i: "e = Some (Regular i)" by (auto split: option.splits entry.splits)
  have h2: "inodes h2 = inodes h" "\<exists>q. follow 40 (names h) partPath = Some q \<and> names h q = Some (Regular i)"
    using e i h1 by (cases rule: fate_of_cases [of h1], auto simp: os_stat_def split: fate.splits option.splits)+
  have "int (length (inodes h i)) = part_ReceivedBytes p" "0 \<le> part_ReceivedBytes p"
      "part_ReceivedBytes p \<le> file_Size offered" "go_rem (part_ReceivedBytes p) (file_ChunkSize offered) = 0"
      "n = part_ReceivedBytes p"
    using assms e i unfolding eq by (auto simp: h2(1) split: if_splits)
  then show ?thesis using meta p same h2(2) assms(2) by fastforce
qed

lemma matchingPartial_calm:
  assumes f: "faults h = []" and meta: "names h metaPath = Some (Regular j)" and part: "names h partPath = Some (Regular i)"
    and enc: "inodes h j = to_bytes (json_text (partial_json p))" "partial_ok p" and same: "same_offer (part_File p) offered"
  shows "matchingPartial metaPath partPath offered h =
     (if int (length (inodes h i)) \<noteq> part_ReceivedBytes p \<or> part_ReceivedBytes p < 0
         \<or> part_ReceivedBytes p > file_Size offered
         \<or> go_rem (part_ReceivedBytes p) (file_ChunkSize offered) \<noteq> 0
      then 0 else part_ReceivedBytes p, h)"
proof -
  have "follow 40 (names h) metaPath = Some metaPath" "follow 40 (names h) partPath = Some partPath"
    using meta part by (simp_all add: follow_40)
  then have "os_read_file metaPath h = (Some (inodes h j), h)" "os_stat partPath h = (Some (Regular i), h)"
    using f meta part by (simp_all add: os_read_file_def os_stat_def fate_of_fine)
  then show ?thesis
    using enc same by (auto simp: matchingPartial_def read_partial_written same_offer_def)
qed

lemma boundary_multiple:
  assumes "geometry md" "0 \<le> i" "boundary md i < file_Size md"
  shows "go_rem (boundary md i) (file_ChunkSize md) = 0"
proof -
  have b: "boundary md i = i * file_ChunkSize md" using assms(3) by (simp add: boundary_def min_def split: if_splits)
  have "0 < file_ChunkSize md" "0 \<le> i * file_ChunkSize md" using assms by (auto simp: geometry_def)
  then show ?thesis by (simp add: b go_rem_nonneg)
qed

text \<open>C10: A partial file is reused only for the file it belongs to: whatever the file system
  answers, a resume offset other than zero means that the sidecar names the offered name, size,
  modification time and chunk size and no different digest, and that the partial file holds
  exactly that many bytes, a whole number of chunks within the file.\<close>

theorem resume_only_same_file:
  assumes "matchingPartial metaPath partPath offered h = (n, h')" and "n \<noteq> 0"
  shows "\<exists>j p i q. follow 40 (names h) metaPath = Some q \<and> names h q = Some (Regular j)
    \<and> unmarshal partial_fields set_partial_field (of_bytes (inodes h j)) zero_partial = Some p
    \<and> same_offer (part_File p) offered \<and> part_ReceivedBytes p = n
    \<and> (\<exists>q. follow 40 (names h) partPath = Some q \<and> names h q = Some (Regular i)) \<and> int (length (inodes h i)) = n
    \<and> 0 < n \<and> n \<le> file_Size offered \<and> go_rem n (file_ChunkSize offered) = 0"
  using assms by (rule matchingPartial_reused)

text \<open>C11: A transfer interrupted right after a checkpoint resumes there: if the receiver asks again
  with the same file and no call fails, the offset found is exactly the number of bytes the
  checkpoint acknowledged, and the partial file holds exactly the bytes hashed up to it.\<close>

theorem resume_at_checkpoint:
  assumes "file_inv a ino L m" and "checkpoint tid a L m = (None, L', m')"
    and "faults m' = []" and "file_ok (rcv_metadata (rcv_heap m a))"
    and "expectedOffset L < file_Size (rcv_metadata (rcv_heap m a))"
    and "same_offer (rcv_metadata (rcv_heap m a)) offered"
  shows "fst (matchingPartial (rcv_metaPath (rcv_heap m a)) (rcv_partPath (rcv_heap m a)) offered m') = lastDurable L'
    \<and> lastDurable L' = expectedOffset L \<and> inodes m' ino = hashed L
    \<and> names m' (rcv_partPath (rcv_heap m a)) = Some (Regular ino)"
proof -
  define st where "st = rcv_heap m a"
  define md where "md = rcv_metadata st"
  define p where "p = \<lparr>part_File = md, part_ReceivedBytes = expectedOffset L\<rparr>"
  note C = checkpoint_ok [OF assms(1,2), folded st_def, folded md_def, folded p_def]
  from C obtain j where j: "names m' (rcv_metaPath st) = Some (Regular j)"
      "inodes m' j = to_bytes (json_text (partial_json p))" by blast
  have rh: "rcv_heap m' a = st" using C by (simp add: keeps_def same_tables_def st_def)
  have I: "geometry md" "names m' (rcv_partPath st) = Some (Regular ino)" "inodes m' ino = hashed L'"
      "int (length (hashed L')) = expectedOffset L'" "0 \<le> expectedIndex L'" "expectedOffset L' = boundary md (expectedIndex L')"
    using C [THEN conjunct1] by (simp_all add: file_inv_def owns_def Let_def rh md_def)
  have L': "L' = L\<lparr>lastDurable := expectedOffset L\<rparr>" using C by blast
  have off: "expectedOffset L = boundary md (expectedIndex L)" "boundary md (expectedIndex L) < file_Size md"
      "0 \<le> expectedOffset L" "0 \<le> expectedIndex L"
    using I assms(5) by (auto simp: L' md_def st_def)
  then have pos: "0 < file_Size md" "file_Size md < 2 ^ 63" using I(1) by (auto simp: geometry_def)
  have "partial_ok p" using assms(4) off pos by (auto simp: p_def partial_ok_def in_i64_def md_def st_def)
  then have "matchingPartial (rcv_metaPath st) (rcv_partPath st) offered m' = (expectedOffset L, m')"
    using I(3,4) off boundary_multiple [OF I(1) off(4,2)] assms(6)
    by (subst matchingPartial_calm [OF assms(3) j(1) I(2) j(2)])
       (auto simp: p_def L' same_offer_def md_def st_def)
  then show ?thesis using I(2,3) by (simp add: L' st_def)
qed


text \<open>A checkpoint at two bytes of the three-byte file, alone and followed by one more byte.\<close>

definition resume_partial :: partial_metadata where
  "resume_partial = \<lparr>part_File = demo_file, part_ReceivedBytes = 2\<rparr>"

definition resume_host :: "bytes \<Rightarrow> host" where
  "resume_host content = demo_host
     \<lparr>names := [''d/f.quickdrop.part'' \<mapsto> Regular 0, ''d/f.quickdrop.json'' \<mapsto> Regular 1],
      inodes := (\<lambda>i. if i = 1 then to_bytes (json_text (partial_json resume_partial)) else content), clock := []\<rparr>"

lemma resume_partial_ok: "partial_ok resume_partial"
  by code_simp

lemma resume_same_offer: "same_offer (part_File resume_partial) demo_file"
  by (simp add: same_offer_def resume_partial_def EqualFold_def)

theorem resume_only_same_file_witness:
  "fst (matchingPartial ''d/f.quickdrop.json'' ''d/f.quickdrop.part'' demo_file (resume_host [1, 2])) = 2
   \<and> (\<exists>i. int (length (inodes (resume_host [1, 2]) i)) = 2)"
proof -
  have m: "matchingPartial ''d/f.quickdrop.json'' ''d/f.quickdrop.part'' demo_file (resume_host [1, 2])
      = (2, resume_host [1, 2])"
    by (subst matchingPartial_calm [OF _ _ _ _ resume_partial_ok resume_same_offer, of _ _ 1 _ 0])
       (simp_all add: resume_host_def demo_host_def resume_partial_def demo_file_def go_rem_def go_quot_def)
  show ?thesis using resume_only_same_file [OF m] m by auto
qed


text \<open>A loop that holds two bytes and checkpoints.\<close>

definition two_loop :: recv_loop where
  "two_loop = (start_vars demo_file 0 [] 0)\<lparr>hashed := [1, 2], expectedOffset := 2, expectedIndex := 1\<rparr>"

definition two_manager :: manager where
  "two_manager = demo_manager\<lparr>inodes := (\<lambda>_. [1, 2]), handles := [0 \<mapsto> (0, 2)]\<rparr>"

theorem resume_at_checkpoint_witness:
  "\<exists>L' m'. checkpoint ''t'' 0 two_loop two_manager = (None, L', m')
     \<and> fst (matchingPartial ''d/f.quickdrop.json'' ''d/f.quickdrop.part'' demo_file m') = 2"
proof -
  have inv: "file_inv 0 0 two_loop two_manager"
    by (simp add: file_inv_def two_loop_def two_manager_def start_vars_def demo_manager_def demo_host_def demo_state_def
        demo_file_def geometry_def paths_ok_def owns_def NewTransferManager_def host.extend_def manager.fields_def
        zero_file_def TotalChunks_def i64_def go_quot_def boundary_def)
  have st: "rcv_heap two_manager 0 = demo_state" by (simp add: two_manager_def demo_manager_def)
  have "case checkpoint ''t'' 0 two_loop two_manager of (e, L', m') \<Rightarrow> e = None \<and> faults m' = []" by code_simp
  then obtain L' m' where c: "checkpoint ''t'' 0 two_loop two_manager = (None, L', m')" and f: "faults m' = []"
    by (auto split: prod.splits)
  have k: "file_ok (rcv_metadata (rcv_heap two_manager 0))" unfolding st by code_simp
  have o: "expectedOffset two_loop < file_Size (rcv_metadata (rcv_heap two_manager 0))"
    unfolding st by (simp add: two_loop_def demo_state_def demo_file_def)
  have "same_offer (rcv_metadata (rcv_heap two_manager 0)) demo_file"
    unfolding st by (simp add: same_offer_def demo_state_def EqualFold_def)
  from resume_at_checkpoint [OF inv c f k o this] c show ?thesis
    unfolding st by (auto simp: demo_state_def two_loop_def)
qed

end
