(* ===== verification/Receive_Entry.thy ===== *)
theory Receive_Entry
  imports Receive_Start Resume
begin

text \<open>
  What \<open>startReceive\<close> guarantees before a receive goroutine runs: the state it hands over is
  the one the goroutine's invariant starts from, two transfers never share a destination, the
  disk has room, symbolic links are refused, and names are reduced to their last component.
\<close>

section \<open>What the stages leave alone\<close>

definition only_faults :: "manager \<Rightarrow> manager \<Rightarrow> bool" where
  "only_faults m m' \<longleftrightarrow> (\<exists>fs. m' = m\<lparr>faults := fs\<rparr>)"

lemma only_faults_refl [simp]: "only_faults m m"
  unfolding only_faults_def by (rule exI [of _ "faults m"]) simp

lemma only_faults_trans [trans]: "only_faults m m1 \<Longrightarrow> only_faults m1 m2 \<Longrightarrow> only_faults m m2"
  by (auto simp: only_faults_def)

lemma only_faults_frame:
  assumes "only_faults m m'"
  shows "names m' = names m" "inodes m' = inodes m" "synced m' = synced m" "handles m' = handles m"
    "next_inode m' = next_inode m" "next_handle m' = next_handle m" "options m' = options m"
    "receivers m' = receivers m" "rcv_heap m' = rcv_heap m" "next_rcv m' = next_rcv m"
    "sent m' = sent m" "emitted m' = emitted m" "free_blocks m' = free_blocks m" "block_size m' = block_size m"
    "sha256 m' = sha256 m"
  using assms by (auto simp: only_faults_def)

lemma fate_of_only: "only_faults m (snd (fate_of m))"
  by (cases rule: fate_of_cases [of m]) (auto simp: only_faults_def)

lemma os_lstat_only: "only_faults m (snd (os_lstat p m))"
  using fate_of_only [of m] by (auto simp: os_lstat_def split: prod.splits fate.splits)

lemma os_stat_only: "only_faults m (snd (os_stat p m))"
  using fate_of_only [of m] by (auto simp: os_stat_def split: prod.splits fate.splits)

lemma os_read_file_only: "only_faults m (snd (os_read_file p m))"
  using os_stat_only [of m p] by (auto simp: os_read_file_def split: prod.splits option.splits entry.splits)

lemma matchingPartial_only: "only_faults m (snd (matchingPartial mp pp md m))"
proof -
  obtain r m1 where r: "os_read_file mp m = (r, m1)" by fastforce
  obtain e m2 where e: "os_stat pp m1 = (e, m2)" by fastforce
  have 1: "only_faults m m1" using os_read_file_only [of m mp] r by simp
  moreover have "only_faults m1 m2" using os_stat_only [of m1 pp] e by simp
  ultimately have 2: "only_faults m m2" by (rule only_faults_trans)
  show ?thesis using 1 2 r e
    by (auto simp: matchingPartial_def split: option.splits entry.splits)
qed

lemma first_symlink_only: "only_faults m (snd (first_symlink ps m))"
proof (induction ps m rule: first_symlink.induct)
  case (2 p ps m)
  obtain e m1 where e: "os_lstat p m = (e, m1)" by fastforce
  then have "only_faults m m1" using os_lstat_only [of m p] by simp
  then show ?case using 2 e by (auto split: option.splits entry.splits intro: only_faults_trans)
qed simp

lemma check_space_only: "only_faults m (snd (check_space d pp md off m))"
proof -
  obtain r m1 where r: "availableDiskBytes d m = (r, m1)" by fastforce
  then have 1: "only_faults m m1"
    using fate_of_only [of m] by (auto simp: availableDiskBytes_def split: prod.splits fate.splits)
  obtain e m2 where e: "os_stat pp m1 = (e, m2)" by fastforce
  have "only_faults m1 m2" using os_stat_only [of m1 pp] e by simp
  with 1 have "only_faults m m2" by (rule only_faults_trans)
  with 1 r e show ?thesis
    by (auto simp: check_space_def reclaimable_def Let_def split: sum.splits option.splits entry.splits)
qed

section \<open>Free space\<close>

text \<open>What the code counts as available, as a number: free blocks times block size in 64 bits, plus
  the size of a partial file about to be truncated.\<close>

definition counted_space :: "string \<Rightarrow> int \<Rightarrow> manager \<Rightarrow> nat" where
  "counted_space partPath off m =
     unat (free_blocks m * block_size m)
     + (if off = 0 then (case follow 40 (names m) partPath of
          None \<Rightarrow> 0
        | Some q \<Rightarrow> (case names m q of Some (Regular i) \<Rightarrow> length (inodes m i) | _ \<Rightarrow> 0)) else 0)"

lemma reclaim_bound:
  fixes available reclaim :: "64 word"
  shows "unat (if (- 1) - available > reclaim then available + reclaim else available) \<le> unat available + unat reclaim"
  by (simp add: unat_plus_if')

lemma check_space_ok:
  assumes "check_space d pp md off m = (None, m')" and "0 \<le> off" "off \<le> file_Size md" "file_Size md < 2 ^ 63"
  shows "file_Size md - off \<le> int (counted_space pp off m)"
proof -
  obtain f fs where fate: "fate_of m = (f, m\<lparr>faults := fs\<rparr>)" by (rule fate_of_cases)
  have fine: "f = Fine"
    using assms(1) fate by (auto simp: check_space_def availableDiskBytes_def split: fate.splits)
  define avail where "avail = free_blocks m * block_size m"
  obtain av m2 where r: "reclaimable pp off avail (m\<lparr>faults := fs\<rparr>) = (av, m2)" by fastforce
  have "\<not> av < remaining_bytes md off"
    using assms(1) fate fine r by (auto simp: check_space_def availableDiskBytes_def avail_def Let_def split: if_splits)
  moreover have "unat (remaining_bytes md off) = nat (file_Size md - off)"
  proof -
    define k where "k = nat (file_Size md - off)"
    have "i64 (file_Size md - off) = int k" "k < 2 ^ 64"
      using assms(2-4) by (simp_all add: k_def in_i64_def)
    then have "remaining_bytes md off = word_of_nat k" by (simp add: remaining_bytes_def)
    then show ?thesis using \<open>k < 2 ^ 64\<close> by (simp add: k_def [symmetric] unat_of_nat)
  qed
  ultimately have le: "nat (file_Size md - off) \<le> unat av"
    by (metis linorder_not_le word_less_nat_alt)
  have small: "unat (word_of_nat n :: 64 word) \<le> n" for n by (simp add: unat_of_nat)
  have "unat av \<le> counted_space pp off m"
  proof (cases "off = 0")
    case False
    then show ?thesis using r by (simp add: reclaimable_def counted_space_def avail_def)
  next
    case True
    obtain e m3 where e: "os_stat pp (m\<lparr>faults := fs\<rparr>) = (e, m3)" by fastforce
    show ?thesis
    proof (cases "\<exists>i. e = Some (Regular i)")
      case False
      then have "av = avail" using r e True by (auto simp: reclaimable_def split: option.splits entry.splits)
      then show ?thesis by (simp add: counted_space_def avail_def)
    next
      case True': True
      then obtain i where i: "e = Some (Regular i)" by blast
      have m3: "inodes m3 = inodes m" and q: "\<exists>q. follow 40 (names m) pp = Some q \<and> names m q = Some (Regular i)"
        using e i by (cases rule: fate_of_cases [of "m\<lparr>faults := fs\<rparr>"],
            auto simp: os_stat_def split: fate.splits option.splits)+
      have av: "av = (if (- 1) - avail > word_of_nat (length (inodes m i)) then avail + word_of_nat (length (inodes m i)) else avail)"
        using r e i m3 True by (auto simp: reclaimable_def Let_def)
      have "unat av \<le> unat avail + unat (word_of_nat (length (inodes m i)) :: 64 word)"
        unfolding av by (rule reclaim_bound)
      then have "unat av \<le> unat avail + length (inodes m i)"
        using small [of "length (inodes m i)"] by (rule order_trans [OF _ add_left_mono])
      then show ?thesis using q True by (auto simp: counted_space_def avail_def)
    qed
  qed
  with le show ?thesis by linarith
qed

section \<open>Opening and registering\<close>

lemma os_open_rw_cases:
  assumes "os_open_rw p trunc m = (Inr fd, m')" and plain: "\<And>q. names m p \<noteq> Some (Symlink q)"
  obtains (old) i fs where "names m p = Some (Regular i)" "fd = next_handle m"
      "m' = m\<lparr>faults := fs, inodes := (if trunc then (inodes m)(i := []) else inodes m),
         handles := (handles m)(fd \<mapsto> (i, 0)), next_handle := Suc (next_handle m)\<rparr>"
  | (created) fs where "names m p = None" "fd = next_handle m"
      "m' = m\<lparr>faults := fs, names := (names m)(p \<mapsto> Regular (next_inode m)),
         inodes := (inodes m)(next_inode m := []), synced := (synced m)(next_inode m := []),
         next_inode := Suc (next_inode m), handles := (handles m)(fd \<mapsto> (next_inode m, 0)),
         next_handle := Suc (next_handle m)\<rparr>"
proof -
  obtain f fs where fate: "fate_of m = (f, m\<lparr>faults := fs\<rparr>)" by (rule fate_of_cases)
  have fol: "follow 40 (names m) p = Some p" using plain by (rule follow_40)
  show thesis
  proof (cases "names m p")
    case None
    then show thesis using assms(1) fate fol
      by (intro created) (auto simp: os_open_rw_def split: fate.splits)
  next
    case (Some e)
    then show thesis using assms(1) fate fol plain
      by (cases e; intro old) (auto simp: os_open_rw_def split: fate.splits if_splits)
  qed
qed

text \<open>
  The disk as \<open>startReceive\<close> expects it: no hard links, fresh inode numbers unused, no symbolic
  link where the partial file and its sidecar go, and what is in an old partial file durable.
\<close>

definition disk_ready :: "string \<Rightarrow> manager \<Rightarrow> bool" where
  "disk_ready target m \<longleftrightarrow>
     (\<forall>p q i. names m p = Some (Regular i) \<longrightarrow> names m q = Some (Regular i) \<longrightarrow> p = q)
     \<and> (\<forall>p i. names m p = Some (Regular i) \<longrightarrow> i < next_inode m)
     \<and> (\<forall>q. names m (part_of target) \<noteq> Some (Symlink q)) \<and> (\<forall>q. names m (meta_of target) \<noteq> Some (Symlink q))
     \<and> (\<forall>q. names m (meta_of target @ ''.new'') \<noteq> Some (Symlink q))
     \<and> (\<forall>i. names m (part_of target) = Some (Regular i) \<longrightarrow> synced m i = inodes m i)"

lemma open_partial_ok:
  assumes "open_partial (part_of target) off m = (Inr fd, m')" and disk: "disk_ready target m" and off: "0 \<le> off"
    and old: "off \<noteq> 0 \<Longrightarrow> \<exists>i. names m (part_of target) = Some (Regular i) \<and> int (length (inodes m i)) = off"
  obtains ino where "handles m' fd = Some (ino, nat off)" "names m' (part_of target) = Some (Regular ino)"
    "\<And>p. names m' p = Some (Regular ino) \<Longrightarrow> p = part_of target" "ino < next_inode m'"
    "\<And>p. p \<noteq> part_of target \<Longrightarrow> names m' p = names m p" "int (length (inodes m' ino)) = off"
    "take (nat off) (synced m' ino) = inodes m' ino" "same_tables m m'" "next_rcv m' = next_rcv m"
    "off \<noteq> 0 \<Longrightarrow> names m' = names m \<and> inodes m' = inodes m"
proof -
  obtain m1 where o: "os_open_rw (part_of target) (off = 0) m = (Inr fd, m1)" and s: "os_seek fd off m1 = (None, m')"
    using assms(1) by (auto simp: open_partial_def split: sum.splits prod.splits option.splits)
  have plain: "\<And>q. names m (part_of target) \<noteq> Some (Symlink q)" using disk by (simp add: disk_ready_def)
  show thesis
  proof (cases rule: os_open_rw_cases [OF o plain])
    case (1 i fs)
    have h: "handles m1 fd = Some (i, 0)" using 1(2,3) by simp
    obtain fs2 where m': "m' = m1\<lparr>faults := fs2, handles := (handles m1)(fd \<mapsto> (i, nat off))\<rparr>"
      using s by (cases rule: os_seek_cases [OF h off]) auto
    have uniq: "p = part_of target" if "names m p = Some (Regular i)" for p
      using disk 1(1) that unfolding disk_ready_def by blast
    have i: "i < next_inode m" "synced m i = inodes m i" using disk 1(1) unfolding disk_ready_def by blast+
    have len: "off \<noteq> 0 \<Longrightarrow> int (length (inodes m i)) = off" using old 1(1) by auto
    have ino: "inodes m' = (if off = 0 then (inodes m)(i := []) else inodes m)" by (simp add: m' 1(3))
    have t: "take (nat off) (synced m i) = inodes m' i"
    proof (cases "off = 0")
      case False
      then have "nat off = length (inodes m i)" using len by linarith
      then show ?thesis using False i(2) by (simp add: ino)
    qed (simp add: ino)
    show thesis
    proof (rule that [of i])
      show "int (length (inodes m' i)) = off" using len by (simp add: ino)
      show "take (nat off) (synced m' i) = inodes m' i" using t by (simp add: m' 1(3))
      show "p = part_of target" if "names m' p = Some (Regular i)" for p
        using that by (intro uniq) (simp add: m' 1(3))
    qed (use 1 i in \<open>simp_all add: m' same_tables_def\<close>)
  next
    case (2 fs)
    have h: "handles m1 fd = Some (next_inode m, 0)" using 2(2,3) by simp
    obtain fs2 where m': "m' = m1\<lparr>faults := fs2, handles := (handles m1)(fd \<mapsto> (next_inode m, nat off))\<rparr>"
      using s by (cases rule: os_seek_cases [OF h off]) auto
    have uniq: "p = part_of target" if "names m' p = Some (Regular (next_inode m))" for p
    proof (rule ccontr)
      assume "p \<noteq> part_of target"
      then have "names m p = Some (Regular (next_inode m))" using that by (simp add: m' 2(3))
      then have "next_inode m < next_inode m" using disk unfolding disk_ready_def by blast
      then show False by simp
    qed
    have z: "off = 0" using old 2(1) by auto
    show thesis
    proof (rule that [of "next_inode m"])
      show "p = part_of target" if "names m' p = Some (Regular (next_inode m))" for p
        using that by (rule uniq)
    qed (use 2 z in \<open>simp_all add: m' same_tables_def\<close>)
  qed
qed

lemma begin_receive_result:
  assumes "begin_receive tid md name target fd off m = (m', Some (a, off'))"
  obtains m2 where "off' = off" "a = next_rcv m" "map_get (receivers m) tid = None"
    "writePartialMetadata (meta_of target) \<lparr>part_File = md, part_ReceivedBytes = off\<rparr>
       (register_receiver tid (new_receiver md target fd) m) = (None, m2)"
    "same_files m2 m'" "same_tables m2 m'" "next_rcv m' = next_rcv m2"
proof -
  define st where "st = new_receiver md target fd"
  define m1 where "m1 = register_receiver tid st m"
  obtain e m2 where w: "writePartialMetadata (meta_of target) \<lparr>part_File = md, part_ReceivedBytes = off\<rparr> m1 = (e, m2)"
    by fastforce
  have new: "map_get (receivers m) tid = None"
    using assms by (auto simp: begin_receive_def split: if_splits)
  with assms w have e: "e = None"
    by (auto simp: begin_receive_def Let_def m1_def [symmetric] st_def [symmetric] split: option.splits)
  obtain c ev where m': "m' = emit ev (snd (sendControl c m2))" and oa: "off' = off" "a = next_rcv m"
    using assms w new e by (auto simp: begin_receive_def Let_def m1_def [symmetric] st_def [symmetric])
  have "next_rcv (snd (sendControl c m2)) = next_rcv m2"
    by (cases rule: fate_of_cases [of m2]; simp add: sendControl_def split: fate.split)
  then have "next_rcv m' = next_rcv m2" by (simp add: m' emit_def)
  then show thesis
    using w e new oa unfolding m1_def st_def
    by (intro that [of m2]) (auto simp: m' intro: same_files_trans [OF sendControl_frame(1) emit_frame(1)]
        same_tables_trans [OF sendControl_frame(2) emit_frame(2)])
qed

lemma begin_receive_ok:
  assumes res: "begin_receive tid md name target fd off m = (m', Some (a, off'))"
    and md: "geometry md" and off: "0 \<le> off" "off \<le> file_Size md" "file_ChunkSize md dvd off"
    and fd: "handles m fd = Some (ino, nat off)" and part: "names m (part_of target) = Some (Regular ino)"
      "\<And>p. names m p = Some (Regular ino) \<Longrightarrow> p = part_of target" "ino < next_inode m"
    and tmp: "\<And>q. names m (meta_of target @ ''.new'') \<noteq> Some (Symlink q)"
    and cont: "int (length (inodes m ino)) = off" "take (nat off) (synced m ino) = inodes m ino"
    and opt: "0 \<le> opt_MaxReorderBufferBytes (options m)" "opt_MaxReorderBufferBytes (options m) < 2 ^ 62"
  shows "accepted a ino off m' \<and> off' = off \<and> rcv_heap m' a = new_receiver md target fd
    \<and> receivers m' = map_put tid a (receivers m)"
proof -
  define st where "st = new_receiver md target fd"
  define m1 where "m1 = register_receiver tid st m"
  obtain m2 where oa: "off' = off" "a = next_rcv m"
      and w: "writePartialMetadata (meta_of target) \<lparr>part_File = md, part_ReceivedBytes = off\<rparr> m1 = (None, m2)"
      and same: "same_files m2 m'" "same_tables m2 m'"
    using begin_receive_result [OF res] unfolding m1_def st_def by blast
  have po: "paths_ok st" by (simp add: paths_ok_def st_def new_receiver_def part_of_def meta_of_def)
  have n: "names m1 = names m" "next_inode m1 = next_inode m" "rcv_partPath st = part_of target"
      "tmp_path st = meta_of target @ ''.new''"
    by (simp_all add: m1_def register_receiver_def st_def new_receiver_def)
  have own: "owns st ino m1" unfolding owns_def n using part tmp by blast
  have meta: "rcv_metaPath st = meta_of target" by (simp add: st_def new_receiver_def)
  note W = writePartialMetadata_keeps [OF own po w [folded meta]]
  have T: "rcv_heap m' a = st" "receivers m' = map_put tid a (receivers m)" "options m' = options m"
    using W same oa by (simp_all add: keeps_def same_tables_def m1_def register_receiver_def)
  have F: "owns st ino m'" "handles m' fd = Some (ino, nat off)" "inodes m' ino = inodes m ino"
      "synced m' ino = synced m ino"
    using W same own fd
    by (simp_all add: keeps_def same_files_def owns_def m1_def register_receiver_def)
  have "accepted a ino off m'"
    using T(1,3) F po md off cont opt
    by (simp add: accepted_def Let_def st_def new_receiver_def)
  then show ?thesis using oa(1) T(1,2) by (simp add: st_def)
qed

section \<open>The handler as a sequence of stages\<close>

lemma startReceive_stages:
  assumes "startReceive tid md m = (m', Some (a, off))"
  obtains m1 m2 m3 m4 found fd m5 m6 where "refusal tid md m = None"
    "os_mkdir_all (receive_directory m) m = (None, m1)" "local_name md \<noteq> ''.''" "local_name md \<noteq> []"
    "\<not> destination_busy (Join (receive_directory m) (local_name md)) m1" "only_faults m1 m2"
    "first_symlink [part_of (Join (receive_directory m) (local_name md)), meta_of (Join (receive_directory m) (local_name md)),
        meta_of (Join (receive_directory m) (local_name md)) @ ''.new''] m2 = (None, m3)"
    "matchingPartial (meta_of (Join (receive_directory m) (local_name md))) (part_of (Join (receive_directory m) (local_name md)))
        md m3 = (found, m4)"
    "check_space (receive_directory m) (part_of (Join (receive_directory m) (local_name md))) md
        (if file_Resume md then found else 0) m4 = (None, m5)"
    "open_partial (part_of (Join (receive_directory m) (local_name md))) (if file_Resume md then found else 0) m5
        = (Inr fd, m6)"
    "begin_receive tid md (local_name md) (Join (receive_directory m) (local_name md)) fd
          (if file_Resume md then found else 0) m6 = (m', Some (a, off))"
proof -
  define target where "target = Join (receive_directory m) (local_name md)"
  have ref: "refusal tid md m = None" using assms by (auto simp: startReceive_def split: option.splits)
  obtain e1 m1 where mk: "os_mkdir_all (receive_directory m) m = (e1, m1)" by fastforce
  have e1: "e1 = None" using assms ref mk by (auto simp: startReceive_def Let_def split: option.splits)
  have name: "local_name md \<noteq> ''.''" "local_name md \<noteq> []"
    using assms ref mk e1 by (auto simp: startReceive_def Let_def split: if_splits)
  have free: "\<not> destination_busy target m1"
    using assms ref mk e1 name by (auto simp: startReceive_def Let_def target_def split: if_splits)
  obtain m2 where m2: "only_faults m1 m2"
      and prep: "prepare_receive tid md (receive_directory m) (local_name md) target m2 = (m', Some (a, off))"
  proof (cases "opt_Overwrite (options m1)")
    case True
    then show thesis using assms ref mk e1 name free
      by (intro that [of m1]) (auto simp: startReceive_def Let_def target_def)
  next
    case False
    obtain l m2 where l: "os_lstat target m1 = (l, m2)" by fastforce
    then have "only_faults m1 m2" using os_lstat_only [of m1 target] by simp
    then show thesis using assms ref mk e1 name free False l
      by (intro that [of m2]) (auto simp: startReceive_def Let_def target_def split: option.splits)
  qed
  obtain e3 m3 where sl: "first_symlink [part_of target, meta_of target, meta_of target @ ''.new''] m2 = (e3, m3)"
    by fastforce
  have e3: "e3 = None"
  proof (rule ccontr)
    assume "e3 \<noteq> None"
    with prep show False unfolding prepare_receive_def sl by auto
  qed
  obtain found m4 where mp: "matchingPartial (meta_of target) (part_of target) md m3 = (found, m4)" by fastforce
  define resume where "resume = (if file_Resume md then found else 0)"
  obtain e5 m5 where cs: "check_space (receive_directory m) (part_of target) md resume m4 = (e5, m5)" by fastforce
  have prep': "(case check_space (receive_directory m) (part_of target) md resume m4 of
                (Some err, m3) \<Rightarrow> (receiveFailed tid (local_name md) err m3, None)
              | (None, m3) \<Rightarrow>
                  (case open_partial (part_of target) resume m3 of
                     (Inl err, m4) \<Rightarrow> (receiveFailed tid (local_name md) err m4, None)
                   | (Inr fd, m4) \<Rightarrow> begin_receive tid md (local_name md) target fd resume m4)) = (m', Some (a, off))"
    using prep unfolding prepare_receive_def sl e3 mp resume_def Let_def prod.case option.case .
  have e5: "e5 = None" using prep' cs by (auto split: option.splits)
  obtain r m6 where op: "open_partial (part_of target) resume m5 = (r, m6)" by fastforce
  obtain fd where r: "r = Inr fd" using prep' cs e5 op by (auto split: sum.splits)
  have bg: "begin_receive tid md (local_name md) target fd resume m6 = (m', Some (a, off))"
    using prep' cs e5 op r by simp
  show thesis
    by (rule that [OF ref mk [unfolded e1] name, folded target_def, OF free m2 sl [unfolded e3] mp, folded resume_def,
        OF cs [unfolded e5] op [unfolded r] bg])
qed

lemma os_mkdir_all_cases:
  assumes "os_mkdir_all d m = (None, m')"
  obtains (there) "only_faults m m'"
  | (made) fs where "names m d = None" "m' = m\<lparr>faults := fs, names := (names m)(d \<mapsto> Dir False)\<rparr>"
proof -
  obtain f fs where fate: "fate_of m = (f, m\<lparr>faults := fs\<rparr>)" by (rule fate_of_cases)
  show thesis
  proof (cases "names m d")
    case None
    then show thesis using assms fate by (intro made) (auto simp: os_mkdir_all_def split: fate.splits)
  next
    case (Some e)
    then show thesis using assms fate
      by (intro there) (auto simp: os_mkdir_all_def only_faults_def split: fate.splits entry.splits)
  qed
qed

lemma os_mkdir_all_frame:
  assumes "os_mkdir_all d m = (None, m')"
  shows "same_tables m m'" "next_rcv m' = next_rcv m" "disk_ready target m \<Longrightarrow> disk_ready target m'"
    "free_blocks m' = free_blocks m" "block_size m' = block_size m"
proof -
  show "same_tables m m'" "next_rcv m' = next_rcv m" "free_blocks m' = free_blocks m" "block_size m' = block_size m"
    by (cases rule: os_mkdir_all_cases [OF assms]; auto simp: only_faults_def same_tables_def)+
  show "disk_ready target m'" if "disk_ready target m"
  proof (cases rule: os_mkdir_all_cases [OF assms])
    case 1
    then show ?thesis using that by (simp add: disk_ready_def only_faults_frame [OF 1])
  next
    case (2 fs)
    then show ?thesis using that by (auto simp: disk_ready_def)
  qed
qed

lemma disk_ready_only: "only_faults m m' \<Longrightarrow> disk_ready target m \<Longrightarrow> disk_ready target m'"
  by (simp add: disk_ready_def only_faults_frame)

lemma same_tables_only: "only_faults m m' \<Longrightarrow> same_tables m m'"
  by (auto simp: only_faults_def same_tables_def)

lemma refusal_None:
  assumes "refusal tid md m = None"
  shows "tid \<noteq> []" "validFileMetadata md" "opt_MaxFileSize (options m) > 0 \<Longrightarrow> file_Size md \<le> opt_MaxFileSize (options m)"
    "opt_AutoAccept (options m) \<or> (\<exists>f. opt_AcceptFile (options m) = Some f \<and> f md)"
    "map_get (receivers m) tid = None"
  using assms by (auto simp: refusal_def split: if_splits option.splits)

text \<open>What a successful start found: the offset to resume from fits the partial file.\<close>

lemma resume_offset_ok:
  assumes "matchingPartial (meta_of target) (part_of target) md m = (found, m')" and g: "geometry md"
    and disk: "disk_ready target m" and off: "off = (if file_Resume md then found else 0)"
  shows "0 \<le> off" "off \<le> file_Size md" "file_ChunkSize md dvd off"
    "off \<noteq> 0 \<Longrightarrow> \<exists>i. names m (part_of target) = Some (Regular i) \<and> int (length (inodes m i)) = off"
proof -
  have c: "0 < file_ChunkSize md" "0 \<le> file_Size md" using g by (auto simp: geometry_def)
  have fol: "follow 40 (names m) (part_of target) = Some (part_of target)"
    using disk by (intro follow_40) (simp add: disk_ready_def)
  have "off = 0 \<or> 0 < off \<and> off \<le> file_Size md \<and> go_rem off (file_ChunkSize md) = 0
      \<and> (\<exists>i. names m (part_of target) = Some (Regular i) \<and> int (length (inodes m i)) = off)"
  proof (cases "off = 0")
    case False
    then have f: "off = found" "found \<noteq> 0" using off by (auto split: if_splits)
    obtain i q where q: "follow 40 (names m) (part_of target) = Some q" "names m q = Some (Regular i)"
        "int (length (inodes m i)) = found" "0 < found" "found \<le> file_Size md" "go_rem found (file_ChunkSize md) = 0"
      using matchingPartial_reused [OF assms(1) f(2)] by blast
    moreover have "q = part_of target" using trans [OF q(1) [symmetric] fol] by simp
    ultimately show ?thesis unfolding f(1) by blast
  qed simp
  then show "0 \<le> off" "off \<le> file_Size md" "file_ChunkSize md dvd off"
    "off \<noteq> 0 \<Longrightarrow> \<exists>i. names m (part_of target) = Some (Regular i) \<and> int (length (inodes m i)) = off"
    using c by (auto simp: go_rem_nonneg)
qed

section \<open>Properties\<close>

text \<open>C13: When \<open>startReceive\<close> starts a receive goroutine, it hands over a state the goroutine can
  trust, whatever earlier calls failed: metadata that passed every check, a partial file opened
  for this transfer alone that holds exactly the bytes to resume from (a whole number of chunks,
  and none after truncation), its position at their end, and the receiver registered under the
  transfer's id.\<close>

theorem start_hands_over:
  assumes "startReceive tid md m = (m', Some (a, off))" and "file_Size md + file_ChunkSize md < 2 ^ 63"
    and "disk_ready (Join (receive_directory m) (local_name md)) m"
    and "0 \<le> opt_MaxReorderBufferBytes (options m)" and "opt_MaxReorderBufferBytes (options m) < 2 ^ 62"
  shows "(\<exists>ino. accepted a ino off m') \<and> map_get (receivers m') tid = Some a
    \<and> rcv_metadata (rcv_heap m' a) = md \<and> rcv_path (rcv_heap m' a) = Join (receive_directory m) (local_name md)
    \<and> (\<not> file_Resume md \<longrightarrow> off = 0)"
proof -
  define target where "target = Join (receive_directory m) (local_name md)"
  obtain m1 m2 m3 m4 found fd m5 m6 where S: "refusal tid md m = None"
    "os_mkdir_all (receive_directory m) m = (None, m1)" "local_name md \<noteq> ''.''" "local_name md \<noteq> []"
    "\<not> destination_busy target m1" "only_faults m1 m2"
    "first_symlink [part_of target, meta_of target, meta_of target @ ''.new''] m2 = (None, m3)"
    "matchingPartial (meta_of target) (part_of target) md m3 = (found, m4)"
    "check_space (receive_directory m) (part_of target) md (if file_Resume md then found else 0) m4 = (None, m5)"
    "open_partial (part_of target) (if file_Resume md then found else 0) m5 = (Inr fd, m6)"
    "begin_receive tid md (local_name md) target fd (if file_Resume md then found else 0) m6 = (m', Some (a, off))"
    by (rule startReceive_stages [OF assms(1), folded target_def])
  define res where "res = (if file_Resume md then found else 0)"
  have g: "geometry md" using geometry_valid refusal_None(2) [OF S(1)] assms(2) by blast
  have o3: "only_faults m1 m3" using only_faults_trans [OF S(6)] first_symlink_only [of m2] S(7) by (metis snd_conv)
  have o35: "only_faults m3 m5"
    using only_faults_trans [of m3 m4 m5] matchingPartial_only [of m3] check_space_only [of m4] S(8,9) by (metis snd_conv)
  have d3: "disk_ready target m3"
    using disk_ready_only [OF o3] os_mkdir_all_frame(3) [OF S(2)] assms(3) by (simp add: target_def)
  note R = resume_offset_ok [OF S(8) g d3 res_def]
  have d5: "disk_ready target m5" using disk_ready_only [OF o35] d3 .
  have old: "res \<noteq> 0 \<Longrightarrow> \<exists>i. names m5 (part_of target) = Some (Regular i) \<and> int (length (inodes m5 i)) = res"
    using R(4) by (simp add: only_faults_frame [OF o35])
  obtain ino where P: "handles m6 fd = Some (ino, nat res)" "names m6 (part_of target) = Some (Regular ino)"
    "\<And>p. names m6 p = Some (Regular ino) \<Longrightarrow> p = part_of target" "ino < next_inode m6"
    "\<And>p. p \<noteq> part_of target \<Longrightarrow> names m6 p = names m5 p" "int (length (inodes m6 ino)) = res"
    "take (nat res) (synced m6 ino) = inodes m6 ino" "same_tables m5 m6"
    using open_partial_ok [OF S(10)[folded res_def] d5 R(1) old] by blast
  have tmp: "names m6 (meta_of target @ ''.new'') \<noteq> Some (Symlink q)" for q
    using d5 P(5) [of "meta_of target @ ''.new''"] by (simp add: disk_ready_def meta_of_def part_of_def)
  have t: "options m6 = options m"
    using P(8) same_tables_only [OF only_faults_trans [OF o3 o35]] os_mkdir_all_frame(1) [OF S(2)]
    by (simp add: same_tables_def)
  have B: "accepted a ino res m' \<and> off = res \<and> rcv_heap m' a = new_receiver md target fd
      \<and> receivers m' = map_put tid a (receivers m6)"
    by (rule begin_receive_ok [OF S(11)[folded res_def] g R(1-3) P(1-4) tmp P(6,7)]) (use assms(4,5) t in simp_all)
  then show ?thesis by (auto simp: new_receiver_def target_def res_def)
qed

definition fresh_manager :: manager where
  "fresh_manager = NewTransferManager 65536 demo_options
     (demo_host\<lparr>names := [''d'' \<mapsto> Dir True], handles := Map.empty, next_inode := 0, next_handle := 0\<rparr>)"

definition demo_offer :: file_metadata where
  "demo_offer = demo_file\<lparr>file_SHA256 := []\<rparr>"

lemma demo_target: "Join (receive_directory fresh_manager) (local_name demo_offer) = ''d/f''"
  by code_simp

lemma fresh_names: "names fresh_manager = [''d'' \<mapsto> Dir True]"
  by (simp add: fresh_manager_def NewTransferManager_def host.extend_def manager.fields_def demo_host_def)

theorem start_hands_over_witness:
  "\<exists>m' a off. startReceive ''t'' demo_offer fresh_manager = (m', Some (a, off)) \<and> (\<exists>ino. accepted a ino off m')"
proof -
  have "case startReceive ''t'' demo_offer fresh_manager of (_, None) \<Rightarrow> False | (_, Some _) \<Rightarrow> True" by code_simp
  then obtain m' a off where r: "startReceive ''t'' demo_offer fresh_manager = (m', Some (a, off))"
    by (auto split: prod.splits option.splits)
  have s: "file_Size demo_offer + file_ChunkSize demo_offer < 2 ^ 63"
    by (simp add: demo_offer_def demo_file_def)
  have d: "disk_ready (Join (receive_directory fresh_manager) (local_name demo_offer)) fresh_manager"
    unfolding demo_target by (auto simp: disk_ready_def fresh_names part_of_def meta_of_def)
  have o: "opt_MaxReorderBufferBytes (options fresh_manager) = 67108864" by code_simp
  have "\<exists>ino. accepted a ino off m'"
    by (rule start_hands_over [OF r s d, THEN conjunct1]) (simp_all add: o)
  with r show ?thesis by blast
qed

text \<open>C14: A receive starts only if the disk had room for what is still to come: the bytes after the
  resume offset fit into the free space, plus the old partial file when that is truncated, as
  natural numbers: the unsigned 64-bit arithmetic of the check never makes room by wrapping.\<close>

theorem start_has_room:
  assumes "startReceive tid md m = (m', Some (a, off))" and "file_Size md + file_ChunkSize md < 2 ^ 63"
    and "disk_ready (Join (receive_directory m) (local_name md)) m"
    and "names m (receive_directory m) \<noteq> None"
    and "0 \<le> opt_MaxReorderBufferBytes (options m)" and "opt_MaxReorderBufferBytes (options m) < 2 ^ 62"
  shows "0 \<le> off \<and> off \<le> file_Size md
    \<and> file_Size md - off \<le> int (counted_space (part_of (Join (receive_directory m) (local_name md))) off m)"
proof -
  define target where "target = Join (receive_directory m) (local_name md)"
  obtain m1 m2 m3 m4 found fd m5 m6 where S: "refusal tid md m = None"
    "os_mkdir_all (receive_directory m) m = (None, m1)" "local_name md \<noteq> ''.''" "local_name md \<noteq> []"
    "\<not> destination_busy target m1" "only_faults m1 m2"
    "first_symlink [part_of target, meta_of target, meta_of target @ ''.new''] m2 = (None, m3)"
    "matchingPartial (meta_of target) (part_of target) md m3 = (found, m4)"
    "check_space (receive_directory m) (part_of target) md (if file_Resume md then found else 0) m4 = (None, m5)"
    "open_partial (part_of target) (if file_Resume md then found else 0) m5 = (Inr fd, m6)"
    "begin_receive tid md (local_name md) target fd (if file_Resume md then found else 0) m6 = (m', Some (a, off))"
    by (rule startReceive_stages [OF assms(1), folded target_def])
  have off: "off = (if file_Resume md then found else 0)" by (rule begin_receive_result [OF S(11)])
  have g: "geometry md" using geometry_valid refusal_None(2) [OF S(1)] assms(2) by blast
  have o1: "only_faults m m1"
    by (cases rule: os_mkdir_all_cases [OF S(2)]) (use assms(4) in auto)
  have o3: "only_faults m m3"
    using only_faults_trans [OF o1 only_faults_trans [OF S(6)]] first_symlink_only [of m2] S(7) by (metis snd_conv)
  have o4: "only_faults m m4"
    using only_faults_trans [OF o3] matchingPartial_only [of m3] S(8) by (metis snd_conv)
  have d3: "disk_ready target m3" using disk_ready_only [OF o3] assms(3) by (simp add: target_def)
  note R = resume_offset_ok [OF S(8) g d3 off]
  have "file_Size md < 2 ^ 63" using g by (auto simp: geometry_def)
  then have "file_Size md - off \<le> int (counted_space (part_of target) off m4)"
    by (rule check_space_ok [OF S(9)[folded off] R(1,2)])
  also have "counted_space (part_of target) off m4 = counted_space (part_of target) off m"
    by (simp only: counted_space_def only_faults_frame [OF o4])
  finally show ?thesis using R(1,2) by (simp add: target_def)
qed

theorem start_has_room_witness:
  "\<exists>m' a off. startReceive ''t'' demo_offer fresh_manager = (m', Some (a, off))
     \<and> 3 - off \<le> int (counted_space ''d/f.quickdrop.part'' off fresh_manager)"
proof -
  have "case startReceive ''t'' demo_offer fresh_manager of (_, None) \<Rightarrow> False | (_, Some _) \<Rightarrow> True" by code_simp
  then obtain m' a off where r: "startReceive ''t'' demo_offer fresh_manager = (m', Some (a, off))"
    by (auto split: prod.splits option.splits)
  have s: "file_Size demo_offer + file_ChunkSize demo_offer < 2 ^ 63" "file_Size demo_offer = 3"
    by (simp_all add: demo_offer_def demo_file_def)
  have d: "disk_ready (Join (receive_directory fresh_manager) (local_name demo_offer)) fresh_manager"
    unfolding demo_target by (auto simp: disk_ready_def fresh_names part_of_def meta_of_def)
  have o: "opt_MaxReorderBufferBytes (options fresh_manager) = 67108864" "receive_directory fresh_manager = ''d''"
    by code_simp+
  have "0 \<le> off \<and> off \<le> file_Size demo_offer \<and> file_Size demo_offer - off
      \<le> int (counted_space (part_of (Join (receive_directory fresh_manager) (local_name demo_offer))) off fresh_manager)"
    by (rule start_has_room [OF r s(1) d]) (simp_all add: o fresh_names)
  with r show ?thesis unfolding demo_target s(2) by (auto simp: part_of_def)
qed

text \<open>C15: A symbolic link planted at the name of the partial file, of the sidecar or of its
  temporary file is never followed: the offer is refused and no file and no name changes.\<close>

theorem symlink_refused:
  assumes "names m (receive_directory m) \<noteq> None" and "faults m = []"
    and "p \<in> set [part_of (Join (receive_directory m) (local_name md)), meta_of (Join (receive_directory m) (local_name md)),
          meta_of (Join (receive_directory m) (local_name md)) @ ''.new'']"
    and "names m p = Some (Symlink q)"
  shows "snd (startReceive tid md m) = None \<and> names (fst (startReceive tid md m)) = names m
    \<and> inodes (fst (startReceive tid md m)) = inodes m"
proof -
  define target where "target = Join (receive_directory m) (local_name md)"
  have F: "names (receiveFailed tid n e m1) = names m1 \<and> inodes (receiveFailed tid n e m1) = inodes m1" for n e m1
  proof -
    define c where "c = snd (sendControl (cancel_control tid e) m1)"
    obtain ev where "receiveFailed tid n e m1 = emit ev (finishReceiver tid c)"
      by (simp add: receiveFailed_def Let_def c_def)
    then show ?thesis
      using emit_frame(1) [where m = "finishReceiver tid c" and e = ev] sendControl_frame(1) [of m1 "cancel_control tid e"]
      by (simp add: same_files_def frame_simps c_def)
  qed
  have C: "names (refuse tid r m) = names m \<and> inodes (refuse tid r m) = inodes m" for r
    using sendControl_frame(1) [of m "cancel_control tid r"] by (simp add: same_files_def)
  have found: "\<exists>p. first_symlink ps m = (Some p, m)" if "p \<in> set ps" "names m p = Some (Symlink q)" for ps
    using that by (induction ps) (auto simp: os_lstat_def fate_of_fine assms(2) split: option.splits entry.splits)
  have P: "snd (prepare_receive tid md d n target m) = None
      \<and> names (fst (prepare_receive tid md d n target m)) = names m
      \<and> inodes (fst (prepare_receive tid md d n target m)) = inodes m" for d n
    using found [OF assms(3)[folded target_def] assms(4)] F by (auto simp: prepare_receive_def simp del: first_symlink.simps)
  have "os_mkdir_all (receive_directory m) m = (None, m)
      \<or> (\<exists>err. os_mkdir_all (receive_directory m) m = (Some err, m))"
    using assms(1) by (auto simp: os_mkdir_all_def fate_of_fine assms(2) split: entry.splits)
  moreover have "os_lstat target m = (names m target, m)" by (simp add: os_lstat_def fate_of_fine assms(2))
  ultimately show ?thesis
    using F C P by (auto simp: startReceive_def Let_def target_def [symmetric] split: option.split)
qed

theorem symlink_refused_witness:
  "snd (startReceive ''t'' demo_offer (fresh_manager\<lparr>names :=
      [''d'' \<mapsto> Dir False, ''d/f.quickdrop.part'' \<mapsto> Symlink ''/etc/passwd'']\<rparr>)) = None"
  (is "snd (startReceive _ _ ?m) = None")
proof -
  have "receive_directory ?m = ''d''" "Join (receive_directory ?m) (local_name demo_offer) = ''d/f''" "faults ?m = []"
    by code_simp+
  then show ?thesis
    using symlink_refused [of ?m "''d/f.quickdrop.part''" demo_offer "''/etc/passwd''" "''t''"] by (simp add: part_of_def)
qed

end
