(* ===== verification/Handlers.thy ===== *)
theory Handlers
  imports Receive_Safety Receive_Start
begin

text \<open>
  What a \<open>TransferManager\<close> does when the DataChannel calls it: \<open>handleMessage\<close> and
  \<open>handleControl\<close> of \<open>src/transfer/manager.go\<close>, the callbacks \<open>NewTransferManager\<close> installs,
  and \<open>SendText\<close>. A handler that selects between several ready cases, or that blocks, has a
  list of outcomes: no outcome means it waits. An outcome may start a goroutine that runs
  \<open>startReceive\<close>.
\<close>

section \<open>Trimming white space\<close>

text \<open>The encodings of the runes \<open>unicode.IsSpace\<close> accepts.\<close>

definition space_runes :: "string list" where
  "space_runes =
     [[CHR 0x09], [CHR 0x0A], [CHR 0x0B], [CHR 0x0C], [CHR 0x0D], [CHR 0x20], [CHR 0xC2, CHR 0x85], [CHR
      0xC2, CHR 0xA0], [CHR 0xE1, CHR 0x9A, CHR 0x80], [CHR 0xE2, CHR 0x80, CHR 0x80], [CHR 0xE2, CHR
      0x80, CHR 0x81], [CHR 0xE2, CHR 0x80, CHR 0x82], [CHR 0xE2, CHR 0x80, CHR 0x83], [CHR 0xE2, CHR
      0x80, CHR 0x84], [CHR 0xE2, CHR 0x80, CHR 0x85], [CHR 0xE2, CHR 0x80, CHR 0x86], [CHR 0xE2, CHR
      0x80, CHR 0x87], [CHR 0xE2, CHR 0x80, CHR 0x88], [CHR 0xE2, CHR 0x80, CHR 0x89], [CHR 0xE2, CHR
      0x80, CHR 0x8A], [CHR 0xE2, CHR 0x80, CHR 0xA8], [CHR 0xE2, CHR 0x80, CHR 0xA9], [CHR 0xE2, CHR
      0x80, CHR 0xAF], [CHR 0xE2, CHR 0x81, CHR 0x9F], [CHR 0xE3, CHR 0x80, CHR 0x80]]"

function strip_prefixes :: "string list \<Rightarrow> string \<Rightarrow> string" where
  "strip_prefixes ps s =
     (case find (\<lambda>p. p \<noteq> [] \<and> take (length p) s = p) ps of
        None \<Rightarrow> s
      | Some p \<Rightarrow> strip_prefixes ps (drop (length p) s))"
  by pat_completeness auto
termination
proof (relation "measure (\<lambda>(ps, s). length s)")
  fix ps :: "string list" and s p :: string
  assume "find (\<lambda>p. p \<noteq> [] \<and> take (length p) s = p) ps = Some p"
  then have p: "p \<noteq> []" "take (length p) s = p" by (auto simp: find_Some_iff)
  then have "s \<noteq> []" by auto
  with p(1) show "((ps, drop (length p) s), ps, s) \<in> measure (\<lambda>(ps, s). length s)" by simp
qed simp

declare strip_prefixes.simps [simp del]

definition TrimSpace :: "string \<Rightarrow> string" where
  "TrimSpace s = rev (strip_prefixes (map rev space_runes) (rev (strip_prefixes space_runes s)))"

section \<open>Identifiers\<close>

definition randomID :: "manager \<Rightarrow> string \<times> manager" where
  "randomID m =
     (case entropy m of
        Some buffer # rest \<Rightarrow> (hex_text buffer, m\<lparr>entropy := rest\<rparr>)
      | _ \<Rightarrow>
          (case time_now (m\<lparr>entropy := tl (entropy m)\<rparr>) of (now, m1) \<Rightarrow> (int_text now, m1)))"

section \<open>Sending a text\<close>

definition text_control :: "string \<Rightarrow> string \<Rightarrow> int \<Rightarrow> control" where
  "text_control txt ident now =
     zero_control\<lparr>ctl_Version := 1, ctl_Type := ''text'', ctl_ID := ident, ctl_Timestamp := now div 1000000,
       ctl_Payload := Some (JObj [(''text'', JStr txt)])\<rparr>"

definition SendText :: "string \<Rightarrow> manager \<Rightarrow> string option \<times> manager" where
  "SendText txt m =
     (let txt = TrimSpace txt in
      if txt = [] then (Some ''text is empty'', m)
      else
        (let (ident, m1) = randomID m; (now, m2) = time_now m1 in
         case sendControl (text_control txt ident now) m2 of
           (Some err, m3) \<Rightarrow> (Some err, m3)
         | (None, m3) \<Rightarrow>
             (None, emit (zero_event\<lparr>evt_Type := ''text'', evt_Direction := ''send'', evt_Text := txt\<rparr>) m3)))"

definition set_text_field :: "string setter" where
  "set_text_field k v s = (if k = ''text'' then get_string v s else None)"

definition receive_text :: "control \<Rightarrow> manager \<Rightarrow> manager" where
  "receive_text message m =
     (case ctl_Payload message of
        None \<Rightarrow> m
      | Some v \<Rightarrow>
          (case decode_struct [''text''] set_text_field v [] of
             None \<Rightarrow> m
           | Some txt \<Rightarrow>
               if txt = [] then m
               else emit (zero_event\<lparr>evt_Type := ''text'', evt_Direction := ''receive'', evt_Text := txt\<rparr>) m))"

section \<open>Sender handlers\<close>

abbreviation update_sender :: "nat \<Rightarrow> (send_state \<Rightarrow> send_state) \<Rightarrow> manager \<Rightarrow> manager" where
  "update_sender s f m \<equiv> m\<lparr>snd_heap := (snd_heap m)(s := f (snd_heap m s))\<rparr>"

definition acceptSender :: "string \<Rightarrow> int \<Rightarrow> manager \<Rightarrow> manager" where
  "acceptSender transferID offset m =
     (case map_get (senders m) transferID of
        None \<Rightarrow> m
      | Some s \<Rightarrow>
          if snd_accept (snd_heap m s) = None then
            update_sender s (\<lambda>st. st\<lparr>snd_accept := Some offset\<rparr>) m
          else m)"

text \<open>The part the two acknowledgements share: the progress event and the wake-up.\<close>

definition confirm :: "string \<Rightarrow> nat \<Rightarrow> int \<Rightarrow> manager \<Rightarrow> manager" where
  "confirm transferID s previous m =
     (let st = snd_heap m s; confirmed = snd_received st;
          m1 = (if confirmed > previous then
                  emit (zero_event\<lparr>evt_Type := ''progress'', evt_TransferID := transferID,
                    evt_Direction := ''send'', evt_Name := snd_name st, evt_Transferred := confirmed,
                    evt_Size := snd_size st\<rparr>) m
                else m)
      in update_sender s (\<lambda>st. st\<lparr>snd_acks := True\<rparr>) m1)"

definition handle_file_ack :: "control \<Rightarrow> manager \<Rightarrow> manager" where
  "handle_file_ack message m =
     (case map_get (senders m) (ctl_TransferID message) of
        None \<Rightarrow> m
      | Some s \<Rightarrow>
          (let previous = snd_received (snd_heap m s); n = ctl_ReceivedBytes message
           in confirm (ctl_TransferID message) s previous
                (update_sender s (\<lambda>st. st\<lparr>snd_acked := (if n > snd_acked st then n else snd_acked st),
                   snd_received := (if n > snd_received st then n else snd_received st)\<rparr>) m)))"

definition handle_file_progress :: "control \<Rightarrow> manager \<Rightarrow> manager" where
  "handle_file_progress message m =
     (case map_get (senders m) (ctl_TransferID message) of
        None \<Rightarrow> m
      | Some s \<Rightarrow>
          (let previous = snd_received (snd_heap m s); n = ctl_ReceivedBytes message
           in confirm (ctl_TransferID message) s previous
                (update_sender s
                   (\<lambda>st. st\<lparr>snd_received := (if n > snd_received st then n else snd_received st)\<rparr>) m)))"

section \<open>Receiver handlers\<close>

abbreviation push_event :: "nat \<Rightarrow> receive_event \<Rightarrow> manager \<Rightarrow> manager" where
  "push_event a ev m \<equiv>
     m\<lparr>rcv_heap := (rcv_heap m)(a := (rcv_heap m a)\<lparr>rcv_events := rcv_events (rcv_heap m a) @ [ev]\<rparr>)\<rparr>"

abbreviation chunk_item :: "chunk_header \<Rightarrow> bytes \<Rightarrow> receive_event" where
  "chunk_item header data \<equiv> \<lparr>rev_header = Some header, rev_data = data, rev_end = None, rev_cancel = None\<rparr>"

abbreviation end_item :: "control \<Rightarrow> receive_event" where
  "end_item message \<equiv> \<lparr>rev_header = None, rev_data = [], rev_end = Some message, rev_cancel = None\<rparr>"

abbreviation cancel_item :: "string \<Rightarrow> receive_event" where
  "cancel_item reason \<equiv> \<lparr>rev_header = None, rev_data = [], rev_end = None, rev_cancel = Some reason\<rparr>"

definition has_room :: "nat \<Rightarrow> manager \<Rightarrow> bool" where
  "has_room a m \<longleftrightarrow> length (rcv_events (rcv_heap m a)) < receiveEventQueueSize"

text \<open>The \<open>select\<close> that hands an event to a receive loop: it waits while the queue is full,
  the receiver not done and the channel open.\<close>

definition offer_event :: "nat \<Rightarrow> receive_event \<Rightarrow> manager \<Rightarrow> manager list" where
  "offer_event a ev m =
     (if has_room a m then [push_event a ev m] else [])
     @ (if rcv_done (rcv_heap m a) then [m] else []) @ (if mgr_closed m then [m] else [])"

definition handle_file_end :: "control \<Rightarrow> manager \<Rightarrow> manager list" where
  "handle_file_end message m =
     (case map_get (receivers m) (ctl_TransferID message) of
        None \<Rightarrow> [m]
      | Some a \<Rightarrow> offer_event a (end_item message) m)"

definition cancel_receiver :: "control \<Rightarrow> nat \<Rightarrow> manager \<Rightarrow> manager" where
  "cancel_receiver message a m =
     (let trimmed = TrimSpace (ctl_Reason message);
          reason = (if trimmed = [] then ''sender cancelled the transfer'' else trimmed)
      in if has_room a m then push_event a (cancel_item reason) m
         else receiveFailed (ctl_TransferID message) (file_Name (rcv_metadata (rcv_heap m a))) reason m)"

definition cancel_sender :: "control \<Rightarrow> nat \<Rightarrow> manager \<Rightarrow> manager" where
  "cancel_sender message s m =
     (let trimmed = TrimSpace (ctl_Reason message);
          reason = (if trimmed = [] then ''receiver cancelled the transfer'' else trimmed)
      in if snd_once (snd_heap m s) then m
         else update_sender s (\<lambda>st. st\<lparr>snd_once := True, snd_cancel := Some reason\<rparr>) m)"

definition handle_file_cancel :: "control \<Rightarrow> manager \<Rightarrow> manager" where
  "handle_file_cancel message m =
     (let receiver = map_get (receivers m) (ctl_TransferID message);
          sender = map_get (senders m) (ctl_TransferID message);
          m1 = (case receiver of None \<Rightarrow> m | Some a \<Rightarrow> cancel_receiver message a m)
      in (case sender of None \<Rightarrow> m1 | Some s \<Rightarrow> cancel_sender message s m1))"

section \<open>Dispatch\<close>

text \<open>A started goroutine: the arguments of its call of \<open>startReceive\<close>.\<close>

type_synonym spawned = "(string \<times> file_metadata) option"

definition handleControl :: "control \<Rightarrow> manager \<Rightarrow> (manager \<times> spawned) list" where
  "handleControl message m =
     (let kind = ctl_Type message in
      if kind = ''text'' then [(receive_text message m, None)]
      else if kind = ''file_start'' \<or> kind = ''resume_query'' then
        [(m, map_option (Pair (ctl_TransferID message)) (ctl_File message))]
      else if kind = ''file_accept'' then [(acceptSender (ctl_TransferID message) 0 m, None)]
      else if kind = ''resume_state'' then
        [(acceptSender (ctl_TransferID message) (ctl_ReceivedBytes message) m, None)]
      else if kind = ''file_ack'' then [(handle_file_ack message m, None)]
      else if kind = ''file_progress'' then [(handle_file_progress message m, None)]
      else if kind = ''file_end'' then map (\<lambda>m1. (m1, None)) (handle_file_end message m)
      else if kind = ''file_cancel'' then [(handle_file_cancel message m, None)]
      else [(m, None)])"

datatype channel_message = TextMessage string | BinaryMessage bytes

definition handle_packet :: "chunk_header \<Rightarrow> bytes \<Rightarrow> manager \<Rightarrow> manager list" where
  "handle_packet header payload m =
     (case map_get (receivers m) (hdr_TransferID header) of
        None \<Rightarrow> [snd (sendControl (cancel_control (hdr_TransferID header) ''unknown transfer'') m)]
      | Some a \<Rightarrow> offer_event a (chunk_item header payload) m)"

definition handleMessage :: "channel_message \<Rightarrow> manager \<Rightarrow> (manager \<times> spawned) list" where
  "handleMessage message m =
     (case message of
        TextMessage raw \<Rightarrow>
          (case DecodeControl raw of Inl _ \<Rightarrow> [(m, None)] | Inr c \<Rightarrow> handleControl c m)
      | BinaryMessage raw \<Rightarrow>
          (case DecodeChunk raw of
             Inl err \<Rightarrow> [(emit (zero_event\<lparr>evt_Type := ''error'', evt_Message := error_text err\<rparr>) m, None)]
           | Inr (header, payload) \<Rightarrow> map (\<lambda>m1. (m1, None)) (handle_packet header payload m)))"

section \<open>The other callbacks of the channel\<close>

definition on_buffered_amount_low :: "manager \<Rightarrow> manager" where
  "on_buffered_amount_low m = m\<lparr>writable := True\<rparr>"

definition on_close :: "manager \<Rightarrow> manager" where
  "on_close m = m\<lparr>mgr_closed := True\<rparr>"

definition on_error :: "string \<Rightarrow> manager \<Rightarrow> manager" where
  "on_error err m = emit (zero_event\<lparr>evt_Type := ''error'', evt_Message := err\<rparr>) m"

text \<open>One call by the channel.\<close>

inductive channel_call :: "manager \<Rightarrow> manager \<Rightarrow> bool" where
  message: "(m', sp) \<in> set (handleMessage msg m) \<Longrightarrow> channel_call m m'"
| writable: "channel_call m (on_buffered_amount_low m)"
| closed: "channel_call m (on_close m)"
| failed: "channel_call m (on_error err m)"


section \<open>What every call leaves alone\<close>

text \<open>The guarantee of the handlers towards the receive loops.\<close>

definition unobtrusive :: "manager \<Rightarrow> manager \<Rightarrow> bool" where
  "unobtrusive m m' \<longleftrightarrow> names m' = names m \<and> inodes m' = inodes m \<and> synced m' = synced m
     \<and> next_inode m' = next_inode m \<and> options m' = options m \<and> sha256 m' = sha256 m
     \<and> senders m' = senders m
     \<and> (\<forall>fd. handles m' fd = handles m fd \<or> handles m' fd = None)
     \<and> (\<forall>a. \<exists>es d. rcv_heap m' a = (rcv_heap m a)\<lparr>rcv_events := es, rcv_done := d\<rparr>)
     \<and> (\<exists>cs. sent m' = sent m @ cs \<and> (\<forall>c\<in>set cs. ctl_Type c = ''file_cancel''))"

lemma receive_state_self: "\<exists>es d. st = st\<lparr>rcv_events := es, rcv_done := d\<rparr>"
  by (rule exI [of _ "rcv_events st"], rule exI [of _ "rcv_done st"]) simp

lemma unobtrusive_refl [simp]: "unobtrusive m m"
  by (simp add: unobtrusive_def receive_state_self)

lemma unobtrusive_trans [trans]:
  assumes "unobtrusive m m1" "unobtrusive m1 m2"
  shows "unobtrusive m m2"
proof -
  have "\<exists>es d. rcv_heap m2 a = (rcv_heap m a)\<lparr>rcv_events := es, rcv_done := d\<rparr>" for a
  proof -
    obtain es d where 1: "rcv_heap m1 a = (rcv_heap m a)\<lparr>rcv_events := es, rcv_done := d\<rparr>"
      using assms(1) unfolding unobtrusive_def by blast
    obtain es' d' where "rcv_heap m2 a = (rcv_heap m1 a)\<lparr>rcv_events := es', rcv_done := d'\<rparr>"
      using assms(2) unfolding unobtrusive_def by blast
    then show ?thesis unfolding 1 by simp blast
  qed
  moreover have "handles m2 fd = handles m fd \<or> handles m2 fd = None" for fd
    using assms unfolding unobtrusive_def by metis
  moreover have "\<exists>cs. sent m2 = sent m @ cs \<and> (\<forall>c\<in>set cs. ctl_Type c = ''file_cancel'')"
  proof -
    obtain cs where 1: "sent m1 = sent m @ cs" "\<forall>c\<in>set cs. ctl_Type c = ''file_cancel''"
      using assms(1) unfolding unobtrusive_def by blast
    obtain cs' where 2: "sent m2 = sent m1 @ cs'" "\<forall>c\<in>set cs'. ctl_Type c = ''file_cancel''"
      using assms(2) unfolding unobtrusive_def by blast
    show ?thesis by (rule exI [of _ "cs @ cs'"]) (use 1 2 in auto)
  qed
  ultimately show ?thesis using assms unfolding unobtrusive_def by auto
qed

lemma unobtrusive_tables:
  assumes "same_files m m'" "same_tables m m'"
    and "\<exists>cs. sent m' = sent m @ cs \<and> (\<forall>c\<in>set cs. ctl_Type c = ''file_cancel'')"
  shows "unobtrusive m m'"
  using assms by (simp add: unobtrusive_def same_files_def same_tables_def receive_state_self)

lemma unobtrusive_emit: "unobtrusive m (emit e m)"
  by (rule unobtrusive_tables) (simp_all add: frame_simps)

lemma unobtrusive_cancel: "unobtrusive m (snd (sendControl (cancel_control tid reason) m))"
proof (rule unobtrusive_tables)
  show "\<exists>cs. sent (snd (sendControl (cancel_control tid reason) m)) = sent m @ cs
      \<and> (\<forall>c\<in>set cs. ctl_Type c = ''file_cancel'')"
    using sendControl_sent [of "cancel_control tid reason" m] by auto
qed (simp_all add: frame_simps)

lemma os_close_handles: "handles (snd (os_close fd m)) = handles m \<or> handles (snd (os_close fd m)) = (handles m)(fd := None)"
proof (cases "handles m fd")
  case (Some v)
  then show ?thesis
    by (cases rule: fate_of_cases [of m]) (auto simp: os_close_def split: fate.split)
qed (simp add: os_close_def)

lemma os_close_rest:
  "names (snd (os_close fd m)) = names m" "inodes (snd (os_close fd m)) = inodes m"
  "synced (snd (os_close fd m)) = synced m" "next_inode (snd (os_close fd m)) = next_inode m"
  "same_tables m (snd (os_close fd m))" "sent (snd (os_close fd m)) = sent m"
  by (cases "handles m fd"; cases rule: fate_of_cases [of m];
      simp add: os_close_def same_tables_def split: fate.split prod.split)+

lemma unobtrusive_close: "unobtrusive m (snd (os_close fd m))"
proof -
  have "handles (snd (os_close fd m)) x = handles m x \<or> handles (snd (os_close fd m)) x = None" for x
    using os_close_handles [where fd = fd and m = m] by (cases "x = fd") auto
  then show ?thesis
    using os_close_rest [where fd = fd and m = m]
    by (simp add: unobtrusive_def same_tables_def receive_state_self)
qed

lemma unobtrusive_finish: "unobtrusive m (finishReceiver tid m)"
proof (cases "map_get (receivers m) tid")
  case None
  then show ?thesis by (simp add: finishReceiver_def)
next
  case (Some a)
  define m1 where "m1 = m\<lparr>receivers := map_del tid (receivers m), rcv_heap := (rcv_heap m)(a := (rcv_heap m a)\<lparr>rcv_done := True\<rparr>)\<rparr>"
  have "\<exists>es d. (rcv_heap m a)\<lparr>rcv_done := True\<rparr> = (rcv_heap m a)\<lparr>rcv_events := es, rcv_done := d\<rparr>"
    by (rule exI [of _ "rcv_events (rcv_heap m a)"], rule exI [of _ True]) simp
  then have "unobtrusive m m1"
    by (auto simp: unobtrusive_def m1_def receive_state_self)
  also have "unobtrusive m1 (snd (os_close (rcv_file (rcv_heap m1 a)) m1))" by (rule unobtrusive_close)
  finally show ?thesis using Some by (simp add: finishReceiver_def Let_def m1_def)
qed

lemma unobtrusive_failed: "unobtrusive m (receiveFailed tid n err m)"
  unfolding receiveFailed_def Let_def
  by (rule unobtrusive_trans [OF unobtrusive_cancel unobtrusive_trans [OF unobtrusive_finish unobtrusive_emit]])

lemma unobtrusive_push: "unobtrusive m (push_event a ev m)"
proof -
  have "\<exists>es d. (rcv_heap m a)\<lparr>rcv_events := rcv_events (rcv_heap m a) @ [ev]\<rparr>
      = (rcv_heap m a)\<lparr>rcv_events := es, rcv_done := d\<rparr>"
    by (rule exI [of _ "rcv_events (rcv_heap m a) @ [ev]"], rule exI [of _ "rcv_done (rcv_heap m a)"]) simp
  then show ?thesis by (auto simp: unobtrusive_def receive_state_self)
qed

lemma unobtrusive_sender: "unobtrusive m (m\<lparr>snd_heap := h\<rparr>)"
  by (simp add: unobtrusive_def receive_state_self)

lemma unobtrusive_confirm: "unobtrusive m (confirm tid s n m)"
  unfolding confirm_def Let_def
  by (rule unobtrusive_trans [OF _ unobtrusive_sender]) (simp add: unobtrusive_emit)

lemma unobtrusive_ack: "unobtrusive m (confirm tid s n (m\<lparr>snd_heap := h\<rparr>))"
  by (rule unobtrusive_trans [OF unobtrusive_sender unobtrusive_confirm])

lemma unobtrusive_offer: "m' \<in> set (offer_event a ev m) \<Longrightarrow> unobtrusive m m'"
  by (auto simp: offer_event_def unobtrusive_push split: if_splits)

lemma unobtrusive_control: "(m', sp) \<in> set (handleControl c m) \<Longrightarrow> unobtrusive m m'"
proof -
  have ack: "unobtrusive m (handle_file_ack c m)" "unobtrusive m (handle_file_progress c m)"
    unfolding handle_file_ack_def handle_file_progress_def Let_def
    by (cases "map_get (senders m) (ctl_TransferID c)"; simp only: option.case; (rule unobtrusive_refl unobtrusive_ack))+
  have accept: "unobtrusive m (acceptSender tid n m)" for tid n
    by (auto simp: acceptSender_def unobtrusive_sender split: option.split)
  have note_text: "unobtrusive m (receive_text c m)"
    by (auto simp: receive_text_def unobtrusive_emit split: option.split)
  have r: "unobtrusive m (cancel_receiver c a m)" for a
    by (auto simp: cancel_receiver_def Let_def unobtrusive_push unobtrusive_failed)
  have s: "unobtrusive m1 (cancel_sender c s m1)" for s m1
    by (auto simp: cancel_sender_def Let_def unobtrusive_sender)
  have cancel: "unobtrusive m (handle_file_cancel c m)"
    unfolding handle_file_cancel_def Let_def
    using r s unobtrusive_trans [OF r s] by (auto split: option.split)
  have fin: "m1 \<in> set (handle_file_end c m) \<Longrightarrow> unobtrusive m m1" for m1
    by (auto simp: handle_file_end_def dest: unobtrusive_offer split: option.splits)
  show "(m', sp) \<in> set (handleControl c m) \<Longrightarrow> unobtrusive m m'"
    using ack accept note_text cancel fin by (auto simp: handleControl_def Let_def split: if_splits)
qed

lemma unobtrusive_call: "channel_call m m' \<Longrightarrow> unobtrusive m m'"
proof (induction rule: channel_call.induct)
  case (message m' sp msg m)
  then show ?case
    by (auto simp: handleMessage_def handle_packet_def unobtrusive_emit unobtrusive_cancel
        dest: unobtrusive_control unobtrusive_offer split: channel_message.splits sum.splits option.splits)
next
  case (failed m err)
  show ?case unfolding on_error_def by (rule unobtrusive_emit)
qed (simp_all add: on_buffered_amount_low_def on_close_def unobtrusive_def receive_state_self)

lemma unobtrusive_others:
  assumes "unobtrusive m m'" and "owns (rcv_heap m a) ino m"
  shows "others tid a ino m m'"
proof -
  obtain cs where cs: "sent m' = sent m @ cs" "\<forall>c\<in>set cs. ctl_Type c = ''file_cancel''"
    using assms(1) unfolding unobtrusive_def by blast
  have "filter (\<lambda>c. ctl_TransferID c = tid \<and> (ctl_Type c = ''file_ack'' \<or> ctl_Type c = ''file_progress'')) cs = []"
    using cs(2) by (auto simp: filter_empty_conv)
  then have "acks_of tid m' = acks_of tid m" by (simp add: acks_of_def cs(1))
  then show ?thesis using assms unfolding others_def unobtrusive_def owns_def Let_def by auto
qed

text \<open>C17: Whatever message, error or close event the channel delivers, a handler never disturbs a
  running receive loop: it leaves the loop's file and its names alone, queues events or ends the
  receiver at most, and never acknowledges anything in its name. This is the rely condition the
  theorems on the loop are proved under.\<close>

theorem channel_calls_respect_receivers:
  assumes "channel_call\<^sup>*\<^sup>* m m'" and "owns (rcv_heap m a) ino m"
  shows "others tid a ino m m' \<and> recv_step tid a ino (Running L m) (Running L m')"
proof -
  have "unobtrusive m m'"
    using assms(1) by induction (auto intro: unobtrusive_trans unobtrusive_call)
  then have "others tid a ino m m'" using assms(2) by (rule unobtrusive_others)
  then show ?thesis by (simp add: recv_step.other)
qed

section \<open>Events are queued, never dropped\<close>

lemma offer_event_verdict:
  assumes "m' \<in> set (offer_event a ev m)"
  shows "(has_room a m \<and> m' = push_event a ev m) \<or> (m' = m \<and> (rcv_done (rcv_heap m a) \<or> mgr_closed m))"
  using assms by (auto simp: offer_event_def split: if_splits)

text \<open>C18: A chunk for a known transfer is never lost on the way to its receive loop: the handler
  queues it behind what is there, or waits while the queue is full, and gives it up only when
  the receiver is done or the channel closed. The queue never grows beyond its 256 places.\<close>

theorem chunks_queued_in_order:
  assumes "DecodeChunk raw = Inr (header, payload)" and "map_get (receivers m) (hdr_TransferID header) = Some a"
  shows "(\<forall>(m', sp) \<in> set (handleMessage (BinaryMessage raw) m). sp = None
        \<and> (m' = push_event a (chunk_item header payload) m
             \<and> length (rcv_events (rcv_heap m' a)) \<le> receiveEventQueueSize
           \<or> m' = m \<and> (rcv_done (rcv_heap m a) \<or> mgr_closed m)))
    \<and> (handleMessage (BinaryMessage raw) m = [] \<longleftrightarrow>
         receiveEventQueueSize \<le> length (rcv_events (rcv_heap m a)) \<and> \<not> rcv_done (rcv_heap m a) \<and> \<not> mgr_closed m)"
proof -
  have h: "handleMessage (BinaryMessage raw) m
      = map (\<lambda>m1. (m1, None)) (offer_event a (chunk_item header payload) m)"
    using assms by (simp add: handleMessage_def handle_packet_def)
  have "offer_event a (chunk_item header payload) m = [] \<longleftrightarrow>
      receiveEventQueueSize \<le> length (rcv_events (rcv_heap m a)) \<and> \<not> rcv_done (rcv_heap m a) \<and> \<not> mgr_closed m"
    by (simp add: offer_event_def has_room_def linorder_not_less)
  moreover have "m' = push_event a (chunk_item header payload) m
             \<and> length (rcv_events (rcv_heap m' a)) \<le> receiveEventQueueSize
           \<or> m' = m \<and> (rcv_done (rcv_heap m a) \<or> mgr_closed m)"
    if "m' \<in> set (offer_event a (chunk_item header payload) m)" for m'
    using offer_event_verdict [OF that] by (auto simp: has_room_def)
  ultimately show ?thesis unfolding h by auto
qed

section \<open>Acknowledgements only move forward\<close>

definition state_forward :: "send_state \<Rightarrow> send_state \<Rightarrow> bool" where
  "state_forward st st' \<longleftrightarrow>
     snd_acked st \<le> snd_acked st' \<and> snd_received st \<le> snd_received st'
     \<and> (snd_acked st \<le> snd_received st \<longrightarrow> snd_acked st' \<le> snd_received st')
     \<and> snd_name st' = snd_name st \<and> snd_size st' = snd_size st
     \<and> (snd_once st \<longrightarrow> snd_once st' \<and> snd_cancel st' = snd_cancel st)
     \<and> (snd_accept st \<noteq> None \<longrightarrow> snd_accept st' = snd_accept st)
     \<and> (snd_acks st \<longrightarrow> snd_acks st')"

lemma state_forward_refl [simp]: "state_forward st st"
  by (simp add: state_forward_def)

lemma state_forward_trans: "state_forward st st1 \<Longrightarrow> state_forward st1 st2 \<Longrightarrow> state_forward st st2"
  by (auto simp: state_forward_def)

definition sender_forward :: "manager \<Rightarrow> manager \<Rightarrow> bool" where
  "sender_forward m m' \<longleftrightarrow> (\<forall>s. state_forward (snd_heap m s) (snd_heap m' s))"

lemma sender_forward_same: "snd_heap m' = snd_heap m \<Longrightarrow> sender_forward m m'"
  by (simp add: sender_forward_def)

lemma sender_forward_trans [trans]: "sender_forward m m1 \<Longrightarrow> sender_forward m1 m2 \<Longrightarrow> sender_forward m m2"
  unfolding sender_forward_def by (blast intro: state_forward_trans)

lemma finishReceiver_senders: "snd_heap (finishReceiver tid m) = snd_heap m" "senders (finishReceiver tid m) = senders m"
  using os_close_rest(5) by (auto simp: finishReceiver_def Let_def same_tables_def split: option.split)

lemma receiveFailed_senders: "snd_heap (receiveFailed tid n err m) = snd_heap m"
  using sendControl_frame(2) [of m] emit_frame(2)
  by (simp add: receiveFailed_def Let_def same_tables_def finishReceiver_senders)

lemma offer_event_senders: "m' \<in> set (offer_event a ev m) \<Longrightarrow> snd_heap m' = snd_heap m"
  by (auto simp: offer_event_def split: if_splits)

lemma confirm_heap: "snd_heap (confirm tid s n m) = (snd_heap m)(s := (snd_heap m s)\<lparr>snd_acks := True\<rparr>)"
  using emit_frame(2) [of m] by (auto simp: confirm_def Let_def same_tables_def)

lemma sender_forward_control:
  assumes "(m', sp) \<in> set (handleControl c m)"
  shows "sender_forward m m'"
proof -
  have ack: "sender_forward m (handle_file_ack c m)" "sender_forward m (handle_file_progress c m)"
    by (auto simp: handle_file_ack_def handle_file_progress_def Let_def sender_forward_def state_forward_def confirm_heap split: option.split)
  have accept: "sender_forward m (acceptSender tid n m)" for tid n
    by (auto simp: acceptSender_def sender_forward_def state_forward_def Let_def split: option.split)
  have note_text: "sender_forward m (receive_text c m)"
    using emit_frame(2) [of m]
    by (auto simp: receive_text_def same_tables_def intro: sender_forward_same split: option.split)
  have r: "sender_forward m (cancel_receiver c a m)" for a
    by (auto simp: cancel_receiver_def Let_def receiveFailed_senders intro: sender_forward_same)
  have s: "sender_forward m1 (cancel_sender c s m1)" for s m1
    by (auto simp: cancel_sender_def Let_def sender_forward_def state_forward_def)
  have cancel: "sender_forward m (handle_file_cancel c m)"
    unfolding handle_file_cancel_def Let_def
    using r s sender_forward_trans [OF r s] by (auto intro: sender_forward_same split: option.split)
  have fin: "m1 \<in> set (handle_file_end c m) \<Longrightarrow> sender_forward m m1" for m1
    by (auto simp: handle_file_end_def dest: offer_event_senders intro: sender_forward_same split: option.splits)
  show ?thesis
    using assms ack accept note_text cancel fin
    by (auto simp: handleControl_def Let_def intro: sender_forward_same split: if_splits)
qed



section \<open>A text arrives\<close>

lemma hex_text_ascii: "list_all (\<lambda>c. ord c < 128) (hex_text bs)"
proof -
  have "unat b div 16 < 16" for b :: byte
  proof -
    have "unat b < 2 ^ LENGTH(8)" by (rule unsigned_less)
    then show ?thesis by simp
  qed
  then show ?thesis by (induction bs) (simp_all add: hex_text_def hex_digit_ascii)
qed

lemma int_text_ascii: "list_all (\<lambda>c. ord c < 128) (int_text i)"
proof -
  have "ord c < 128" if "digit c" for c using that by (simp add: digit_def)
  then have "list_all (\<lambda>c. ord c < 128) (nat_text n)" for n
    using nat_text_digits [of n] by (auto simp: list_all_iff)
  then show ?thesis by (simp add: int_text_def)
qed

lemma randomID_result:
  obtains ts es where "snd (randomID m) = m\<lparr>entropy := es, clock := ts\<rparr>" "set ts \<subseteq> set (clock m)"
    "valid_utf8 (fst (randomID m))"
proof -
  note result = that
  have time: thesis if "randomID m = (case time_now (m\<lparr>entropy := es\<rparr>) of (now, m1) \<Rightarrow> (int_text now, m1))" for es
  proof (rule result [where es = es and ts = "tl (clock m)"])
    show "snd (randomID m) = m\<lparr>entropy := es, clock := tl (clock m)\<rparr>"
      using that by (cases "clock m") (simp_all add: time_now_def)
    show "valid_utf8 (fst (randomID m))"
      using that by (simp add: case_prod_unfold valid_utf8_ascii int_text_ascii)
  qed (cases "clock m"; auto)
  show thesis
  proof (cases "\<exists>buffer rest. entropy m = Some buffer # rest")
    case True
    then obtain buffer rest where e: "entropy m = Some buffer # rest" by blast
    then have "randomID m = (hex_text buffer, m\<lparr>entropy := rest\<rparr>)" by (simp add: randomID_def)
    then show thesis
      by (intro result [where es = rest and ts = "clock m"]) (simp_all add: valid_utf8_ascii hex_text_ascii)
  next
    case False
    then show thesis
      by (intro time [of "tl (entropy m)"]) (auto simp: randomID_def split: list.split option.split)
  qed
qed

lemma text_control_arrives:
  assumes "valid_utf8 t" "t \<noteq> []" "valid_utf8 ident" "in_i64 (now div 1000000)"
  shows "handleMessage (TextMessage (EncodeControl (text_control t ident now))) p
    = [(emit (zero_event\<lparr>evt_Type := ''text'', evt_Direction := ''receive'', evt_Text := t\<rparr>) p, None)]"
proof -
  have "control_ok (text_control t ident now)"
    using assms by (simp add: control_ok_def text_control_def zero_control_def payload_ok_def max_nesting_def
        in_i64_def utf8_width.simps)
  then have "DecodeControl (EncodeControl (text_control t ident now)) = Inr (text_control t ident now)"
    by (rule DecodeControl_EncodeControl) (simp_all add: text_control_def Version_def)
  moreover have "receive_text (text_control t ident now) p
      = emit (zero_event\<lparr>evt_Type := ''text'', evt_Direction := ''receive'', evt_Text := t\<rparr>) p"
    using assms(2) by (simp add: receive_text_def text_control_def decode_struct_def field_named_exact set_text_field_def)
  ultimately show ?thesis
    by (simp add: handleMessage_def handleControl_def) (simp add: text_control_def)
qed

text \<open>C20: A text that \<open>SendText\<close> reports as sent leaves as exactly one control message, and any
  manager that receives this message hands exactly the trimmed text to its application; an
  empty text is never sent.\<close>

theorem text_arrives:
  assumes "SendText t m = (None, m')" and "valid_utf8 (TrimSpace t)" and "\<forall>now\<in>set (clock m). in_i64 now"
  shows "TrimSpace t \<noteq> [] \<and> (\<exists>c. sent m' = sent m @ [c] \<and> (\<forall>p. handleMessage (TextMessage (EncodeControl c)) p
    = [(emit (zero_event\<lparr>evt_Type := ''text'', evt_Direction := ''receive'', evt_Text := TrimSpace t\<rparr>) p, None)]))"
proof -
  obtain ident m1 now m2 where r: "randomID m = (ident, m1)" "time_now m1 = (now, m2)" by fastforce
  have ne: "TrimSpace t \<noteq> []" using assms(1) by (auto simp: SendText_def)
  then obtain m3 where s: "sendControl (text_control (TrimSpace t) ident now) m2 = (None, m3)"
    "m' = emit (zero_event\<lparr>evt_Type := ''text'', evt_Direction := ''send'', evt_Text := TrimSpace t\<rparr>) m3"
    using assms(1) r by (auto simp: SendText_def Let_def split: prod.splits option.splits)
  obtain ts es where f: "m1 = m\<lparr>entropy := es, clock := ts\<rparr>" "set ts \<subseteq> set (clock m)" "valid_utf8 ident"
    using randomID_result [of m] r(1) by (metis fst_conv snd_conv)
  have now: "now = 0 \<or> now \<in> set ts" "sent m2 = sent m"
    using r(2) by (auto simp: time_now_def f(1) split: list.splits)
  then have "in_i64 now" using f(2) assms(3) by (auto simp: in_i64_def)
  then have d: "in_i64 (now div 1000000)" by (auto simp: in_i64_def)
  have "sent m3 = sent m2 @ [text_control (TrimSpace t) ident now]"
    using s(1) by (cases rule: fate_of_cases [of m2]) (auto simp: sendControl_def split: fate.splits)
  then show ?thesis
    using ne now(2) s(2) text_control_arrives [OF assms(2) ne f(3) d] by (auto simp: emit_frame)
qed

section \<open>Witnesses\<close>

definition demo_header :: chunk_header where
  "demo_header = \<lparr>hdr_TransferID = ''t'', hdr_Index = 1, hdr_Offset = 2, hdr_Length = 1\<rparr>"

lemma demo_packet: "\<exists>raw. DecodeChunk raw = Inr (demo_header, [3])"
proof -
  have ok: "header_ok demo_header" by code_simp
  then have "length (json_text (header_json demo_header)) \<le> MaxHeaderSize"
    by (rule length_header_json) (simp add: demo_header_def)
  then obtain raw where "EncodeChunk demo_header [3] = Inr raw"
    using EncodeChunk_succeeds [of demo_header "[3]"] by (auto simp: demo_header_def)
  moreover note ok
  ultimately show ?thesis using DecodeChunk_EncodeChunk by blast
qed

lemma demo_receivers: "receivers demo_manager = [(''t'', 0)]" "rcv_heap demo_manager = (\<lambda>_. demo_state)"
  by (simp_all add: demo_manager_def)

lemma demo_owns: "owns (rcv_heap demo_manager 0) 0 demo_manager"
  using demo_accepted by (simp add: accepted_def Let_def)

theorem chunks_queued_in_order_witness:
  "\<exists>raw. DecodeChunk raw = Inr (demo_header, [3]) \<and> handleMessage (BinaryMessage raw) demo_manager \<noteq> []"
proof -
  obtain raw where d: "DecodeChunk raw = Inr (demo_header, [3])" using demo_packet by blast
  have "map_get (receivers demo_manager) (hdr_TransferID demo_header) = Some 0"
    by (simp add: demo_receivers demo_header_def)
  from chunks_queued_in_order [OF d this] d show ?thesis
    by (auto simp: demo_receivers demo_state_def receiveEventQueueSize_def)
qed

theorem channel_calls_respect_receivers_witness:
  "others ''t'' 0 0 demo_manager (on_close demo_manager)"
  using channel_calls_respect_receivers [OF r_into_rtranclp [of channel_call, OF channel_call.closed] demo_owns] by blast


theorem text_arrives_witness: "TrimSpace '' x'' = ''x'' \<and> (\<exists>c. sent (snd (SendText '' x'' demo_manager)) = [c])"
proof -
  have t: "TrimSpace '' x'' = ''x''" by code_simp
  have s: "fst (SendText '' x'' demo_manager) = None" "sent demo_manager = []" "valid_utf8 (TrimSpace '' x'')"
    "clock demo_manager = [0, 200000000]"
    by code_simp+
  have "SendText '' x'' demo_manager = (None, snd (SendText '' x'' demo_manager))"
    using s(1) by (metis prod.collapse)
  from text_arrives [OF this s(3)] have "\<exists>c. sent (snd (SendText '' x'' demo_manager)) = [] @ [c]"
    unfolding s(4) s(2) by (auto simp: in_i64_def)
  with t show ?thesis by simp
qed

end
