(* ===== verification/Destinations.thy ===== *)
theory Destinations
  imports Receive_Entry Receive_Outcomes Handlers
begin

text \<open>
  Where a received file ends up: inside the receive directory, except for the names the check
  in \<open>startReceive\<close> forgets, and under its own name, except where one transfer's destination is
  another one's partial file.
\<close>

section \<open>Names that are one path component\<close>

definition plain :: "string \<Rightarrow> bool" where
  "plain c \<longleftrightarrow> c \<noteq> [] \<and> c \<noteq> ''.'' \<and> c \<noteq> ''..'' \<and> slash \<notin> set c"

lemma split_slash_plain: "slash \<notin> set s \<Longrightarrow> split_slash acc s = [rev acc @ s]"
  by (induction s arbitrary: acc) auto

definition flat :: "string \<Rightarrow> bool" where "flat c \<longleftrightarrow> slash \<notin> set c"

lemma split_slash_flat: "flat acc \<Longrightarrow> list_all flat (split_slash acc s)"
proof (induction s arbitrary: acc)
  case Nil
  then show ?case by (simp add: flat_def)
next
  case (Cons a s)
  show ?case
  proof (cases "a = slash")
    case True
    have "flat (rev acc)" "flat []" using Cons.prems by (simp_all add: flat_def)
    then show ?thesis using Cons.IH [of "[]"] True by simp
  next
    case False
    then have "flat (a # acc)" using Cons.prems by (simp add: flat_def)
    then show ?thesis using Cons.IH [of "a # acc"] False by simp
  qed
qed

lemma split_slash_append:
  "split_slash acc (s @ slash # t) = split_slash acc s @ split_slash [] t"
  by (induction s arbitrary: acc) auto

lemma split_slash_not_Nil [simp]: "split_slash acc s \<noteq> []"
  by (induction s arbitrary: acc) auto

lemma Base_no_slash: "slash \<notin> set (Base p) \<or> Base p = [slash]"
proof -
  have "flat (last (split_slash [] s))" for s
    using split_slash_flat [of "[]" s] by (simp add: list_all_iff flat_def)
  then have "slash \<notin> set (last (split_slash [] s))" for s by (simp add: flat_def)
  then show ?thesis by (simp add: Base_def)
qed

lemma clean_rev_append: "clean_rev r acc (xs @ ys) = clean_rev r (clean_rev r acc xs) ys"
  by (induction r acc xs rule: clean_rev.induct) (auto split: list.split)

definition component :: "string \<Rightarrow> bool" where "component c \<longleftrightarrow> c \<noteq> [] \<and> c \<noteq> ''.'' \<and> flat c"

lemma clean_rev_components: "list_all component acc \<Longrightarrow> list_all flat xs \<Longrightarrow> list_all component (clean_rev r acc xs)"
proof (induction xs arbitrary: acc)
  case (Cons c xs)
  have xs: "list_all flat xs" "flat c" using Cons.prems by simp_all
  consider "c = [] \<or> c = ''.''" | "c = ''..''" | "c \<noteq> []" "c \<noteq> ''.''" "c \<noteq> ''..''" by blast
  then show ?case
  proof cases
    case 1
    then show ?thesis using Cons.IH [OF Cons.prems(1) xs(1)] by auto
  next
    case 2
    have dd: "component ''..''" by (simp add: component_def flat_def)
    show ?thesis
    proof (cases acc)
      case Nil
      have "list_all component (if r then [] else [''..''])" using dd by simp
      then show ?thesis using Cons.IH xs(1) 2 Nil by simp
    next
      case (Cons a acc')
      have "list_all component acc'" "list_all component (''..'' # ''..'' # acc')" using Cons.prems(1) dd Cons by simp_all
      then show ?thesis
        using Cons.IH [OF _ xs(1), of "''..'' # ''..'' # acc'"] Cons.IH [OF _ xs(1), of acc'] 2 Cons by simp
    qed
  next
    case 3
    then have "component c" using xs(2) by (simp add: component_def)
    then have "list_all component (c # acc)" using Cons.prems(1) by simp
    then show ?thesis using Cons.IH [OF _ xs(1), of "c # acc"] 3 by simp
  qed
qed simp

lemma join_slash_snoc: "join_slash (xs @ [n]) = (if xs = [] then n else join_slash xs @ slash # n)"
  by (induction xs rule: join_slash.induct) auto

lemma join_slash_components:
  assumes "list_all component cs" "cs \<noteq> []"
  shows "join_slash cs \<noteq> []" "join_slash cs \<noteq> ''.''" "hd (join_slash cs) \<noteq> slash"
proof -
  obtain c ds where c: "cs = c # ds" using assms(2) by (cases cs) auto
  then have h: "c \<noteq> []" "c \<noteq> ''.''" "slash \<notin> set c" using assms(1) by (simp_all add: component_def flat_def)
  then obtain x xs where x: "c = x # xs" "x \<noteq> slash" by (cases c) auto
  show "join_slash cs \<noteq> []" "hd (join_slash cs) \<noteq> slash" by (cases ds; use c x in simp)+
  show "join_slash cs \<noteq> ''.''"
  proof (cases ds)
    case (Cons d es)
    then have "slash \<in> set (join_slash cs)" by (simp add: c)
    then show ?thesis by auto
  qed (use c h in simp)
qed

lemma Clean_join:
  assumes "d \<noteq> []" "plain n"
  shows "Clean (d @ slash # n)
    = (if Clean d = ''.'' then n else if Clean d = [slash] then slash # n else Clean d @ slash # n)"
proof -
  define cs where "cs = rev (clean_rev (rooted d) [] (split_slash [] d))"
  have s: "split_slash [] (d @ slash # n) = split_slash [] d @ [n]"
    using assms(2) by (simp add: split_slash_append split_slash_plain plain_def)
  have r: "rooted (d @ slash # n) = rooted d" using assms(1) by (cases d) (simp_all add: rooted_def)
  have cs': "rev (clean_rev (rooted d) [] (split_slash [] d @ [n])) = cs @ [n]"
    using assms(2) by (simp add: clean_rev_append cs_def plain_def)
  have "flat []" by (simp add: flat_def)
  then have ok: "list_all component cs"
    using clean_rev_components [of "[]" "split_slash [] d" "rooted d"] split_slash_flat [of "[]" d] by (simp add: cs_def)
  have C: "Clean d = (if rooted d then slash # join_slash cs else if cs = [] then ''.'' else join_slash cs)"
    "Clean (d @ slash # n) = (if rooted d then slash # join_slash (cs @ [n]) else join_slash (cs @ [n]))"
    by (simp_all add: Clean_def s r cs' cs_def [symmetric] Let_def)
  show ?thesis
  proof (cases "cs = []")
    case True
    then show ?thesis by (simp add: C)
  next
    case False
    note J = join_slash_components [OF ok False]
    have "join_slash cs \<noteq> [slash]" using J(3) by auto
    then show ?thesis using False J(1,2) by (simp add: C join_slash_snoc)
  qed
qed

section \<open>The files of a transfer\<close>

text \<open>A file of the given name in a directory.\<close>

definition inside :: "string \<Rightarrow> string \<Rightarrow> string" where
  "inside d n = (if Clean d = ''.'' then n else if Clean d = [slash] then slash # n else Clean d @ slash # n)"

lemma receive_directory_not_Nil: "receive_directory m \<noteq> []"
  by (simp add: receive_directory_def)

lemma target_inside:
  assumes "local_name md \<noteq> ''..''" "local_name md \<noteq> [slash]" "local_name md \<noteq> ''.''" "local_name md \<noteq> []"
  shows "slash \<notin> set (local_name md)"
    "Join (receive_directory m) (local_name md) = inside (receive_directory m) (local_name md)"
proof -
  show s: "slash \<notin> set (local_name md)" using assms(2) Base_no_slash unfolding local_name_def by blast
  then have "plain (local_name md)" using assms by (simp add: plain_def)
  then show "Join (receive_directory m) (local_name md) = inside (receive_directory m) (local_name md)"
    using receive_directory_not_Nil [of m] assms(4) Clean_join by (simp add: Join_def inside_def)
qed

lemma inside_append: "inside d n @ suffix = inside d (n @ suffix)"
  by (simp add: inside_def)

lemma writePartialMetadata_names:
  assumes "writePartialMetadata mp md m = (err, m')" "\<And>q. names m (mp @ ''.new'') \<noteq> Some (Symlink q)"
    and "p \<noteq> mp" "p \<noteq> mp @ ''.new''"
  shows "names m' p = names m p"
proof -
  obtain e m1 where w: "os_write_file (mp @ ''.new'') (to_bytes (json_text (partial_json md))) m = (e, m1)" by fastforce
  have 1: "names m1 p = names m p"
    by (cases rule: os_write_file_cases [where h = m and p = "mp @ ''.new''"
          and data = "to_bytes (json_text (partial_json md))", OF assms(2)])
      (use w assms(4) in auto)
  show ?thesis
  proof (cases e)
    case None
    then have r: "os_rename (mp @ ''.new'') mp m1 = (err, m')"
      using assms(1) w by (simp add: writePartialMetadata_def Let_def replaceFile_def)
    show ?thesis
      by (cases rule: os_rename_cases [where h = m1 and p = "mp @ ''.new''" and q = mp]) (use r 1 assms(3,4) in auto)
  qed (use assms(1) w 1 in \<open>simp add: writePartialMetadata_def Let_def\<close>)
qed



definition escaping_manager :: manager where
  "escaping_manager = NewTransferManager 65536 (demo_options\<lparr>opt_ReceiveDir := ''a/b'', opt_Overwrite := True\<rparr>)
     (demo_host\<lparr>names := [''a'' \<mapsto> Dir False, ''a/b'' \<mapsto> Dir True], handles := Map.empty, next_inode := 0, next_handle := 0\<rparr>)"

text \<open>The base name \<open>..\<close> passes the checks: with \<open>--overwrite\<close> an offer named \<open>..\<close> is accepted, and
  the partial file and the sidecar are created beside the parent of the receive directory.\<close>

theorem dotdot_escapes:
  "case startReceive ''t'' (demo_offer\<lparr>file_Name := ''..''\<rparr>) escaping_manager of
     (m', started) \<Rightarrow> started \<noteq> None \<and> names m' ''a.quickdrop.part'' \<noteq> None \<and> names m' ''a.quickdrop.json'' \<noteq> None"
  by code_simp


section \<open>A destination that is another transfer's partial file\<close>

text \<open>Two offers: a file named like the partial file of the other one.\<close>

definition alias_first :: file_metadata where
  "alias_first = demo_offer\<lparr>file_Name := ''x.quickdrop.part'', file_Size := 1, file_TotalChunks := 1\<rparr>"

definition alias_second :: file_metadata where
  "alias_second = demo_offer\<lparr>file_Name := ''x'', file_Size := 1, file_TotalChunks := 1\<rparr>"

text \<open>A commit without faults, with \<open>--overwrite\<close> off.\<close>

lemma commit_names:
  fixes m :: manager and digest :: string
  assumes f: "faults m = []" "\<not> opt_Overwrite (options m)" "opt_OnEvent (options m)" and st: "st = rcv_heap m a"
    and r: "map_get (receivers m) tid = Some a" "handles m (rcv_file st) \<noteq> None"
    and n: "names m (rcv_partPath st) = Some e" "\<And>d. names m (rcv_path st) \<noteq> Some (Dir d)"
      "names m (rcv_metaPath st) \<noteq> Some (Dir False)"
    and d: "rcv_metaPath st \<noteq> rcv_path st" "rcv_metaPath st \<noteq> rcv_partPath st"
  defines "m' \<equiv> commit_file tid a digest m"
  shows "names m' = (((names m)(rcv_partPath st := None))(rcv_path st \<mapsto> e))(rcv_metaPath st := None)"
    "faults m' = []" "options m' = options m"
    "handles m' = (handles m)(rcv_file st := None)"
    "rcv_heap m' = (rcv_heap m)(a := st\<lparr>rcv_done := True\<rparr>)"
    "receivers m' = map_del tid (receivers m)"
    "map evt_Type (emitted m') = map evt_Type (emitted m) @ [''completed'']"
proof -
  define m1 where "m1 = m\<lparr>handles := (handles m)(rcv_file st := None)\<rparr>"
  have cl: "os_close (rcv_file st) m = (None, m1)"
    using r(2) by (auto simp: os_close_def fate_of_fine f m1_def)
  define m3 where "m3 = m1\<lparr>names := ((names m)(rcv_partPath st := None))(rcv_path st \<mapsto> e)\<rparr>"
  have rn: "os_rename (rcv_partPath st) (rcv_path st) m1 = (None, m3)"
    using os_rename_calm [of m1 "rcv_partPath st" e "rcv_path st"] f n by (simp add: m1_def m3_def)
  have rm: "snd (os_remove (rcv_metaPath st) m3) = m3\<lparr>names := (names m3)(rcv_metaPath st := None)\<rparr>"
    using n(3) d by (auto simp: os_remove_def fate_of_fine m3_def m1_def f fun_upd_idem
        split: option.split entry.split bool.split)
  have f3: "faults m3 = []" "\<not> opt_Overwrite (options m1)" using f by (simp_all add: m3_def m1_def)
  define m4 where "m4 = m3\<lparr>names := (names m3)(rcv_metaPath st := None)\<rparr>"
  define m5 where "m5 = m4\<lparr>sent := sent m4 @ [ack_control ''file_ack'' tid (file_Size (rcv_metadata st))]\<rparr>"
  have sc: "snd (sendControl (ack_control ''file_ack'' tid (file_Size (rcv_metadata st))) m4) = m5"
    using f3 by (simp add: sendControl_calm m4_def m5_def)
  define m6 where "m6 = m5\<lparr>receivers := map_del tid (receivers m), rcv_heap := (rcv_heap m)(a := st\<lparr>rcv_done := True\<rparr>)\<rparr>"
  have fin: "finishReceiver tid m5 = m6"
    using r st by (simp add: finishReceiver_def Let_def os_close_def m6_def m5_def m4_def m3_def m1_def)
  have "\<exists>ev. m' = emit ev m6 \<and> evt_Type ev = ''completed''"
    unfolding m'_def commit_file_def Let_def st [symmetric] cl prod.case option.case if_not_P [OF f3(2)] rn
      rm [folded m4_def] sc fin
    by (rule exI, rule conjI, rule refl) (simp add: zero_event_def)
  then obtain ev where ev: "m' = emit ev m6" "evt_Type ev = ''completed''" by blast
  show "names m' = (((names m)(rcv_partPath st := None))(rcv_path st \<mapsto> e))(rcv_metaPath st := None)"
    "faults m' = []" "options m' = options m"
    "handles m' = (handles m)(rcv_file st := None)"
    "rcv_heap m' = (rcv_heap m)(a := st\<lparr>rcv_done := True\<rparr>)"
    "receivers m' = map_del tid (receivers m)"
    "map evt_Type (emitted m') = map evt_Type (emitted m) @ [''completed'']"
    using f by (simp_all add: ev emit_def m6_def m5_def m4_def m3_def m1_def)
qed

definition both_started :: "manager \<Rightarrow> (manager \<times> nat \<times> nat) option" where
  "both_started m =
     (case startReceive ''a'' alias_first m of
        (m1, Some (a, _)) \<Rightarrow>
          (case startReceive ''b'' alias_second m1 of (m2, Some (b, _)) \<Rightarrow> Some (m2, a, b) | _ \<Rightarrow> None)
      | _ \<Rightarrow> None)"

lemma both_started_facts:
  "case both_started fresh_manager of None \<Rightarrow> False | Some (m, a, b) \<Rightarrow>
     a = 0 \<and> b = 1 \<and> faults m = [] \<and> \<not> opt_Overwrite (options m) \<and> opt_OnEvent (options m)
     \<and> map_get (receivers m) ''a'' = Some 0 \<and> map_get (receivers m) ''b'' = Some 1
     \<and> (case rcv_heap m 0 of A \<Rightarrow> case rcv_heap m 1 of B \<Rightarrow>
         handles m (rcv_file A) \<noteq> None \<and> handles m (rcv_file B) \<noteq> None \<and> rcv_file A \<noteq> rcv_file B
         \<and> rcv_path A = ''d/x.quickdrop.part'' \<and> rcv_partPath A = ''d/x.quickdrop.part.quickdrop.part''
         \<and> rcv_metaPath A = ''d/x.quickdrop.part.quickdrop.json''
         \<and> rcv_path B = ''d/x'' \<and> rcv_partPath B = ''d/x.quickdrop.part'' \<and> rcv_metaPath B = ''d/x.quickdrop.json'')
     \<and> names m ''d/x.quickdrop.part.quickdrop.part'' = Some (Regular 0)
     \<and> (case names m ''d/x.quickdrop.part'' of Some (Regular _) \<Rightarrow> True | _ \<Rightarrow> False)
     \<and> (case names m ''d/x.quickdrop.part.quickdrop.json'' of Some (Regular _) \<Rightarrow> True | _ \<Rightarrow> False)
     \<and> (case names m ''d/x.quickdrop.json'' of Some (Regular _) \<Rightarrow> True | _ \<Rightarrow> False)
     \<and> names m ''d/x'' = None"
  by code_simp

text \<open>Two transfers can be accepted where the destination of one is the partial file of the
  other. Both are then committed and announced as complete, but the destination of the second
  is the file the first one received, and nothing is left under the name of the first.\<close>

theorem partial_name_collision: "case both_started fresh_manager of
     Some (m, a, b) \<Rightarrow>
       (let m' = commit_file ''b'' b digest_b (commit_file ''a'' a digest_a m)
        in names m (rcv_partPath (rcv_heap m a)) \<noteq> None
           \<and> names m' (rcv_path (rcv_heap m b)) = names m (rcv_partPath (rcv_heap m a))
           \<and> names m' (rcv_path (rcv_heap m a)) = None
           \<and> map evt_Type (emitted m') = map evt_Type (emitted m) @ [''completed'', ''completed''])
   | None \<Rightarrow> False"
proof -
  obtain m a b where s: "both_started fresh_manager = Some (m, a, b)"
    using both_started_facts by (auto split: option.splits)
  note F = both_started_facts [unfolded s option.case prod.case]
  define A B where "A = rcv_heap m a" and "B = rcv_heap m b"
  have ab: "a = 0" "b = 1" using F by simp_all
  have A: "rcv_path A = ''d/x.quickdrop.part''" "rcv_partPath A = ''d/x.quickdrop.part.quickdrop.part''"
    "rcv_metaPath A = ''d/x.quickdrop.part.quickdrop.json''" "handles m (rcv_file A) \<noteq> None"
    and B: "rcv_path B = ''d/x''" "rcv_partPath B = ''d/x.quickdrop.part''" "rcv_metaPath B = ''d/x.quickdrop.json''"
      "handles m (rcv_file B) \<noteq> None" "rcv_file A \<noteq> rcv_file B"
    using F by (simp_all add: A_def B_def ab)
  have n: "names m ''d/x.quickdrop.part.quickdrop.part'' = Some (Regular 0)" "names m ''d/x'' = None"
    "names m ''d/x.quickdrop.part'' \<noteq> Some (Dir d)" "names m ''d/x.quickdrop.part.quickdrop.json'' \<noteq> Some (Dir d)"
    "names m ''d/x.quickdrop.json'' \<noteq> Some (Dir d)" for d
    using F by (auto split: option.splits entry.splits)
  define m1 where "m1 = commit_file ''a'' a digest_a m"
  have m: "faults m = []" "\<not> opt_Overwrite (options m)" "opt_OnEvent (options m)" "map_get (receivers m) ''a'' = Some a"
    "map_get (receivers m) ''b'' = Some b" using F by (simp_all add: ab)
  note C = commit_names [of m A a "''a''" "Regular 0" digest_a, OF m(1,2,3) A_def m(4) A(4), unfolded A, folded m1_def]
  have D: "names m1 = (((names m)(''d/x.quickdrop.part.quickdrop.part'' := None))(''d/x.quickdrop.part'' \<mapsto> Regular 0))(''d/x.quickdrop.part.quickdrop.json'' := None)"
    "faults m1 = []" "\<not> opt_Overwrite (options m1)" "opt_OnEvent (options m1)" "handles m1 (rcv_file B) \<noteq> None" "B = rcv_heap m1 b"
    "map_get (receivers m1) ''b'' = Some b" "map evt_Type (emitted m1) = map evt_Type (emitted m) @ [''completed'']"
    using C n m B by (simp_all add: B_def ab)
  note E = commit_names [of m1 B b "''b''" "Regular 0" digest_b, OF D(2,3,4,6,7,5), unfolded B]
  have n1: "names m1 ''d/x'' = None" "names m1 ''d/x.quickdrop.part'' = Some (Regular 0)"
    "names m1 ''d/x.quickdrop.json'' \<noteq> Some (Dir d)" for d
    using n by (simp_all add: D(1))
  have "names (commit_file ''b'' b digest_b m1) = (((names m1)(''d/x.quickdrop.part'' := None))(''d/x'' \<mapsto> Regular 0))(''d/x.quickdrop.json'' := None)"
    "map evt_Type (emitted (commit_file ''b'' b digest_b m1)) = map evt_Type (emitted m1) @ [''completed'']"
    by (rule E; use n1 in simp)+
  note E' = this
  show ?thesis
    using E' n(1) D(1,8) by (simp add: s Let_def A_def [symmetric] B_def [symmetric] A B m1_def [symmetric])
qed

end
