(* ===== verification/Go_Float.thy ===== *)
theory Go_Float
  imports Prelude "HOL-Library.Log_Nat"
begin

text \<open>
  The part of Go's \<open>float64\<close> the pacing of a sender uses: non-negative values as fractions of
  integers, every operation rounded to 53 significant bits, ties to even. The values stay far
  inside the exponent range, so neither overflow nor subnormal numbers occur.
\<close>

definition round_half_even :: "int \<Rightarrow> int \<Rightarrow> int" where
  "round_half_even a b =
     (let q = a div b; r = a mod b
      in if 2 * r < b \<or> (2 * r = b \<and> even q) then q else q + 1)"

text \<open>A fraction is a numerator and a positive denominator. The exponent puts the quotient
  between \<open>2^52\<close> and \<open>2^53\<close>.\<close>

type_synonym fraction = "int \<times> int"

definition f64_at :: "int \<Rightarrow> int \<Rightarrow> int \<Rightarrow> fraction" where
  "f64_at a b e =
     (if e \<ge> 0 then (round_half_even a (b * 2 ^ nat e) * 2 ^ nat e, 1)
      else (round_half_even (a * 2 ^ nat (- e)) b, 2 ^ nat (- e)))"

definition f64 :: "int \<Rightarrow> int \<Rightarrow> fraction" where
  "f64 a b =
     (if a \<le> 0 then (0, 1)
      else
        (let e = bitlen a - bitlen b - 53
         in if (if e \<ge> 0 then a < b * 2 ^ nat (e + 53) else a * 2 ^ nat (- e) < b * 2 ^ 53)
            then f64_at a b e else f64_at a b (e + 1)))"

abbreviation f64_of_int :: "int \<Rightarrow> fraction" where "f64_of_int n \<equiv> f64 n 1"

definition f64_div :: "fraction \<Rightarrow> fraction \<Rightarrow> fraction" where
  "f64_div x y = f64 (fst x * snd y) (snd x * fst y)"

definition f64_mult :: "fraction \<Rightarrow> fraction \<Rightarrow> fraction" where
  "f64_mult x y = f64 (fst x * fst y) (snd x * snd y)"

text \<open>Conversion to \<open>int64\<close> truncates; out of range the amd64 instruction gives the least integer.\<close>

definition f64_to_int :: "fraction \<Rightarrow> int" where
  "f64_to_int x = (let n = fst x div snd x in if in_i64 n then n else - (2 ^ 63))"

end
