(* ===== verification/Send_File.thy ===== *)
theory Send_File
  imports Handlers Go_Float
begin

text \<open>
  \<open>SendFile\<close> of \<open>src/transfer/manager.go\<close> with \<open>pace\<close>, \<open>sendBinary\<close> and \<open>waitForBuffer\<close>, cut
  at the places where the goroutine reads what others change or waits in a \<open>select\<close>. A
  \<open>send_phase\<close> is such a place, \<open>send_turn\<close> the code from one place to the next. The
  inputs of a turn are the case of the \<open>select\<close> that runs (\<open>Go\<close> where there is none), the
  amount buffered in the channel and whether the channel is open, as read in that turn.
\<close>

section \<open>Local variables\<close>

record send_loop =
  sl_tid :: string
  sl_addr :: nat \<comment> \<open>the send state\<close>
  sl_file :: nat
  sl_meta :: file_metadata
  sl_size :: int \<comment> \<open>\<open>info.Size()\<close>\<close>
  sl_digest :: string
  sl_offset :: int
  sl_index :: int
  sl_started :: int
  sl_sentThisRun :: int

text \<open>A packet on its way: its bytes and the number of file bytes in it.\<close>

type_synonym outgoing = "bytes \<times> int"

datatype send_phase =
    Accepting \<comment> \<open>waiting for \<open>file_accept\<close> or \<open>resume_state\<close>\<close>
  | Filling \<comment> \<open>at the top of the chunk loop\<close>
  | Windowed \<comment> \<open>too much unacknowledged\<close>
  | Pacing outgoing
  | Buffering outgoing int \<comment> \<open>at the condition of \<open>waitForBuffer\<close>; when \<open>sendBinary\<close> started\<close>
  | Blocked outgoing int \<comment> \<open>waiting in \<open>waitForBuffer\<close>\<close>
  | Queueing outgoing int \<comment> \<open>about to call \<open>Send\<close>\<close>
  | Retrying outgoing int \<comment> \<open>waiting in \<open>sendBinary\<close>\<close>
  | Finishing \<comment> \<open>at the top of the last loop\<close>
  | Confirming \<comment> \<open>waiting for the last acknowledgement\<close>

datatype send_result = At send_phase send_loop manager | Finished "string option" manager

datatype send_case = Go | TakeAccept | TakeAck | TakeCancel | CtxDone string | Timer | ChanClosed | TakeWritable

abbreviation sender_of :: "send_loop \<Rightarrow> manager \<Rightarrow> send_state" where
  "sender_of L m \<equiv> snd_heap m (sl_addr L)"

text \<open>Returning runs the deferred calls.\<close>

definition finish_send :: "string option \<Rightarrow> send_loop \<Rightarrow> manager \<Rightarrow> send_result" where
  "finish_send err L m =
     (let m1 = m\<lparr>senders := map_del (sl_tid L) (senders m)\<rparr>
      in Finished err (snd (os_close (sl_file L) m1)))"

section \<open>Up to the first wait\<close>

definition offered_metadata :: "string \<Rightarrow> int \<Rightarrow> int \<Rightarrow> string \<Rightarrow> manager \<Rightarrow> file_metadata" where
  "offered_metadata name sz modified digest m =
     (let mime = mime_types m (Ext name)
      in \<lparr>file_Name = name, file_Size = sz,
          file_MIME = (if mime = [] then ''application/octet-stream'' else mime),
          file_ChunkSize = chunkSize m, file_TotalChunks = TotalChunks sz (chunkSize m),
          file_LastModified = modified, file_SHA256 = digest, file_CommitAck = True,
          file_ProgressAck = True, file_Resume = True\<rparr>)"

definition register_sender :: "string \<Rightarrow> file_metadata \<Rightarrow> manager \<Rightarrow> manager" where
  "register_sender transferID md m =
     m\<lparr>senders := map_put transferID (next_snd m) (senders m),
       snd_heap := (snd_heap m)(next_snd m := zero_send_state\<lparr>snd_name := file_Name md, snd_size := file_Size md\<rparr>),
       next_snd := Suc (next_snd m)\<rparr>"

definition offer_file :: "nat \<Rightarrow> file_metadata \<Rightarrow> manager \<Rightarrow> send_result" where
  "offer_file fd md m =
     (let (transferID, m1) = randomID m;
          a = next_snd m1;
          m2 = register_sender transferID md m1;
          L = \<lparr>sl_tid = transferID, sl_addr = a, sl_file = fd, sl_meta = md, sl_size = file_Size md,
               sl_digest = file_SHA256 md, sl_offset = 0, sl_index = 0, sl_started = 0, sl_sentThisRun = 0\<rparr>
      in case sendControl ((new_control ''file_start'' transferID)\<lparr>ctl_File := Some md\<rparr>) m2 of
           (Some err, m3) \<Rightarrow> finish_send (Some err) L m3
         | (None, m3) \<Rightarrow>
             At Accepting L (emit (zero_event\<lparr>evt_Type := ''waiting'', evt_TransferID := transferID,
               evt_Direction := ''send'', evt_Name := file_Name md, evt_Size := file_Size md,
               evt_SHA256 := file_SHA256 md\<rparr>) m3))"

text \<open>Hash the file and go back to its start.\<close>

definition hash_file :: "nat \<Rightarrow> string \<Rightarrow> int \<Rightarrow> int \<Rightarrow> manager \<Rightarrow> send_result" where
  "hash_file fd name sz modified m =
     (let m1 = emit (zero_event\<lparr>evt_Type := ''hashing'', evt_Direction := ''send'', evt_Name := name,
                 evt_Size := sz\<rparr>) m
      in case os_read_all fd m1 of
           (Inl err, m2) \<Rightarrow> Finished (Some (''hash file: '' @ err)) (snd (os_close fd m2))
         | (Inr content, m2) \<Rightarrow>
             (let digest = hex_text (sha256 m2 content)
              in case os_seek fd 0 m2 of
                   (Some err, m3) \<Rightarrow> Finished (Some err) (snd (os_close fd m3))
                 | (None, m3) \<Rightarrow> offer_file fd (offered_metadata name sz modified digest m3) m3))"

definition SendFile :: "string \<Rightarrow> manager \<Rightarrow> send_result" where
  "SendFile path m =
     (case os_open path m of
        (Inl err, m1) \<Rightarrow> Finished (Some err) m1
      | (Inr (fd, e), m1) \<Rightarrow>
          (case fate_of m1 of
             (Fault err _, m2) \<Rightarrow> Finished (Some err) (snd (os_close fd m2))
           | (Fine, m2) \<Rightarrow>
               (case e of
                  Regular i \<Rightarrow>
                    (let sz = int (length (inodes m2 i)); limit = opt_MaxFileSize (options m2)
                     in if limit > 0 \<and> sz > limit then
                          Finished (Some (''file exceeds configured maximum of '' @ int_text limit @ '' bytes''))
                            (snd (os_close fd m2))
                        else hash_file fd (Base path) sz (mtimes m2 i) m2)
                | _ \<Rightarrow> Finished (Some ''only regular files are supported'') (snd (os_close fd m2)))))"

section \<open>The answer of the receiver\<close>

definition sanitised :: "int \<Rightarrow> int \<Rightarrow> int \<Rightarrow> int" where
  "sanitised offset sz cs = (if offset < 0 \<or> offset > sz \<or> go_rem offset cs \<noteq> 0 then 0 else offset)"

definition begin_sending :: "int \<Rightarrow> send_loop \<Rightarrow> manager \<Rightarrow> send_result" where
  "begin_sending answer L m =
     (let offset = sanitised answer (sl_size L) (chunkSize m)
      in case os_seek (sl_file L) offset m of
           (Some err, m1) \<Rightarrow> finish_send (Some err) L m1
         | (None, m1) \<Rightarrow>
             (let m2 = update_sender (sl_addr L) (\<lambda>st. st\<lparr>snd_acked := offset, snd_received := offset\<rparr>) m1;
                  (now, m3) = time_now m2
              in At Filling (L\<lparr>sl_offset := offset, sl_index := go_quot offset (chunkSize m3),
                     sl_started := now, sl_sentThisRun := 0\<rparr>) m3))"

section \<open>Pacing\<close>

definition pace_want :: "int \<Rightarrow> 64 word \<Rightarrow> int" where
  "pace_want n bps =
     f64_to_int (f64_mult (f64_div (f64_of_int n) (f64_of_int (uint bps))) (f64_of_int 1000000000))"

text \<open>Where \<open>sendBinary\<close> begins.\<close>

definition begin_queueing :: "outgoing \<Rightarrow> send_loop \<Rightarrow> manager \<Rightarrow> send_result" where
  "begin_queueing p L m = (let (now, m1) = time_now m in At (Buffering p now) L m1)"

definition pace :: "outgoing \<Rightarrow> send_loop \<Rightarrow> manager \<Rightarrow> send_result" where
  "pace p L m =
     (if opt_BandwidthLimitBPS (options m) = 0 then begin_queueing p L m
      else
        (let n = i64 (sl_sentThisRun L + int (length (fst p)));
             want = pace_want n (opt_BandwidthLimitBPS (options m));
             (now, m1) = time_now m
         in if i64 (want - (now - sl_started L)) \<le> 0 then begin_queueing p L m1 else At (Pacing p) L m1))"

section \<open>The chunk loop\<close>

definition send_end :: "send_loop \<Rightarrow> manager \<Rightarrow> send_result" where
  "send_end L m =
     (case sendControl ((new_control ''file_end'' (sl_tid L))\<lparr>ctl_SHA256 := sl_digest L\<rparr>) m of
        (Some err, m1) \<Rightarrow> finish_send (Some err) L m1
      | (None, m1) \<Rightarrow> At Finishing L m1)"

definition next_chunk :: "send_loop \<Rightarrow> manager \<Rightarrow> send_result" where
  "next_chunk L m =
     (let want = min (chunkSize m) (i64 (sl_size L - sl_offset L)) in
      case os_read_full (sl_file L) want m of
        ((data, Some (ReadError err)), m1) \<Rightarrow> finish_send (Some err) L m1
      | ((data, _), m1) \<Rightarrow>
          (let n = int (length data) in
           if n = 0 then send_end L m1
           else
             (case EncodeChunk \<lparr>hdr_TransferID = sl_tid L, hdr_Index = sl_index L,
                     hdr_Offset = sl_offset L, hdr_Length = n\<rparr> data of
                Inl err \<Rightarrow> finish_send (Some (error_text err)) L m1
              | Inr packet \<Rightarrow> pace (packet, n) L m1)))"

definition fill :: "send_loop \<Rightarrow> manager \<Rightarrow> send_result" where
  "fill L m =
     (if sl_offset L < sl_size L then
        if i64 (sl_offset L - snd_received (sender_of L m)) \<ge> maxUnacknowledged then At Windowed L m
        else next_chunk L m
      else send_end L m)"

definition chunk_sent :: "outgoing \<Rightarrow> send_loop \<Rightarrow> send_loop" where
  "chunk_sent p L = L\<lparr>sl_offset := i64 (sl_offset L + snd p), sl_index := i64 (sl_index L + 1),
     sl_sentThisRun := i64 (sl_sentThisRun L + int (length (fst p)))\<rparr>"

section \<open>Sending a packet\<close>

text \<open>The condition of the loop in \<open>waitForBuffer\<close>, in unsigned 64-bit arithmetic.\<close>

definition buffer_turn :: "outgoing \<Rightarrow> int \<Rightarrow> 64 word \<Rightarrow> send_loop \<Rightarrow> manager \<Rightarrow> send_result" where
  "buffer_turn p begun buffered L m =
     (let required = word_of_nat (length (fst p)) in
      if required > maxBufferedAmount then
        finish_send (Some ''DataChannel packet exceeds send queue high water mark'') L m
      else if buffered + required > maxBufferedAmount then At (Blocked p begun) L m
      else At (Queueing p begun) L m)"

definition after_blocked :: "outgoing \<Rightarrow> int \<Rightarrow> bool \<Rightarrow> send_loop \<Rightarrow> manager \<Rightarrow> send_result" where
  "after_blocked p begun is_open L m =
     (if is_open then At (Buffering p begun) L m else finish_send (Some ''DataChannel is not open'') L m)"

definition queue_turn :: "outgoing \<Rightarrow> int \<Rightarrow> bool \<Rightarrow> send_loop \<Rightarrow> manager \<Rightarrow> send_result" where
  "queue_turn p begun is_open L m =
     (case fate_of m of
        (Fine, m1) \<Rightarrow> At Filling (chunk_sent p L) (m1\<lparr>packets := packets m1 @ [fst p]\<rparr>)
      | (Fault err _, m1) \<Rightarrow>
          if \<not> is_open then finish_send (Some err) L m1
          else
            (let (now, m2) = time_now m1
             in if now - begun \<ge> 30 * 1000000000 then
                  finish_send (Some (''DataChannel send queue remained unavailable: '' @ err)) L m2
                else At (Retrying p begun) L m2))"

section \<open>The last loop\<close>

definition confirm_turn :: "send_loop \<Rightarrow> manager \<Rightarrow> send_result" where
  "confirm_turn L m =
     (if snd_acked (sender_of L m) \<ge> sl_size L then
        finish_send None L (emit (zero_event\<lparr>evt_Type := ''completed'', evt_TransferID := sl_tid L,
          evt_Direction := ''send'', evt_Name := file_Name (sl_meta L), evt_Transferred := file_Size (sl_meta L),
          evt_Size := file_Size (sl_meta L), evt_SHA256 := sl_digest L\<rparr>) m)
      else At Confirming L m)"

section \<open>One turn\<close>

text \<open>Which case of the \<open>select\<close> of a place is ready. Timers and contexts may fire at any time.\<close>

fun waiting :: "send_phase \<Rightarrow> bool" where
  "waiting Accepting = True"
| "waiting Windowed = True"
| "waiting (Pacing p) = True"
| "waiting (Blocked p t) = True"
| "waiting (Retrying p t) = True"
| "waiting Confirming = True"
| "waiting _ = False"

definition send_ready :: "send_case \<Rightarrow> send_phase \<Rightarrow> send_loop \<Rightarrow> manager \<Rightarrow> bool" where
  "send_ready k ph L m \<longleftrightarrow>
     (case k of
        Go \<Rightarrow> \<not> waiting ph
      | TakeAccept \<Rightarrow> ph = Accepting \<and> snd_accept (sender_of L m) \<noteq> None
      | TakeAck \<Rightarrow> (ph = Windowed \<or> ph = Confirming) \<and> snd_acks (sender_of L m)
      | TakeCancel \<Rightarrow> (ph = Accepting \<or> ph = Windowed \<or> ph = Confirming) \<and> snd_cancel (sender_of L m) \<noteq> None
      | CtxDone _ \<Rightarrow> waiting ph
      | Timer \<Rightarrow> waiting ph
      | ChanClosed \<Rightarrow> (case ph of Blocked _ _ \<Rightarrow> mgr_closed m | Retrying _ _ \<Rightarrow> mgr_closed m | _ \<Rightarrow> False)
      | TakeWritable \<Rightarrow> (case ph of Blocked _ _ \<Rightarrow> writable m | Retrying _ _ \<Rightarrow> writable m | _ \<Rightarrow> False))"

text \<open>The errors of the timers.\<close>

fun timer_error :: "send_phase \<Rightarrow> string option" where
  "timer_error Accepting = Some ''receiver did not accept the file''"
| "timer_error Windowed = Some ''receiver acknowledgement timed out''"
| "timer_error Confirming = Some ''final receiver acknowledgement timed out''"
| "timer_error _ = None"

text \<open>Where a wait continues after a timer that is no error, or after a wake-up.\<close>

fun resume_turn :: "send_phase \<Rightarrow> bool \<Rightarrow> send_loop \<Rightarrow> manager \<Rightarrow> send_result" where
  "resume_turn (Pacing p) is_open L m = begin_queueing p L m"
| "resume_turn (Blocked p begun) is_open L m = after_blocked p begun is_open L m"
| "resume_turn (Retrying p begun) is_open L m = At (Buffering p begun) L m"
| "resume_turn Windowed is_open L m = At Filling L m"
| "resume_turn Confirming is_open L m = At Finishing L m"
| "resume_turn ph is_open L m = At ph L m"

fun go_turn :: "send_phase \<Rightarrow> 64 word \<Rightarrow> bool \<Rightarrow> send_loop \<Rightarrow> manager \<Rightarrow> send_result" where
  "go_turn Filling buffered is_open L m = fill L m"
| "go_turn (Buffering p begun) buffered is_open L m = buffer_turn p begun buffered L m"
| "go_turn (Queueing p begun) buffered is_open L m = queue_turn p begun is_open L m"
| "go_turn Finishing buffered is_open L m = confirm_turn L m"
| "go_turn ph buffered is_open L m = At ph L m"

definition send_turn :: "send_case \<Rightarrow> 64 word \<Rightarrow> bool \<Rightarrow> send_phase \<Rightarrow> send_loop \<Rightarrow> manager \<Rightarrow> send_result" where
  "send_turn k buffered is_open ph L m =
     (case k of
        Go \<Rightarrow> go_turn ph buffered is_open L m
      | TakeAccept \<Rightarrow>
          (case snd_accept (sender_of L m) of
             None \<Rightarrow> At ph L m
           | Some answer \<Rightarrow> begin_sending answer L (update_sender (sl_addr L) (\<lambda>st. st\<lparr>snd_accept := None\<rparr>) m))
      | TakeAck \<Rightarrow> resume_turn ph is_open L (update_sender (sl_addr L) (\<lambda>st. st\<lparr>snd_acks := False\<rparr>) m)
      | TakeCancel \<Rightarrow>
          finish_send (snd_cancel (sender_of L m)) L
            (update_sender (sl_addr L) (\<lambda>st. st\<lparr>snd_cancel := None\<rparr>) m)
      | CtxDone err \<Rightarrow> finish_send (Some err) L m
      | Timer \<Rightarrow>
          (case timer_error ph of
             Some err \<Rightarrow> finish_send (Some err) L m
           | None \<Rightarrow> resume_turn ph is_open L m)
      | ChanClosed \<Rightarrow> finish_send (Some ''DataChannel is closed'') L m
      | TakeWritable \<Rightarrow> resume_turn ph is_open L (m\<lparr>writable := False\<rparr>))"

end
