(* ===== verification/Send_Run.thy ===== *)
theory Send_Run
  imports Send_File Receive_Delivery
begin

text \<open>
  A run of \<open>SendFile\<close> from the receiver's answer to its end, interleaved with the handlers and the
  other transfers, and the invariant of its chunk loop: the packets on the channel are exactly
  the chunks of the file up to the current index, and never more than a window ahead of what
  the receiver has confirmed.
\<close>

section \<open>The goroutine as a step relation\<close>

text \<open>The chunks of one transfer among the packets handed to the channel.\<close>

definition chunks_of :: "string \<Rightarrow> manager \<Rightarrow> chunk list" where
  "chunks_of tid m = concat (map (\<lambda>p. case DecodeChunk p of
       Inr c \<Rightarrow> if hdr_TransferID (fst c) = tid then [c] else [] | Inl _ \<Rightarrow> []) (packets m))"

definition sent_chunk :: "string \<Rightarrow> file_metadata \<Rightarrow> bytes \<Rightarrow> int \<Rightarrow> chunk" where
  "sent_chunk tid md con i =
     (\<lparr>hdr_TransferID = tid, hdr_Index = i, hdr_Offset = boundary md i, hdr_Length = int (length (slice md con i))\<rparr>,
      slice md con i)"

text \<open>
  The steps of the other goroutines: acknowledgements move the sender's state forward, other
  transfers use other identifiers and other open files, and the file itself does not change.
\<close>

definition sender_rely :: "nat \<Rightarrow> send_loop \<Rightarrow> manager \<Rightarrow> manager \<Rightarrow> bool" where
  "sender_rely ino L m m' \<longleftrightarrow>
     state_forward (sender_of L m) (sender_of L m') \<and> in_i64 (snd_received (sender_of L m'))
     \<and> handles m' (sl_file L) = handles m (sl_file L) \<and> inodes m' ino = inodes m ino
     \<and> chunkSize m' = chunkSize m \<and> chunks_of (sl_tid L) m' = chunks_of (sl_tid L) m
     \<and> set (sent m) \<subseteq> set (sent m')"

datatype send_run = Sending send_phase send_loop manager | Done "string option" send_loop manager

inductive send_step :: "nat \<Rightarrow> send_run \<Rightarrow> send_run \<Rightarrow> bool" for ino :: nat where
  turn: "send_ready k ph L m \<Longrightarrow> send_turn k buffered is_open ph L m = At ph' L' m' \<Longrightarrow>
    send_step ino (Sending ph L m) (Sending ph' L' m')"
| stop: "send_ready k ph L m \<Longrightarrow> send_turn k buffered is_open ph L m = Finished err m' \<Longrightarrow>
    send_step ino (Sending ph L m) (Done err L m')"
| other: "sender_rely ino L m m' \<Longrightarrow> send_step ino (Sending ph L m) (Sending ph L m')"

inductive_cases send_stepE [elim!]: "send_step ino (Sending ph L m) s"
inductive_simps send_step_done: "send_step ino (Done err L m) s"

section \<open>The invariant\<close>

definition sender_fixed :: "nat \<Rightarrow> bytes \<Rightarrow> send_loop \<Rightarrow> manager \<Rightarrow> bool" where
  "sender_fixed ino con L m \<longleftrightarrow>
     geometry (sl_meta L) \<and> sl_size L = file_Size (sl_meta L) \<and> file_ChunkSize (sl_meta L) = chunkSize m
     \<and> int (length con) = sl_size L \<and> inodes m ino = con
     \<and> sl_digest L = file_SHA256 (sl_meta L) \<and> valid_utf8 (file_SHA256 (sl_meta L))
     \<and> valid_utf8 (sl_tid L) \<and> sl_tid L \<noteq> [] \<and> length (sl_tid L) \<le> 1000
     \<and> 0 \<le> snd_received (sender_of L m) \<and> in_i64 (snd_received (sender_of L m))
     \<and> snd_acked (sender_of L m) \<le> snd_received (sender_of L m)"

text \<open>What was sent: the chunks from the first one of this run up to index \<open>n\<close>.\<close>

definition sent_upto :: "bytes \<Rightarrow> int \<Rightarrow> chunk list \<Rightarrow> int \<Rightarrow> send_loop \<Rightarrow> manager \<Rightarrow> bool" where
  "sent_upto con k0 base n L m \<longleftrightarrow>
     chunks_of (sl_tid L) m = base @ map (sent_chunk (sl_tid L) (sl_meta L) con) [k0..n - 1]"

abbreviation window :: "send_loop \<Rightarrow> manager \<Rightarrow> int" where
  "window L m \<equiv> snd_received (sender_of L m) + maxUnacknowledged"

abbreviation end_sent :: "send_loop \<Rightarrow> manager \<Rightarrow> bool" where
  "end_sent L m \<equiv> \<exists>c\<in>set (sent m). ctl_Type c = ''file_end'' \<and> ctl_TransferID c = sl_tid L
     \<and> ctl_SHA256 c = sl_digest L"

text \<open>Between two chunks, and with a packet in hand.\<close>

definition between :: "nat \<Rightarrow> bytes \<Rightarrow> int \<Rightarrow> chunk list \<Rightarrow> send_loop \<Rightarrow> manager \<Rightarrow> bool" where
  "between ino con k0 base L m \<longleftrightarrow>
     0 \<le> k0 \<and> k0 \<le> sl_index L \<and> sl_index L \<le> file_TotalChunks (sl_meta L)
     \<and> sl_offset L = boundary (sl_meta L) (sl_index L) \<and> sl_offset L < window L m + chunkSize m
     \<and> sent_upto con k0 base (sl_index L) L m"

definition in_hand :: "nat \<Rightarrow> bytes \<Rightarrow> int \<Rightarrow> chunk list \<Rightarrow> outgoing \<Rightarrow> send_loop \<Rightarrow> manager \<Rightarrow> bool" where
  "in_hand ino con k0 base p L m \<longleftrightarrow>
     between ino con k0 base L m \<and> sl_index L < file_TotalChunks (sl_meta L) \<and> sl_offset L < window L m
     \<and> handles m (sl_file L) = Some (ino, nat (boundary (sl_meta L) (sl_index L + 1)))
     \<and> DecodeChunk (fst p) = Inr (sent_chunk (sl_tid L) (sl_meta L) con (sl_index L))
     \<and> snd p = int (length (slice (sl_meta L) con (sl_index L)))"

fun phase_inv :: "nat \<Rightarrow> bytes \<Rightarrow> int \<Rightarrow> chunk list \<Rightarrow> send_phase \<Rightarrow> send_loop \<Rightarrow> manager \<Rightarrow> bool" where
  "phase_inv ino con k0 base Accepting L m = False"
| "phase_inv ino con k0 base (Pacing p) L m = in_hand ino con k0 base p L m"
| "phase_inv ino con k0 base (Buffering p t) L m = in_hand ino con k0 base p L m"
| "phase_inv ino con k0 base (Blocked p t) L m = in_hand ino con k0 base p L m"
| "phase_inv ino con k0 base (Queueing p t) L m = in_hand ino con k0 base p L m"
| "phase_inv ino con k0 base (Retrying p t) L m = in_hand ino con k0 base p L m"
| "phase_inv ino con k0 base Finishing L m =
     (between ino con k0 base L m \<and> sl_index L = file_TotalChunks (sl_meta L) \<and> end_sent L m)"
| "phase_inv ino con k0 base Confirming L m =
     (between ino con k0 base L m \<and> sl_index L = file_TotalChunks (sl_meta L) \<and> end_sent L m)"
| "phase_inv ino con k0 base ph L m =
     (between ino con k0 base L m \<and> handles m (sl_file L) = Some (ino, nat (sl_offset L)))"

definition success :: "bytes \<Rightarrow> int \<Rightarrow> chunk list \<Rightarrow> send_loop \<Rightarrow> manager \<Rightarrow> bool" where
  "success con k0 base L m \<longleftrightarrow>
     sl_size L \<le> snd_acked (sender_of L m) \<and> end_sent L m
     \<and> sent_upto con k0 base (file_TotalChunks (sl_meta L)) L m \<and> map_get (senders m) (sl_tid L) = None"

fun send_inv :: "nat \<Rightarrow> bytes \<Rightarrow> int \<Rightarrow> chunk list \<Rightarrow> send_run \<Rightarrow> bool" where
  "send_inv ino con k0 base (Sending ph L m) = (sender_fixed ino con L m \<and> phase_inv ino con k0 base ph L m)"
| "send_inv ino con k0 base (Done err L m) = (err = None \<longrightarrow> success con k0 base L m)"

fun result_run :: "send_loop \<Rightarrow> send_result \<Rightarrow> send_run" where
  "result_run L (At ph L' m') = Sending ph L' m'"
| "result_run L (Finished err m') = Done err L m'"

section \<open>What the helpers leave alone\<close>

definition unseen :: "manager \<Rightarrow> manager \<Rightarrow> bool" where
  "unseen m m' \<longleftrightarrow> packets m' = packets m \<and> snd_heap m' = snd_heap m \<and> handles m' = handles m
     \<and> inodes m' = inodes m \<and> chunkSize m' = chunkSize m \<and> set (sent m) \<subseteq> set (sent m')
     \<and> senders m' = senders m"

lemma unseen_refl [simp]: "unseen m m"
  by (simp add: unseen_def)

lemma unseen_trans [trans]: "unseen m m1 \<Longrightarrow> unseen m1 m2 \<Longrightarrow> unseen m m2"
  by (auto simp: unseen_def)

lemma unseen_emit: "unseen m (emit e m)"
  by (simp add: unseen_def emit_def)

lemma unseen_time: "unseen m (snd (time_now m))"
  by (cases rule: time_now_cases [of m]) (simp add: unseen_def)

lemma unseen_fate: "unseen m (snd (fate_of m))"
  by (cases rule: fate_of_cases [of m]) (simp add: unseen_def)

lemma unseen_writable: "unseen m (m\<lparr>writable := b\<rparr>)"
  by (simp add: unseen_def)

lemma unseen_sendControl: "unseen m (snd (sendControl c m))"
  by (cases rule: fate_of_cases [of m]) (auto simp: unseen_def sendControl_def split: fate.split)

lemma unseen_inv:
  assumes "unseen m m'"
  shows "sender_fixed ino con L m' \<longleftrightarrow> sender_fixed ino con L m" "between ino con k0 base L m' \<longleftrightarrow> between ino con k0 base L m"
    "in_hand ino con k0 base p L m' \<longleftrightarrow> in_hand ino con k0 base p L m" "end_sent L m \<Longrightarrow> end_sent L m'"
  using assms by (auto simp: unseen_def sender_fixed_def between_def in_hand_def sent_upto_def chunks_of_def)

text \<open>Also the wake-up and the cancellation channel are not part of the invariant.\<close>

definition note_sender :: "send_loop \<Rightarrow> send_state \<Rightarrow> manager \<Rightarrow> manager" where
  "note_sender L st m = m\<lparr>snd_heap := (snd_heap m)(sl_addr L := st)\<rparr>"

lemma note_inv:
  assumes "snd_received st = snd_received (sender_of L m)" "snd_acked st = snd_acked (sender_of L m)"
  shows "phase_inv ino con k0 base ph L (note_sender L st m) \<longleftrightarrow> phase_inv ino con k0 base ph L m"
    "sender_fixed ino con L (note_sender L st m) \<longleftrightarrow> sender_fixed ino con L m"
  using assms
  by (cases ph; simp add: note_sender_def sender_fixed_def between_def in_hand_def sent_upto_def chunks_of_def)+

lemma rely_inv:
  assumes "sender_rely ino L m m'" "sender_fixed ino con L m"
  shows "sender_fixed ino con L m'" "phase_inv ino con k0 base ph L m \<Longrightarrow> phase_inv ino con k0 base ph L m'"
  using assms
  by (cases ph; auto simp: sender_rely_def state_forward_def sender_fixed_def between_def in_hand_def sent_upto_def)+


section \<open>Every turn keeps the invariant\<close>

abbreviation keeps_inv :: "nat \<Rightarrow> bytes \<Rightarrow> int \<Rightarrow> chunk list \<Rightarrow> send_loop \<Rightarrow> send_result \<Rightarrow> bool" where
  "keeps_inv ino con k0 base L r \<equiv> send_inv ino con k0 base (result_run L r)"

lemma finish_failed: "keeps_inv ino con k0 base L (finish_send (Some err) L m)"
  by (simp add: finish_send_def)

lemma finish_success:
  assumes "sl_size L \<le> snd_acked (sender_of L m)" "end_sent L m" "sent_upto con k0 base (file_TotalChunks (sl_meta L)) L m"
  shows "keeps_inv ino con k0 base L (finish_send None L m)"
proof -
  define m1 where "m1 = m\<lparr>senders := map_del (sl_tid L) (senders m)\<rparr>"
  have "packets (snd (os_close fd m1)) = packets m1" for fd
    by (cases "handles m1 fd"; cases rule: fate_of_cases [of m1]) (simp_all add: os_close_def split: fate.split prod.split)
  moreover note os_close_rest [where m = m1]
  ultimately show ?thesis using assms
    by (simp add: finish_send_def m1_def [symmetric] success_def sent_upto_def chunks_of_def same_tables_def) (simp add: m1_def)
qed

lemma begin_queueing_ok:
  assumes "sender_fixed ino con L m" "in_hand ino con k0 base p L m"
  shows "keeps_inv ino con k0 base L (begin_queueing p L m)"
  using assms unseen_inv [OF unseen_time [of m]] by (simp add: begin_queueing_def case_prod_unfold Let_def)

lemma pace_ok:
  assumes "sender_fixed ino con L m" "in_hand ino con k0 base p L m"
  shows "keeps_inv ino con k0 base L (pace p L m)"
  using assms unseen_inv [OF unseen_time [of m]] begin_queueing_ok
  by (simp add: pace_def case_prod_unfold Let_def)

lemma send_end_ok:
  assumes "sender_fixed ino con L m" "between ino con k0 base L m" "sl_index L = file_TotalChunks (sl_meta L)"
  shows "keeps_inv ino con k0 base L (send_end L m)"
proof -
  let ?c = "(new_control ''file_end'' (sl_tid L))\<lparr>ctl_SHA256 := sl_digest L\<rparr>"
  obtain err m1 where r: "sendControl ?c m = (err, m1)" by fastforce
  note u = unseen_inv [OF unseen_sendControl [of m ?c], unfolded r snd_conv]
  show ?thesis
  proof (cases err)
    case None
    then have "?c \<in> set (sent m1)"
      using r by (cases rule: fate_of_cases [of m]) (auto simp: sendControl_def split: fate.splits)
    then have "end_sent L m1" by (rule rev_bexI) simp
    then show ?thesis using None r assms u by (simp add: send_end_def)
  qed (use r in \<open>simp add: send_end_def finish_failed\<close>)
qed

lemma EncodeChunk_length: "EncodeChunk h d = Inr packet \<Longrightarrow> length packet \<le> 6 + MaxHeaderSize + length d"
  by (auto simp: EncodeChunk_def Let_def split: if_splits)

lemma slice_whole:
  assumes "geometry md" "int (length con) = file_Size md" "0 \<le> i" "i < file_TotalChunks md"
  shows "take (nat (boundary md (i + 1) - boundary md i)) (drop (nat (boundary md i)) con) = slice md con i"
    "length (slice md con i) = nat (boundary md (i + 1) - boundary md i)" "slice md con i \<noteq> []"
proof -
  have "int (length (slice md con i)) = boundary md (i + 1) - boundary md i"
    using assms length_slice by blast
  moreover have "0 < boundary md (i + 1) - boundary md i" using boundary_step(1) [of md i] assms by simp
  ultimately show "length (slice md con i) = nat (boundary md (i + 1) - boundary md i)" "slice md con i \<noteq> []" by auto
qed (simp add: slice_def)

lemma sent_chunk_packet:
  assumes "geometry md" "int (length con) = file_Size md" "0 \<le> i" "i < file_TotalChunks md"
    and "valid_utf8 tid" "tid \<noteq> []" "length tid \<le> 1000"
  shows "\<exists>packet. EncodeChunk (fst (sent_chunk tid md con i)) (slice md con i) = Inr packet
    \<and> DecodeChunk packet = Inr (sent_chunk tid md con i)"
proof -
  let ?h = "fst (sent_chunk tid md con i)"
  have b: "0 \<le> boundary md i" "boundary md (i + 1) \<le> file_Size md" "boundary md i < boundary md (i + 1)"
    using assms boundary_step(1) [of md i] by (auto simp: boundary_nonneg boundary_le)
  have n: "file_Size md < 2 ^ 63" "0 < file_ChunkSize md" using assms(1) by (auto simp: geometry_def)
  have "i \<le> i * file_ChunkSize md" using assms(3) n(2) mult_left_mono [of 1 "file_ChunkSize md" i] by simp
  also have "\<dots> < file_Size md" using total_iff [OF assms(1,3)] assms(4) by blast
  finally have i: "i < file_Size md" .
  have "in_i64 (hdr_Index ?h)" "in_i64 (hdr_Offset ?h)" "in_i64 (hdr_Length ?h)"
    using assms(3) b n i slice_whole(2) [OF assms(1-4)] by (auto simp: sent_chunk_def in_i64_def)
  then have ok: "header_ok ?h" using assms(5) by (simp add: header_ok_def sent_chunk_def)
  have "\<exists>packet. EncodeChunk ?h (slice md con i) = Inr packet"
    by (rule EncodeChunk_succeeds) (use assms b length_header_json [OF ok] in \<open>simp_all add: sent_chunk_def\<close>)
  then obtain packet where p: "EncodeChunk ?h (slice md con i) = Inr packet" by blast
  from DecodeChunk_EncodeChunk [OF p ok] p show ?thesis by (auto simp: sent_chunk_def)
qed

lemma os_read_full_cases:
  assumes "handles h fd = Some (i, pos)" "nat n \<le> length (inodes h i) - pos"
  obtains (failed) d msg h' where "os_read_full fd n h = ((d, Some (ReadError msg)), h')" "faults h \<noteq> []"
  | (ok) fs where "os_read_full fd n h = ((take (nat n) (drop pos (inodes h i)), None),
      h\<lparr>faults := fs, handles := (handles h)(fd \<mapsto> (i, pos + nat n))\<rparr>)" "faults h = [] \<Longrightarrow> fs = []"
proof -
  obtain f fs where f: "fate_of h = (f, h\<lparr>faults := fs\<rparr>)" "faults h = [] \<Longrightarrow> f = Fine \<and> fs = []"
    using fate_of_cases [of h] by blast
  show thesis
  proof (cases f)
    case Fine
    with f assms show thesis by (intro ok [of fs]) (simp_all add: os_read_full_def min_def)
  next
    case (Fault msg k)
    with f assms show thesis by (intro failed) (auto simp: os_read_full_def)
  qed
qed

text \<open>Reading and encoding the next chunk: the read fails, or the packet is in hand.\<close>

lemma next_chunk_cases:
  assumes fx: "sender_fixed ino con L m" and bet: "between ino con k0 base L m"
    and h: "handles m (sl_file L) = Some (ino, nat (sl_offset L))" and room: "sl_offset L < sl_size L"
  obtains (failed) err m' where "next_chunk L m = finish_send (Some err) L m'" "faults m \<noteq> []"
  | (ok) fs packet where "next_chunk L m = pace (packet, int (length (slice (sl_meta L) con (sl_index L)))) L
        (m\<lparr>faults := fs, handles := (handles m)(sl_file L \<mapsto> (ino, nat (boundary (sl_meta L) (sl_index L + 1))))\<rparr>)"
      "DecodeChunk packet = Inr (sent_chunk (sl_tid L) (sl_meta L) con (sl_index L))"
      "length packet \<le> 6 + MaxHeaderSize + nat (chunkSize m)"
      "sl_index L < file_TotalChunks (sl_meta L)" "faults m = [] \<Longrightarrow> fs = []"
proof -
  define md i where "md = sl_meta L" and "i = sl_index L"
  have F: "geometry md" "sl_size L = file_Size md" "file_ChunkSize md = chunkSize m" "int (length con) = file_Size md"
    "inodes m ino = con" "valid_utf8 (sl_tid L)" "sl_tid L \<noteq> []" "length (sl_tid L) \<le> 1000"
    using fx by (simp_all add: sender_fixed_def md_def)
  have B: "0 \<le> i" "i \<le> file_TotalChunks md" "sl_offset L = boundary md i"
    using bet by (simp_all add: between_def md_def i_def)
  have i: "i < file_TotalChunks md" using B F(1) room F(2) boundary_total [OF F(1) B(1)] by force
  note S = slice_whole [OF F(1,4) B(1) i]
  define want where "want = min (chunkSize m) (i64 (sl_size L - sl_offset L))"
  have "chunk_length md i = want" using chunk_offset_eq [OF F(1) B(1) i]
    by (simp add: want_def chunk_length_def F(2,3) B(3))
  then have want: "want = boundary md (i + 1) - boundary md i" using chunk_length_eq [OF F(1) B(1) i] by simp
  have le: "0 \<le> boundary md i" "boundary md i < boundary md (i + 1)" "boundary md (i + 1) \<le> int (length con)"
    using F B(1) i boundary_step(1) [OF F(1) B(1) i] boundary_le [of md "i + 1"] by (auto simp: boundary_nonneg)
  then have fits: "nat want \<le> length (inodes m ino) - nat (sl_offset L)" unfolding want F(5) B(3) by simp
  show thesis
  proof (cases rule: os_read_full_cases [OF h fits])
    case (1 d msg h')
    then show thesis by (intro failed [of msg h']) (simp_all add: next_chunk_def want_def [symmetric] Let_def)
  next
    case (2 fs)
    define m1 where "m1 = m\<lparr>faults := fs, handles := (handles m)(sl_file L \<mapsto> (ino, nat (boundary md (i + 1))))\<rparr>"
    have "nat (sl_offset L) + nat want = nat (boundary md (i + 1))" using le want B(3) by simp
    with 2 have r: "os_read_full (sl_file L) want m = ((slice md con i, None), m1)"
      using S(1) by (simp add: m1_def F(5) B(3) want)
    obtain packet where p: "EncodeChunk (fst (sent_chunk (sl_tid L) md con i)) (slice md con i) = Inr packet"
      "DecodeChunk packet = Inr (sent_chunk (sl_tid L) md con i)"
      using sent_chunk_packet [OF F(1,4) B(1) i F(6-8)] by blast
    have "fst (sent_chunk (sl_tid L) md con i) = \<lparr>hdr_TransferID = sl_tid L, hdr_Index = sl_index L,
        hdr_Offset = sl_offset L, hdr_Length = int (length (slice md con i))\<rparr>"
      by (simp add: sent_chunk_def i_def B(3))
    then have e: "next_chunk L m = pace (packet, int (length (slice md con i))) L m1"
      using r p(1) S(3) by (simp add: next_chunk_def want_def [symmetric] Let_def)
    have len: "length packet \<le> 6 + MaxHeaderSize + nat (chunkSize m)"
      using EncodeChunk_length [OF p(1)] S(2) boundary_step(2) [OF F(1) B(1) i] F(3) by simp
    show thesis
      by (rule ok [where fs = fs and packet = packet]) (use e p(2) i 2(2) len in \<open>simp_all add: m1_def md_def i_def\<close>)
  qed
qed

lemma next_chunk_ok:
  assumes fx: "sender_fixed ino con L m" and bet: "between ino con k0 base L m"
    and h: "handles m (sl_file L) = Some (ino, nat (sl_offset L))" and room: "sl_offset L < sl_size L" "sl_offset L < window L m"
  shows "keeps_inv ino con k0 base L (next_chunk L m)"
proof (cases rule: next_chunk_cases [OF fx bet h room(1)])
  case (1 err m')
  then show ?thesis by (simp add: finish_failed)
next
  case (2 fs packet)
  show ?thesis unfolding 2(1)
  proof (rule pace_ok)
    let ?m1 = "m\<lparr>faults := fs, handles := (handles m)(sl_file L \<mapsto> (ino, nat (boundary (sl_meta L) (sl_index L + 1))))\<rparr>"
    show "sender_fixed ino con L ?m1" using fx by (simp add: sender_fixed_def)
    show "in_hand ino con k0 base (packet, int (length (slice (sl_meta L) con (sl_index L)))) L ?m1"
      using bet 2(2,4) room(2) by (simp add: in_hand_def between_def sent_upto_def chunks_of_def)
  qed
qed

lemma fill_ok:
  assumes fx: "sender_fixed ino con L m" and bet: "between ino con k0 base L m"
    and h: "handles m (sl_file L) = Some (ino, nat (sl_offset L))"
  shows "keeps_inv ino con k0 base L (fill L m)"
proof (cases "sl_offset L < sl_size L")
  case True
  have "0 \<le> sl_offset L" "sl_size L < 2 ^ 63"
    using fx bet by (auto simp: sender_fixed_def between_def geometry_def boundary_nonneg)
  with fx True have "i64 (sl_offset L - snd_received (sender_of L m)) = sl_offset L - snd_received (sender_of L m)"
    by (intro i64_id) (auto simp: in_i64_def sender_fixed_def)
  then show ?thesis using True assms next_chunk_ok [OF assms True] by (auto simp: fill_def)
next
  case False
  have "geometry (sl_meta L)" "0 \<le> sl_index L" "sl_index L \<le> file_TotalChunks (sl_meta L)"
    "sl_offset L = boundary (sl_meta L) (sl_index L)" "sl_size L = file_Size (sl_meta L)"
    using fx bet by (auto simp: sender_fixed_def between_def)
  with False have "sl_index L = file_TotalChunks (sl_meta L)"
    using boundary_total [of "sl_meta L" "sl_index L"] boundary_le [of "sl_meta L" "sl_index L"] by simp
  then show ?thesis using False send_end_ok [OF fx bet] by (simp add: fill_def)
qed


lemma queue_turn_ok:
  assumes fx: "sender_fixed ino con L m" and hand: "in_hand ino con k0 base p L m"
  shows "keeps_inv ino con k0 base L (queue_turn p begun is_open L m)"
proof -
  define md i where "md = sl_meta L" and "i = sl_index L"
  obtain f fs where f: "fate_of m = (f, m\<lparr>faults := fs\<rparr>)" by (rule fate_of_cases)
  have u: "unseen m (m\<lparr>faults := fs\<rparr>)" by (simp add: unseen_def)
  show ?thesis
  proof (cases f)
    case (Fault err n)
    define m1 where "m1 = m\<lparr>faults := fs\<rparr>"
    note v = unseen_inv [OF unseen_trans [OF u [folded m1_def] unseen_time [of m1]]]
    show ?thesis using Fault f fx hand v
      by (simp add: queue_turn_def m1_def [symmetric] finish_failed case_prod_unfold Let_def)
  next
    case Fine
    define m1 where "m1 = m\<lparr>faults := fs, packets := packets m @ [fst p]\<rparr>"
    have F: "geometry md" "int (length con) = file_Size md" using fx by (simp_all add: sender_fixed_def md_def)
    have H: "0 \<le> k0" "k0 \<le> i" "i < file_TotalChunks md" "sl_offset L = boundary md i" "sl_offset L < window L m"
      "sent_upto con k0 base i L m" "handles m (sl_file L) = Some (ino, nat (boundary md (i + 1)))"
      "DecodeChunk (fst p) = Inr (sent_chunk (sl_tid L) md con i)" "snd p = int (length (slice md con i))"
      using hand by (auto simp: in_hand_def between_def md_def i_def)
    have i0: "0 \<le> i" using H by simp
    have n: "snd p = boundary md (i + 1) - boundary md i" using slice_whole(2) [OF F i0 H(3)] boundary_step(1) [OF F(1) i0 H(3)] H(9) by simp
    have b: "boundary md (i + 1) \<le> file_Size md" "0 \<le> boundary md i" "file_Size md < 2 ^ 63"
      using F(1) i0 by (auto simp: boundary_le boundary_nonneg geometry_def)
    have off: "i64 (sl_offset L + snd p) = boundary md (i + 1)"
      unfolding n H(4) using b boundary_step(1) [OF F(1) i0 H(3)] by (simp add: in_i64_def)
    have "i \<le> i * file_ChunkSize md" using i0 F(1) mult_left_mono [of 1 "file_ChunkSize md" i] by (simp add: geometry_def)
    also have "\<dots> < file_Size md" using total_iff [OF F(1) i0] H(3) by blast
    finally have idx: "i64 (i + 1) = i + 1" using b(3) i0 by (intro i64_id) (simp add: in_i64_def)
    have "chunks_of (sl_tid L) m1 = chunks_of (sl_tid L) m @ [sent_chunk (sl_tid L) md con i]"
      using H(8) by (simp add: chunks_of_def m1_def sent_chunk_def)
    moreover have "[k0..i] = [k0..i - 1] @ [i]" using H(2) by (rule upto_rec2)
    ultimately have "sent_upto con k0 base (i + 1) L m1" using H(6) by (simp add: sent_upto_def md_def)
    moreover have "boundary md (i + 1) < window L m + chunkSize m"
      using boundary_step(2) [OF F(1) i0 H(3)] H(4,5) fx by (simp add: sender_fixed_def md_def)
    ultimately have "between ino con k0 base (chunk_sent p L) m1"
      using H(1-3) off idx by (simp add: between_def chunk_sent_def m1_def md_def i_def sent_upto_def chunks_of_def)
    moreover have "sender_fixed ino con (chunk_sent p L) m1"
      using fx by (simp add: sender_fixed_def chunk_sent_def m1_def)
    moreover have "handles m1 (sl_file L) = Some (ino, nat (sl_offset (chunk_sent p L)))"
      using H(7) off by (simp add: chunk_sent_def m1_def)
    ultimately show ?thesis using Fine f by (simp add: queue_turn_def m1_def [symmetric]) (simp add: chunk_sent_def)
  qed
qed

lemma buffer_turn_ok:
  assumes "sender_fixed ino con L m" "in_hand ino con k0 base p L m"
  shows "keeps_inv ino con k0 base L (buffer_turn p begun buffered L m)"
  using assms by (simp add: buffer_turn_def Let_def finish_failed)

lemma confirm_turn_ok:
  assumes "sender_fixed ino con L m" "phase_inv ino con k0 base Finishing L m"
  shows "keeps_inv ino con k0 base L (confirm_turn L m)"
proof (cases "snd_acked (sender_of L m) \<ge> sl_size L")
  case True
  have "keeps_inv ino con k0 base L (finish_send None L (emit e m))" for e
  proof (rule finish_success)
    have u: "unseen m (emit e m)" by (rule unseen_emit)
    show "sl_size L \<le> snd_acked (sender_of L (emit e m))" using True u by (simp add: unseen_def)
    show "end_sent L (emit e m)" using assms(2) unseen_inv(4) [OF u] by simp
    show "sent_upto con k0 base (file_TotalChunks (sl_meta L)) L (emit e m)"
      using assms(2) u by (simp add: between_def sent_upto_def chunks_of_def unseen_def)
  qed
  then show ?thesis using True by (simp add: confirm_turn_def)
next
  case False
  then show ?thesis using assms by (simp add: confirm_turn_def)
qed

lemma resume_turn_ok:
  assumes "sender_fixed ino con L m" "phase_inv ino con k0 base ph L m"
  shows "keeps_inv ino con k0 base L (resume_turn ph is_open L m)"
  using assms by (cases ph) (simp_all add: begin_queueing_ok after_blocked_def finish_failed)

lemma go_turn_ok:
  assumes "sender_fixed ino con L m" "phase_inv ino con k0 base ph L m"
  shows "keeps_inv ino con k0 base L (go_turn ph buffered is_open L m)"
  using assms confirm_turn_ok [of ino con L m] fill_ok [of ino con L m]
  by (cases ph) (simp_all add: buffer_turn_ok queue_turn_ok)

lemma send_turn_ok:
  assumes fx: "sender_fixed ino con L m" and inv: "phase_inv ino con k0 base ph L m" and ready: "send_ready k ph L m"
  shows "keeps_inv ino con k0 base L (send_turn k buffered is_open ph L m)"
proof (cases k)
  case Go
  then show ?thesis using go_turn_ok [OF fx inv] by (simp add: send_turn_def)
next
  case TakeAccept
  then show ?thesis using inv ready by (auto simp: send_ready_def)
next
  case TakeAck
  define m1 where "m1 = note_sender L ((sender_of L m)\<lparr>snd_acks := False\<rparr>) m"
  have "phase_inv ino con k0 base ph L m1 \<and> sender_fixed ino con L m1"
    using fx inv by (simp add: m1_def note_inv)
  then show ?thesis using TakeAck resume_turn_ok [of ino con L m1]
    by (simp add: send_turn_def m1_def note_sender_def)
next
  case TakeCancel
  then obtain err where "snd_cancel (sender_of L m) = Some err" using ready by (auto simp: send_ready_def)
  then show ?thesis using TakeCancel finish_failed by (simp add: send_turn_def)
next
  case (CtxDone err)
  then show ?thesis using finish_failed by (simp add: send_turn_def)
next
  case Timer
  then show ?thesis using finish_failed resume_turn_ok [OF fx inv] by (simp add: send_turn_def split: option.split)
next
  case ChanClosed
  then show ?thesis using finish_failed by (simp add: send_turn_def)
next
  case TakeWritable
  have u: "unseen m (m\<lparr>writable := False\<rparr>)" by (rule unseen_writable)
  have "phase_inv ino con k0 base ph L (m\<lparr>writable := False\<rparr>)"
    using inv unseen_inv [OF u] by (cases ph) (auto simp: between_def in_hand_def sent_upto_def chunks_of_def)
  then show ?thesis using TakeWritable resume_turn_ok [of ino con L "m\<lparr>writable := False\<rparr>"] fx unseen_inv(1) [OF u]
    by (simp add: send_turn_def)
qed

text \<open>Where the run starts: the receiver's answer has arrived.\<close>

definition send_init :: "nat \<Rightarrow> bytes \<Rightarrow> int \<Rightarrow> chunk list \<Rightarrow> send_run \<Rightarrow> bool" where
  "send_init ino con k0 base s \<longleftrightarrow>
     (\<exists>L m answer L' m'. sender_fixed ino con L m \<and> (\<exists>pos. handles m (sl_file L) = Some (ino, pos))
        \<and> chunks_of (sl_tid L) m = base \<and> begin_sending answer L m = At Filling L' m'
        \<and> k0 = sanitised answer (sl_size L) (chunkSize m) div chunkSize m \<and> s = Sending Filling L' m')"

lemma sanitised_ok:
  fixes answer :: int
  assumes "geometry md"
  defines "off \<equiv> sanitised answer (file_Size md) (file_ChunkSize md)"
  shows "0 \<le> off" "off \<le> file_Size md" "file_ChunkSize md dvd off"
    "off div file_ChunkSize md \<le> file_TotalChunks md" "boundary md (off div file_ChunkSize md) = off"
proof -
  have c: "0 < file_ChunkSize md" "0 \<le> file_Size md" using assms(1) by (simp_all add: geometry_def)
  have o: "0 \<le> off \<and> off \<le> file_Size md \<and> file_ChunkSize md dvd off"
    using c by (auto simp: off_def sanitised_def go_rem_nonneg dvd_eq_mod_eq_0)
  then show "0 \<le> off" "off \<le> file_Size md" "file_ChunkSize md dvd off" by simp_all
  obtain i where i: "off = file_ChunkSize md * i" using o by blast
  then have q: "off div file_ChunkSize md = i" "0 \<le> i" using c o by (auto simp: zero_le_mult_iff)
  show "boundary md (off div file_ChunkSize md) = off" using o i q by (simp add: boundary_def mult.commute)
  show "off div file_ChunkSize md \<le> file_TotalChunks md"
  proof (cases "i = 0")
    case True
    then show ?thesis using q TotalChunks_nonneg [OF assms(1)] by simp
  next
    case False
    then have "(i - 1) * file_ChunkSize md < file_Size md" using o i c by (simp add: algebra_simps)
    then show ?thesis using total_iff [OF assms(1), of "i - 1"] False q by simp
  qed
qed

lemma send_inv_init:
  assumes "send_init ino con k0 base s"
  shows "send_inv ino con k0 base s"
proof -
  obtain L m answer L' m' pos where S: "sender_fixed ino con L m" "handles m (sl_file L) = Some (ino, pos)"
    "chunks_of (sl_tid L) m = base" "begin_sending answer L m = At Filling L' m'"
    "k0 = sanitised answer (sl_size L) (chunkSize m) div chunkSize m" "s = Sending Filling L' m'"
    using assms unfolding send_init_def by blast
  define md off where "md = sl_meta L" and "off = sanitised answer (sl_size L) (chunkSize m)"
  have F: "geometry md" "sl_size L = file_Size md" "file_ChunkSize md = chunkSize m"
    using S(1) by (simp_all add: sender_fixed_def md_def)
  note O = sanitised_ok [OF F(1), where answer = answer, folded F(2), unfolded F(3), folded off_def]
  have c: "0 < chunkSize m" "sl_size L < 2 ^ 63" using F by (auto simp: geometry_def)
  have q: "go_quot off (chunkSize m) = off div chunkSize m" using O(1) c by (simp add: go_quot_nonneg)
  obtain fs where k: "os_seek (sl_file L) off m = (None, m\<lparr>faults := fs, handles := (handles m)(sl_file L \<mapsto> (ino, nat off))\<rparr>)"
    using S(4) O(1) by (cases rule: os_seek_cases [OF S(2) O(1)]) (auto simp: begin_sending_def off_def [symmetric] finish_send_def Let_def)
  define m1 where "m1 = m\<lparr>faults := fs, handles := (handles m)(sl_file L \<mapsto> (ino, nat off)),
      snd_heap := (snd_heap m)(sl_addr L := (sender_of L m)\<lparr>snd_acked := off, snd_received := off\<rparr>)\<rparr>"
  obtain now ts where t: "time_now m1 = (now, m1\<lparr>clock := ts\<rparr>)" by (rule time_now_cases)
  have r: "m' = m1\<lparr>clock := ts\<rparr>" "L' = L\<lparr>sl_offset := off, sl_index := off div chunkSize m, sl_started := now, sl_sentThisRun := 0\<rparr>"
    using S(4) k t q unfolding begin_sending_def off_def [symmetric] Let_def by (simp_all add: m1_def)
  have "sender_fixed ino con L' m'"
    using S(1) O(1,2) c(2) by (simp add: sender_fixed_def r m1_def in_i64_def)
  moreover have "between ino con k0 base L' m'"
    using O S(3,5) c by (simp add: between_def r m1_def sent_upto_def chunks_of_def maxUnacknowledged_def
        off_def [symmetric] md_def [symmetric] pos_imp_zdiv_nonneg_iff)
  ultimately show ?thesis unfolding S(6) by (simp add: r m1_def)
qed

lemma send_inv_step:
  assumes "send_inv ino con k0 base s" "send_step ino s t"
  shows "send_inv ino con k0 base t"
proof (cases s)
  case (Sending ph L m)
  with assms(1) have I: "sender_fixed ino con L m" "phase_inv ino con k0 base ph L m" by simp_all
  have go: "keeps_inv ino con k0 base L (send_turn k buffered is_open ph L m)" if "send_ready k ph L m" for k buffered is_open
    using send_turn_ok [OF I that] .
  have "send_step ino (Sending ph L m) t" using assms(2) Sending by simp
  then show ?thesis
  proof cases
    case (turn k buffered is_open ph' L' m')
    then show ?thesis using go [OF turn(2), of buffered is_open] by simp
  next
    case (stop k buffered is_open err m')
    then show ?thesis using go [OF stop(2), of buffered is_open] by simp
  next
    case (other m')
    then show ?thesis using rely_inv [OF other(2) I(1)] I(2) by simp
  qed
next
  case (Done err L m)
  with assms(2) show ?thesis by (simp add: send_step_done)
qed

interpretation sending: transition_system "send_init ino con k0 base" "send_step ino" "send_inv ino con k0 base"
  for ino con k0 base
  by unfold_locales (auto intro: send_inv_init send_inv_step)

end
