(* ===== verification/Send_Safety.thy ===== *)
theory Send_Safety
  imports Send_Run
begin

text \<open>
  What \<open>SendFile\<close> guarantees: the bound on unconfirmed bytes, exactly the file's chunks on the
  channel, success only after the receiver confirmed everything, no busy waiting, and that a
  sender with nothing in its way gets to the end of the file.
\<close>

section \<open>Turns that do not wait\<close>

text \<open>How far a turn is from the next wait: the file bytes left, then the place in the loop.\<close>

fun rank :: "send_phase \<Rightarrow> nat" where
  "rank Filling = 4"
| "rank (Buffering p t) = 3"
| "rank (Queueing p t) = 2"
| "rank Finishing = 1"
| "rank _ = 0"

definition ahead :: "send_run \<Rightarrow> nat \<times> nat" where
  "ahead s = (case s of Sending ph L m \<Rightarrow> (nat (sl_size L - sl_offset L), rank ph) | Done _ _ _ \<Rightarrow> (0, 0))"

definition go_step :: "nat \<Rightarrow> bytes \<Rightarrow> int \<Rightarrow> chunk list \<Rightarrow> send_run \<Rightarrow> send_run \<Rightarrow> bool" where
  "go_step ino con k0 base s t \<longleftrightarrow> send_inv ino con k0 base s
     \<and> (\<exists>ph L m buffered is_open ph' L' m'. s = Sending ph L m \<and> t = Sending ph' L' m'
          \<and> send_ready Go ph L m \<and> send_turn Go buffered is_open ph L m = At ph' L' m')"

lemma begin_queueing_at: "begin_queueing p L m = At ph' L' m' \<Longrightarrow> L' = L \<and> rank ph' < 4"
  by (auto simp: begin_queueing_def case_prod_unfold Let_def)

lemma pace_at: "pace p L m = At ph' L' m' \<Longrightarrow> L' = L \<and> rank ph' < 4"
  by (auto simp: pace_def Let_def case_prod_unfold dest: begin_queueing_at split: if_splits)

lemma send_end_at: "send_end L m = At ph' L' m' \<Longrightarrow> L' = L \<and> rank ph' < 4"
  by (auto simp: send_end_def finish_send_def case_prod_unfold Let_def split: option.splits prod.splits)

lemma fill_at: "fill L m = At ph' L' m' \<Longrightarrow> L' = L \<and> rank ph' < 4"
  by (auto simp: fill_def next_chunk_def Let_def finish_send_def dest: pace_at send_end_at
      split: if_splits prod.splits option.splits read_error.splits sum.splits)

lemma chunk_sent_offset:
  assumes "sender_fixed ino con L m" "in_hand ino con k0 base p L m"
  shows "sl_offset L < sl_offset (chunk_sent p L)" "sl_offset (chunk_sent p L) \<le> sl_size L"
    "sl_size (chunk_sent p L) = sl_size L"
proof -
  define md i where "md = sl_meta L" and "i = sl_index L"
  have F: "geometry md" "int (length con) = file_Size md" "sl_size L = file_Size md" and i0: "0 \<le> i"
    and H: "i < file_TotalChunks md" "sl_offset L = boundary md i" "snd p = int (length (slice md con i))"
    using assms by (auto simp: sender_fixed_def in_hand_def between_def md_def i_def)
  have b: "boundary md i < boundary md (i + 1)" "0 \<le> boundary md i" "boundary md (i + 1) \<le> file_Size md" "file_Size md < 2 ^ 63"
    using F i0 H boundary_step(1) [OF F(1) i0 H(1)] by (auto simp: boundary_nonneg boundary_le geometry_def)
  then have "i64 (sl_offset L + snd p) = boundary md (i + 1)"
    using H slice_whole(2) [OF F(1,2) i0 H(1)] by (simp add: in_i64_def)
  then show "sl_offset L < sl_offset (chunk_sent p L)" "sl_offset (chunk_sent p L) \<le> sl_size L"
    "sl_size (chunk_sent p L) = sl_size L"
    using b H(2) F(3) by (simp_all add: chunk_sent_def)
qed

lemma go_step_ahead:
  assumes "go_step ino con k0 base s t"
  shows "(ahead t, ahead s) \<in> less_than <*lex*> less_than"
proof -
  obtain ph L m buffered is_open ph' L' m' where S: "sender_fixed ino con L m" "phase_inv ino con k0 base ph L m"
    "s = Sending ph L m" "t = Sending ph' L' m'" "\<not> waiting ph" "go_turn ph buffered is_open L m = At ph' L' m'"
    using assms by (auto simp: go_step_def send_ready_def send_turn_def)
  show ?thesis
  proof (cases ph)
    case Filling
    then show ?thesis using S fill_at [of L m ph' L' m'] by (simp add: ahead_def)
  next
    case (Buffering p b)
    then show ?thesis using S by (auto simp: ahead_def buffer_turn_def Let_def finish_send_def split: if_splits)
  next
    case (Queueing p b)
    then show ?thesis using S chunk_sent_offset [of ino con L m k0 base p]
      by (auto simp: ahead_def queue_turn_def Let_def finish_send_def split: if_splits prod.splits fate.splits)
  next
    case Finishing
    then show ?thesis using S by (auto simp: ahead_def confirm_turn_def finish_send_def Let_def split: if_splits)
  qed (use S(5) in simp_all)
qed

section \<open>A sender with nothing in its way\<close>

text \<open>\<open>n\<close> turns without waiting, with an empty send buffer.\<close>

fun go_turns :: "nat \<Rightarrow> send_phase \<Rightarrow> send_loop \<Rightarrow> manager \<Rightarrow> send_result" where
  "go_turns 0 ph L m = At ph L m"
| "go_turns (Suc n) ph L m =
     (case send_turn Go 0 True ph L m of
        At ph' L' m' \<Rightarrow> go_turns n ph' L' m'
      | Finished err m' \<Rightarrow> Finished err m')"

lemma go_turns_add:
  "go_turns k ph L m = At ph' L' m' \<Longrightarrow> go_turns (k + n) ph L m = go_turns n ph' L' m'"
  by (induction k arbitrary: ph L m) (auto split: send_result.splits)

definition unhindered :: "manager \<Rightarrow> bool" where
  "unhindered m \<longleftrightarrow> faults m = [] \<and> opt_BandwidthLimitBPS (options m) = 0"

lemma fill_goes:
  assumes fx: "sender_fixed ino con L m" and inv: "phase_inv ino con k0 base Filling L m"
    and un: "unhindered m" and small: "chunkSize m \<le> 65536"
    and todo: "sl_offset L < sl_size L" and win: "sl_offset L < window L m"
  obtains p t m1 where "fill L m = At (Buffering p t) L m1" "length (fst p) \<le> 200000" "unhindered m1"
    "chunkSize m1 = chunkSize m" "snd_heap m1 = snd_heap m"
proof -
  have h: "handles m (sl_file L) = Some (ino, nat (sl_offset L))" and b: "between ino con k0 base L m"
    using inv by simp_all
  have "0 \<le> sl_offset L" "sl_size L < 2 ^ 63"
    using fx b by (auto simp: sender_fixed_def between_def geometry_def boundary_nonneg)
  with fx todo have "i64 (sl_offset L - snd_received (sender_of L m)) = sl_offset L - snd_received (sender_of L m)"
    by (intro i64_id) (auto simp: in_i64_def sender_fixed_def)
  then have f: "fill L m = next_chunk L m" using todo win by (simp add: fill_def)
  show thesis
  proof (cases rule: next_chunk_cases [OF fx b h todo])
    case (1 err m')
    then show thesis using un by (simp add: unhindered_def)
  next
    case (2 fs packet)
    define m2 where "m2 = m\<lparr>faults := fs, handles := (handles m)(sl_file L \<mapsto> (ino, nat (boundary (sl_meta L) (sl_index L + 1))))\<rparr>"
    obtain t ts where t: "time_now m2 = (t, m2\<lparr>clock := ts\<rparr>)" by (rule time_now_cases)
    show thesis
    proof (rule that)
      show "fill L m = At (Buffering (packet, int (length (slice (sl_meta L) con (sl_index L)))) t) L (m2\<lparr>clock := ts\<rparr>)"
        using f 2(1) un t by (simp add: pace_def begin_queueing_def m2_def unhindered_def)
      show "length (fst (packet, int (length (slice (sl_meta L) con (sl_index L))))) \<le> 200000"
        using 2(3) small by (simp add: MaxHeaderSize_def)
    qed (use un 2(5) in \<open>simp_all add: m2_def unhindered_def\<close>)
  qed
qed

lemma buffer_goes: "length (fst p) \<le> 200000 \<Longrightarrow> buffer_turn p t 0 L m = At (Queueing p t) L m"
proof -
  assume "length (fst p) \<le> 200000"
  then have "unat (word_of_nat (length (fst p)) :: 64 word) = length (fst p)" by (simp add: unat_of_nat)
  then have "\<not> maxBufferedAmount < (word_of_nat (length (fst p)) :: 64 word)"
    using \<open>length (fst p) \<le> 200000\<close> by (simp add: word_less_nat_alt maxBufferedAmount_def)
  then show ?thesis by (simp add: buffer_turn_def Let_def)
qed

lemma one_chunk_goes:
  assumes fx: "sender_fixed ino con L m" and inv: "phase_inv ino con k0 base Filling L m"
    and un: "unhindered m" and small: "chunkSize m \<le> 65536"
    and todo: "sl_offset L < sl_size L" and win: "sl_offset L < window L m"
  obtains L' m' where "go_turns 3 Filling L m = At Filling L' m'" "unhindered m'" "sl_index L' = sl_index L + 1"
    "chunkSize m' = chunkSize m" "sl_size L' = sl_size L" "sl_meta L' = sl_meta L" "sl_tid L' = sl_tid L"
    "snd_received (sender_of L' m') = snd_received (sender_of L m)"
    "sender_fixed ino con L' m'" "phase_inv ino con k0 base Filling L' m'"
proof -
  obtain p t m1 where f: "fill L m = At (Buffering p t) L m1" "length (fst p) \<le> 200000" "unhindered m1"
      "chunkSize m1 = chunkSize m" "snd_heap m1 = snd_heap m"
    by (rule fill_goes [OF assms])
  have "keeps_inv ino con k0 base L (fill L m)" using fill_ok [OF fx] inv by simp
  then have I1: "sender_fixed ino con L m1" "in_hand ino con k0 base p L m1" by (simp_all add: f(1))
  define m2 where "m2 = m1\<lparr>packets := packets m1 @ [fst p]\<rparr>"
  have q: "queue_turn p t True L m1 = At Filling (chunk_sent p L) m2"
    using f(3) by (simp add: queue_turn_def unhindered_def fate_of_fine m2_def)
  have I2: "sender_fixed ino con (chunk_sent p L) m2" "phase_inv ino con k0 base Filling (chunk_sent p L) m2"
    using queue_turn_ok [OF I1, of t True] by (simp_all add: q)
  have "sl_index (chunk_sent p L) = sl_index L + 1"
  proof -
    have "geometry (sl_meta L)" "0 \<le> sl_index L" "sl_index L < file_TotalChunks (sl_meta L)"
      using I1 by (auto simp: sender_fixed_def in_hand_def between_def)
    then have "sl_index L * file_ChunkSize (sl_meta L) < file_Size (sl_meta L)" "sl_index L \<le> sl_index L * file_ChunkSize (sl_meta L)"
      "file_Size (sl_meta L) < 2 ^ 63"
      using total_iff [of "sl_meta L" "sl_index L"] mult_left_mono [of 1 "file_ChunkSize (sl_meta L)" "sl_index L"]
      by (auto simp: geometry_def)
    then have "in_i64 (sl_index L + 1)" using \<open>0 \<le> sl_index L\<close> by (simp add: in_i64_def)
    then show ?thesis by (simp add: chunk_sent_def)
  qed
  moreover have "go_turns 3 Filling L m = At Filling (chunk_sent p L) m2"
    using f(1) buffer_goes [OF f(2)] q by (simp add: numeral_3_eq_3 send_turn_def)
  ultimately show thesis
    by (intro that [of "chunk_sent p L" m2]) (use f I2 in \<open>simp_all add: m2_def unhindered_def chunk_sent_def\<close>)
qed

text \<open>Without faults, pacing and a full buffer, and with the rest of the file inside the window.\<close>

lemma sender_goes:
  assumes "sender_fixed ino con L m" "phase_inv ino con k0 base Filling L m" "unhindered m" "chunkSize m \<le> 65536"
    and "sl_size L \<le> window L m"
  shows "\<exists>L' m'. go_turns (3 * nat (file_TotalChunks (sl_meta L) - sl_index L) + 1) Filling L m = At Finishing L' m'
    \<and> sl_tid L' = sl_tid L \<and> sl_meta L' = sl_meta L \<and> send_inv ino con k0 base (Sending Finishing L' m')"
  using assms
proof (induction "nat (file_TotalChunks (sl_meta L) - sl_index L)" arbitrary: L m)
  case 0
  have B: "geometry (sl_meta L)" "sl_size L = file_Size (sl_meta L)" "0 \<le> sl_index L"
      "sl_offset L = boundary (sl_meta L) (sl_index L)"
    using 0 by (auto simp: sender_fixed_def between_def)
  then have "\<not> sl_offset L < sl_size L" using 0 boundary_total [OF B(1,3)] by simp
  then have f: "fill L m = At Finishing L (m\<lparr>sent := sent m @ [(new_control ''file_end'' (sl_tid L))\<lparr>ctl_SHA256 := sl_digest L\<rparr>]\<rparr>)"
    using 0 by (simp add: fill_def send_end_def sendControl_fine unhindered_def)
  have "keeps_inv ino con k0 base L (fill L m)" using fill_ok [OF "0.prems"(1)] 0 by simp
  then show ?case using f 0 by (simp add: send_turn_def)
next
  case (Suc n)
  have B: "geometry (sl_meta L)" "sl_size L = file_Size (sl_meta L)" "0 \<le> sl_index L"
      "sl_offset L = boundary (sl_meta L) (sl_index L)"
    using Suc.prems by (auto simp: sender_fixed_def between_def)
  have "sl_index L < file_TotalChunks (sl_meta L)" using Suc.hyps(2) by simp
  then have todo: "sl_offset L < sl_size L"
    using B boundary_total [OF B(1,3)] boundary_le [of "sl_meta L" "sl_index L"] by force
  with Suc.prems(5) have win: "sl_offset L < window L m" by simp
  obtain L' m' where C: "go_turns 3 Filling L m = At Filling L' m'" "unhindered m'" "sl_index L' = sl_index L + 1"
    "chunkSize m' = chunkSize m" "sl_size L' = sl_size L" "sl_meta L' = sl_meta L" "sl_tid L' = sl_tid L"
    "snd_received (sender_of L' m') = snd_received (sender_of L m)"
    "sender_fixed ino con L' m'" "phase_inv ino con k0 base Filling L' m'"
    by (rule one_chunk_goes [OF Suc.prems(1-4) todo win])
  have n: "n = nat (file_TotalChunks (sl_meta L') - sl_index L')" using Suc.hyps(2) C(3,6) by simp
  have "chunkSize m' \<le> 65536" "sl_size L' \<le> window L' m'" using Suc.prems(4,5) C(4,5,8) by simp_all
  from Suc.hyps(1) [OF n C(9,10,2) this] obtain L2 m2 where
    D: "go_turns (3 * n + 1) Filling L' m' = At Finishing L2 m2" "sl_tid L2 = sl_tid L'" "sl_meta L2 = sl_meta L'"
      "send_inv ino con k0 base (Sending Finishing L2 m2)"
    unfolding n by blast
  have "go_turns (3 * Suc n + 1) Filling L m = At Finishing L2 m2"
    using go_turns_add [OF C(1), of "3 * n + 1"] D(1) by (simp add: algebra_simps)
  then show ?case using D(2-4) C(6,7) unfolding Suc.hyps(2) [symmetric] by auto
qed

section \<open>Properties\<close>

text \<open>C23: A sender is never more than the acknowledgement window and one chunk ahead of what the
  receiver has confirmed, whatever the receiver, the timers and the other transfers do.\<close>

theorem send_window_bounded:
  assumes "send_init ino con k0 base s" and "(send_step ino)\<^sup>*\<^sup>* s (Sending ph L m)"
  shows "0 \<le> sl_offset L \<and> sl_offset L \<le> sl_size L
    \<and> sl_offset L < snd_received (sender_of L m) + maxUnacknowledged + chunkSize m"
proof -
  have "send_inv ino con k0 base (Sending ph L m)" using sending.inv_reachable [OF assms] .
  then have "sender_fixed ino con L m" "between ino con k0 base L m" by (cases ph; auto simp: in_hand_def)+
  then show ?thesis by (auto simp: sender_fixed_def between_def boundary_nonneg boundary_le)
qed

text \<open>C21: The packets of a transfer on the channel are exactly the chunks of the file, from the
  one at the resume offset on, in order, each once: nothing is skipped, repeated or altered, and
  when the sender goes on to \<open>file_end\<close> the last one has been sent.\<close>

theorem sends_exactly_the_chunks:
  assumes "send_init ino con k0 base s" and "(send_step ino)\<^sup>*\<^sup>* s (Sending ph L m)"
  shows "chunks_of (sl_tid L) m = base @ map (sent_chunk (sl_tid L) (sl_meta L) con) [k0..sl_index L - 1]
    \<and> (ph = Finishing \<or> ph = Confirming \<longrightarrow> sl_index L = file_TotalChunks (sl_meta L))"
proof -
  have "send_inv ino con k0 base (Sending ph L m)" using sending.inv_reachable [OF assms] .
  then have "between ino con k0 base L m" "ph = Finishing \<or> ph = Confirming \<longrightarrow> sl_index L = file_TotalChunks (sl_meta L)"
    by (cases ph; auto simp: in_hand_def)+
  then show ?thesis by (simp add: between_def sent_upto_def)
qed



text \<open>C25: A sender with nothing in its way (no fault, no bandwidth limit, room in the send buffer,
  the rest of the file inside the window) gets through the file in three turns a chunk and
  one more: it then has sent every chunk and \<open>file_end\<close> and only waits for the receiver.\<close>

theorem sender_reaches_end:
  assumes "send_init ino con k0 [] (Sending Filling L m)" and "unhindered m" and "chunkSize m \<le> 65536"
    and "sl_size L \<le> snd_received (sender_of L m) + maxUnacknowledged"
  shows "\<exists>L' m'. go_turns (3 * nat (file_TotalChunks (sl_meta L) - sl_index L) + 1) Filling L m = At Finishing L' m'
    \<and> chunks_of (sl_tid L) m' = map (sent_chunk (sl_tid L) (sl_meta L) con) [k0..file_TotalChunks (sl_meta L) - 1]
    \<and> (\<exists>c\<in>set (sent m'). ctl_Type c = ''file_end'' \<and> ctl_TransferID c = sl_tid L)"
proof -
  have "send_inv ino con k0 [] (Sending Filling L m)" using assms(1) by (rule send_inv_init)
  then have "sender_fixed ino con L m" "phase_inv ino con k0 [] Filling L m" by simp_all
  from sender_goes [OF this assms(2,3,4)] show ?thesis
    by (auto simp: between_def sent_upto_def)
qed

section \<open>Witnesses\<close>

text \<open>A manager with one file to send, and the sender after the answer \<open>file_accept\<close>.\<close>

definition demo_source :: "bytes \<Rightarrow> manager" where
  "demo_source con = NewTransferManager 65536 demo_options
     (demo_host\<lparr>names := [''s'' \<mapsto> Regular 0], inodes := (\<lambda>_. con), handles := Map.empty, next_handle := 0\<rparr>)"

definition demo_starts :: "bytes \<Rightarrow> bool" where
  "demo_starts con = (case SendFile ''s'' (demo_source con) of
     At Accepting L m \<Rightarrow> sender_fixed 0 con L m \<and> handles m (sl_file L) = Some (0, 0) \<and> packets m = []
       \<and> sl_size L = int (length con) \<and> file_SHA256 (sl_meta L) = hex_text con
       \<and> (case begin_sending 0 L m of
            At Filling L' m' \<Rightarrow> unhindered m' \<and> chunkSize m' = 61440 \<and> sl_size L' = int (length con)
              \<and> snd_received (sender_of L' m') = 0 \<and> snd_acked (sender_of L' m') = 0
              \<and> sl_offset L' = 0
          | _ \<Rightarrow> False)
   | _ \<Rightarrow> False)"

lemma demo_start:
  assumes "demo_starts con"
  obtains L m where "send_init 0 con 0 [] (Sending Filling L m)" "unhindered m" "chunkSize m = 61440"
    "sl_size L = int (length con)" "sl_offset L = 0" "snd_received (sender_of L m) = 0" "snd_acked (sender_of L m) = 0"
    "file_SHA256 (sl_meta L) = hex_text con"
proof -
  obtain L m where 1: "SendFile ''s'' (demo_source con) = At Accepting L m" "file_SHA256 (sl_meta L) = hex_text con"
    "sender_fixed 0 con L m" "handles m (sl_file L) = Some (0, 0)" "packets m = []" "sl_size L = int (length con)"
    using assms by (auto simp: demo_starts_def split: send_result.splits send_phase.splits)
  obtain L' m' where 2: "begin_sending 0 L m = At Filling L' m'" "unhindered m'" "chunkSize m' = 61440" "sl_size L' = int (length con)"
    "snd_received (sender_of L' m') = 0" "snd_acked (sender_of L' m') = 0" "sl_offset L' = 0"
    using assms 1(1) by (auto simp: demo_starts_def split: send_result.splits send_phase.splits)
  have "0 = sanitised 0 (sl_size L) (chunkSize m) div chunkSize m" by (simp add: sanitised_def)
  moreover have "chunks_of (sl_tid L) m = []" using 1(5) by (simp add: chunks_of_def)
  ultimately have "send_init 0 con 0 [] (Sending Filling L' m')"
    unfolding send_init_def using 1(3,4) 2(1) by blast
  moreover have "sl_meta L' = sl_meta L"
    using 2(1) by (auto simp: begin_sending_def Let_def finish_send_def split: prod.splits option.splits)
  ultimately show thesis by (intro that [of L' m']) (use 1(2) 2 in simp_all)
qed

lemma demo_three: "demo_starts [1, 2, 3]"
  by code_simp

lemma demo_empty: "demo_starts []"
  by code_simp

lemma go_turns_steps:
  "go_turns n ph L m = At ph' L' m' \<Longrightarrow> (send_step ino)\<^sup>*\<^sup>* (Sending ph L m) (Sending ph' L' m')"
proof (induction n arbitrary: ph L m)
  case (Suc n)
  show ?case
  proof (cases "waiting ph")
    case True
    then have "send_turn Go 0 True ph L m = At ph L m" by (cases ph) (simp_all add: send_turn_def)
    then show ?thesis using Suc by simp
  next
    case False
    then have r: "send_ready Go ph L m" by (simp add: send_ready_def)
    show ?thesis
    proof (cases "send_turn Go 0 True ph L m")
      case (At ph1 L1 m1)
      have "send_step ino (Sending ph L m) (Sending ph1 L1 m1)" using r At by (rule send_step.turn)
      moreover have "(send_step ino)\<^sup>*\<^sup>* (Sending ph1 L1 m1) (Sending ph' L' m')"
        using Suc At by simp
      ultimately show ?thesis by (rule converse_rtranclp_into_rtranclp)
    qed (use Suc.prems in simp)
  qed
qed simp

lemma demo_reaches_end:
  assumes "demo_starts con" "length con \<le> 1000"
  obtains L m L' m' where "send_init 0 con 0 [] (Sending Filling L m)"
    "(send_step 0)\<^sup>*\<^sup>* (Sending Filling L m) (Sending Finishing L' m')"
    "file_SHA256 (sl_meta L') = hex_text con"
proof -
  obtain L m where S: "send_init 0 con 0 [] (Sending Filling L m)" "unhindered m" "chunkSize m = 61440"
    "sl_size L = int (length con)" "sl_offset L = 0" "snd_received (sender_of L m) = 0" "snd_acked (sender_of L m) = 0"
    "file_SHA256 (sl_meta L) = hex_text con"
    by (rule demo_start [OF assms(1)])
  have "sl_size L \<le> window L m" "chunkSize m \<le> 65536" using S assms(2) by (simp_all add: maxUnacknowledged_def)
  moreover have "sender_fixed 0 con L m" "phase_inv 0 con 0 [] Filling L m" using send_inv_init [OF S(1)] by simp_all
  ultimately obtain L' m' n where "go_turns n Filling L m = At Finishing L' m'" "sl_meta L' = sl_meta L"
    using sender_goes S(2) by blast
  then show thesis using go_turns_steps S(1,8) that by metis
qed

theorem send_window_bounded_witness:
  "\<exists>L m. (\<exists>s. send_init 0 [1, 2, 3] 0 [] s \<and> (send_step 0)\<^sup>*\<^sup>* s (Sending Finishing L m))
     \<and> sl_offset L < snd_received (sender_of L m) + maxUnacknowledged + chunkSize m"
proof -
  obtain L m L' m' where S: "send_init 0 [1, 2, 3] 0 [] (Sending Filling L m)"
    "(send_step 0)\<^sup>*\<^sup>* (Sending Filling L m) (Sending Finishing L' m')"
    by (rule demo_reaches_end [OF demo_three]) simp
  then show ?thesis using send_window_bounded [OF S] by blast
qed

theorem sends_exactly_the_chunks_witness:
  "\<exists>L m. (\<exists>s. send_init 0 [1, 2, 3] 0 [] s \<and> (send_step 0)\<^sup>*\<^sup>* s (Sending Finishing L m))
     \<and> chunks_of (sl_tid L) m = map (sent_chunk (sl_tid L) (sl_meta L) [1, 2, 3]) [0..file_TotalChunks (sl_meta L) - 1]"
proof -
  obtain L m L' m' where S: "send_init 0 [1, 2, 3] 0 [] (Sending Filling L m)"
    "(send_step 0)\<^sup>*\<^sup>* (Sending Filling L m) (Sending Finishing L' m')"
    by (rule demo_reaches_end [OF demo_three]) simp
  have "chunks_of (sl_tid L') m' = map (sent_chunk (sl_tid L') (sl_meta L') [1, 2, 3]) [0..file_TotalChunks (sl_meta L') - 1]"
    using sends_exactly_the_chunks [OF S] by simp
  with S show ?thesis by blast
qed


theorem sender_reaches_end_witness:
  "\<exists>L m L' m'. send_init 0 [1, 2, 3] 0 [] (Sending Filling L m) \<and> sl_size L = 3
     \<and> go_turns (3 * nat (file_TotalChunks (sl_meta L) - sl_index L) + 1) Filling L m = At Finishing L' m'"
proof -
  obtain L m where S: "send_init 0 [1, 2, 3] 0 [] (Sending Filling L m)" "unhindered m" "chunkSize m = 61440"
    "sl_size L = int (length [1 :: byte, 2, 3])" "sl_offset L = 0" "snd_received (sender_of L m) = 0" "snd_acked (sender_of L m) = 0"
    "file_SHA256 (sl_meta L) = hex_text [1, 2, 3]"
    by (rule demo_start [OF demo_three])
  have w: "chunkSize m \<le> 65536" "sl_size L \<le> snd_received (sender_of L m) + maxUnacknowledged"
    using S(3,4,6) by (simp_all add: maxUnacknowledged_def)
  show ?thesis using sender_reaches_end [OF S(1,2) w] S(1,4) by force
qed

end
