(* ===== verification/Parallel_Channel.thy ===== *)
theory Parallel_Channel
  imports Handlers
begin

text \<open>
  \<open>src/webrtc/parallel_channel.go\<close>: one logical channel over a primary DataChannel, an optional
  priority channel and up to seven lanes, each a DataChannel of a peer connection of its own.

  The \<open>pion\<close> library is not part of the repository. It is the record \<open>P\<close> of functions over an
  unknown \<open>world\<close> (its connections, the network and the remote side), an argument of every
  definition; channels and peer connections are numbers. What the code relies on is stated as
  hypotheses of the theorems. Handlers the code registers with the library are functions the
  library may call at any time; what the code hands to the handlers of its own client is kept
  as lists. A section under the mutex is one step.
\<close>

section \<open>The library\<close>

text \<open>The order in which Go ranges over a map is not determined: also a parameter.\<close>

record ('n, 'd, 'c) pion =
  dc_is_open :: "'n \<Rightarrow> nat \<Rightarrow> bool"
  dc_buffered :: "'n \<Rightarrow> nat \<Rightarrow> 64 word"
  dc_label :: "'n \<Rightarrow> nat \<Rightarrow> string"
  dc_send :: "nat \<Rightarrow> bytes \<Rightarrow> 'n \<Rightarrow> string option \<times> 'n"
  dc_send_text :: "nat \<Rightarrow> string \<Rightarrow> 'n \<Rightarrow> string option \<times> 'n"
  dc_set_threshold :: "nat \<Rightarrow> 64 word \<Rightarrow> 'n \<Rightarrow> 'n"
  dc_close :: "nat \<Rightarrow> 'n \<Rightarrow> string option \<times> 'n"
  new_connection :: "'n \<Rightarrow> (string + nat) \<times> 'n"
  pc_close :: "nat \<Rightarrow> 'n \<Rightarrow> 'n"
  pc_is_closed :: "'n \<Rightarrow> nat \<Rightarrow> bool"
  pc_create_channel :: "nat \<Rightarrow> string \<Rightarrow> bool \<Rightarrow> 'n \<Rightarrow> (string + nat) \<times> 'n"
  pc_create_offer :: "nat \<Rightarrow> 'n \<Rightarrow> (string + 'd) \<times> 'n"
  pc_create_answer :: "nat \<Rightarrow> 'n \<Rightarrow> (string + 'd) \<times> 'n"
  pc_set_local :: "nat \<Rightarrow> 'd \<Rightarrow> 'n \<Rightarrow> string option \<times> 'n"
  pc_set_remote :: "nat \<Rightarrow> 'd \<Rightarrow> 'n \<Rightarrow> string option \<times> 'n"
  pc_local :: "'n \<Rightarrow> nat \<Rightarrow> 'd option"
  pc_remote :: "'n \<Rightarrow> nat \<Rightarrow> 'd option"
  pc_add_candidate :: "nat \<Rightarrow> 'c \<Rightarrow> 'n \<Rightarrow> string option \<times> 'n"
  sdp_is_offer :: "'d \<Rightarrow> bool"
  sdp_is_answer :: "'d \<Rightarrow> bool"
  sdp_length :: "'d \<Rightarrow> nat"
  ice_length :: "'c \<Rightarrow> nat"
  description_json :: "'d \<Rightarrow> json"
  json_description :: "json \<Rightarrow> 'd option"
  candidate_json :: "'c \<Rightarrow> json"
  json_candidate :: "json \<Rightarrow> 'c option"
  range_order :: "'n \<Rightarrow> (int \<times> nat) list \<Rightarrow> (int \<times> nat) list"

section \<open>Constants and data\<close>

definition defaultParallelConnections :: int where "defaultParallelConnections = 4"
definition maxParallelConnections :: int where "maxParallelConnections = 8"
definition maxParallelSDPSize :: nat where "maxParallelSDPSize = 128 * 1024"
definition maxParallelCandidateSize :: nat where "maxParallelCandidateSize = 4096"
definition maxPendingCandidatesPerConnection :: nat where "maxPendingCandidatesPerConnection = 64"

record ('d, 'c) parallel_control =
  plc_Version :: int
  plc_Type :: string
  plc_Connections :: int
  plc_Lane :: int
  plc_Description :: "'d option"
  plc_Candidate :: "'c option"

definition zero_parallel :: "('d, 'c) parallel_control" where
  "zero_parallel = \<lparr>plc_Version = 0, plc_Type = [], plc_Connections = 0, plc_Lane = 0,
     plc_Description = None, plc_Candidate = None\<rparr>"

definition parallel_json :: "('n, 'd, 'c) pion \<Rightarrow> ('d, 'c) parallel_control \<Rightarrow> json" where
  "parallel_json P v = JObj (
     [(''version'', JNum (int_text (plc_Version v))), (''type'', JStr (plc_Type v))] @
     omit_when (plc_Connections v = 0) ''connections'' (JNum (int_text (plc_Connections v))) @
     omit_when (plc_Lane v = 0) ''lane'' (JNum (int_text (plc_Lane v))) @
     omit_when (plc_Description v = None) ''description'' (description_json P (the (plc_Description v))) @
     omit_when (plc_Candidate v = None) ''candidate'' (candidate_json P (the (plc_Candidate v))) @ [])"

definition parallel_fields :: "string list" where
  "parallel_fields = [''version'', ''type'', ''connections'', ''lane'', ''description'', ''candidate'']"

definition set_parallel_field :: "('n, 'd, 'c) pion \<Rightarrow> ('d, 'c) parallel_control setter" where
  "set_parallel_field P k v c =
     (if k = ''version'' then map_option (\<lambda>x. c\<lparr>plc_Version := x\<rparr>) (get_int v (plc_Version c))
      else if k = ''type'' then map_option (\<lambda>x. c\<lparr>plc_Type := x\<rparr>) (get_string v (plc_Type c))
      else if k = ''connections'' then map_option (\<lambda>x. c\<lparr>plc_Connections := x\<rparr>) (get_int v (plc_Connections c))
      else if k = ''lane'' then map_option (\<lambda>x. c\<lparr>plc_Lane := x\<rparr>) (get_int v (plc_Lane c))
      else if k = ''description'' then
        (if v = JNull then Some (c\<lparr>plc_Description := None\<rparr>)
         else map_option (\<lambda>d. c\<lparr>plc_Description := Some d\<rparr>) (json_description P v))
      else if k = ''candidate'' then
        (if v = JNull then Some (c\<lparr>plc_Candidate := None\<rparr>)
         else map_option (\<lambda>d. c\<lparr>plc_Candidate := Some d\<rparr>) (json_candidate P v))
      else None)"

definition parse_parallel :: "('n, 'd, 'c) pion \<Rightarrow> string \<Rightarrow> ('d, 'c) parallel_control option" where
  "parse_parallel P raw = unmarshal parallel_fields (set_parallel_field P) raw zero_parallel"

record parallel_lane =
  lane_pc :: nat
  lane_channel :: "nat option"
  lane_open :: bool

text \<open>Handlers are either installed or not; lanes are pointers, hence addresses in a store.\<close>

record ('n, 'd, 'c) parallel_channel =
  pch_primary :: nat
  pch_priority :: "nat option"
  pch_initiator :: bool
  pch_connections :: int
  pch_factory :: bool \<comment> \<open>whether \<open>newPeerConnection\<close> is set\<close>
  pch_lanes :: "(int, nat) gomap"
  lane_heap :: "nat \<Rightarrow> parallel_lane"
  next_lane :: nat
  pendingCandidates :: "(int, 'c list) gomap"
  negotiatedConnections :: int
  peerSupportsPriority :: bool
  binaryCursor :: "64 word"
  has_onMessage :: bool
  has_onClose :: bool
  has_onError :: bool
  has_onBufferedAmountLow :: bool
  bufferedLowThreshold :: "64 word"
  pendingMessages :: "channel_message list"
  pch_closed :: bool
  close_done :: bool \<comment> \<open>\<open>closeOnce\<close>\<close>
  negotiation :: "('d, 'c) parallel_control list"
  negotiationDone :: bool
  world :: 'n
  delivered_messages :: "channel_message list"
  reported_errors :: "string list"
  close_calls :: nat
  low_calls :: nat

type_synonym ('n, 'd, 'c) chan = "('n, 'd, 'c) parallel_channel"

definition clampParallelConnections :: "int \<Rightarrow> int" where
  "clampParallelConnections value = (if value \<le> 0 then defaultParallelConnections else min value maxParallelConnections)"

definition newParallelChannel :: "nat \<Rightarrow> nat option \<Rightarrow> bool \<Rightarrow> int \<Rightarrow> bool \<Rightarrow> 'n \<Rightarrow> ('n, 'd, 'c) chan" where
  "newParallelChannel primary priority initiator connections factory w =
     \<lparr>pch_primary = primary, pch_priority = priority, pch_initiator = initiator,
      pch_connections = clampParallelConnections connections, pch_factory = factory, pch_lanes = [],
      lane_heap = (\<lambda>_. \<lparr>lane_pc = 0, lane_channel = None, lane_open = False\<rparr>), next_lane = 0,
      pendingCandidates = [], negotiatedConnections = 1, peerSupportsPriority = False, binaryCursor = 0,
      has_onMessage = False, has_onClose = False, has_onError = False, has_onBufferedAmountLow = False,
      bufferedLowThreshold = 0, pendingMessages = [], pch_closed = False, close_done = False,
      negotiation = [], negotiationDone = False, world = w, delivered_messages = [], reported_errors = [],
      close_calls = 0, low_calls = 0\<rparr>"

section \<open>Handlers of the client\<close>

definition emitError :: "string option \<Rightarrow> ('n, 'd, 'c) chan \<Rightarrow> ('n, 'd, 'c) chan" where
  "emitError err c =
     (case err of
        None \<Rightarrow> c
      | Some e \<Rightarrow> if has_onError c then c\<lparr>reported_errors := reported_errors c @ [e]\<rparr> else c)"

definition emitBufferedAmountLow :: "('n, 'd, 'c) chan \<Rightarrow> ('n, 'd, 'c) chan" where
  "emitBufferedAmountLow c = (if has_onBufferedAmountLow c then c\<lparr>low_calls := Suc (low_calls c)\<rparr> else c)"

definition deliver :: "channel_message \<Rightarrow> ('n, 'd, 'c) chan \<Rightarrow> ('n, 'd, 'c) chan" where
  "deliver message c =
     (if \<not> has_onMessage c then
        (if length (pendingMessages c) < 64 then c\<lparr>pendingMessages := pendingMessages c @ [message]\<rparr> else c)
      else c\<lparr>delivered_messages := delivered_messages c @ [message]\<rparr>)"

definition OnMessage :: "('n, 'd, 'c) chan \<Rightarrow> ('n, 'd, 'c) chan" where
  "OnMessage c =
     (let pending = pendingMessages c; c1 = c\<lparr>has_onMessage := True, pendingMessages := []\<rparr>
      in c1\<lparr>delivered_messages := delivered_messages c1 @ pending\<rparr>)"

definition OnBufferedAmountLow :: "('n, 'd, 'c) chan \<Rightarrow> ('n, 'd, 'c) chan" where
  "OnBufferedAmountLow c = c\<lparr>has_onBufferedAmountLow := True\<rparr>"

definition OnClose :: "('n, 'd, 'c) chan \<Rightarrow> ('n, 'd, 'c) chan" where
  "OnClose c =
     (let c1 = c\<lparr>has_onClose := True\<rparr>
      in if pch_closed c then c1\<lparr>close_calls := Suc (close_calls c1)\<rparr> else c1)"

definition OnError :: "('n, 'd, 'c) chan \<Rightarrow> ('n, 'd, 'c) chan" where
  "OnError c = c\<lparr>has_onError := True\<rparr>"

section \<open>Sending\<close>

definition range_lanes :: "('n, 'd, 'c) pion \<Rightarrow> ('n, 'd, 'c) chan \<Rightarrow> parallel_lane list" where
  "range_lanes P c = map (\<lambda>(_, a). lane_heap c a) (range_order P (world c) (pch_lanes c))"

text \<open>The open channels a binary message may take.\<close>

definition binaryCandidates :: "('n, 'd, 'c) pion \<Rightarrow> ('n, 'd, 'c) chan \<Rightarrow> nat list" where
  "binaryCandidates P c =
     (if dc_is_open P (world c) (pch_primary c) then [pch_primary c] else [])
     @ concat (map (\<lambda>l. case lane_channel l of
          Some d \<Rightarrow> if lane_open l \<and> dc_is_open P (world c) d then [d] else [] | None \<Rightarrow> [])
        (range_lanes P c))"

text \<open>The loop that finds the least buffered candidate: its position.\<close>

fun least_from :: "('n, 'd, 'c) pion \<Rightarrow> 'n \<Rightarrow> nat list \<Rightarrow> nat \<Rightarrow> nat \<Rightarrow> nat list \<Rightarrow> nat" where
  "least_from P w candidates least index [] = least"
| "least_from P w candidates least index (d # ds) =
     least_from P w candidates
       (if dc_buffered P w d < dc_buffered P w (candidates ! least) then index else least) (Suc index) ds"

definition least_buffered :: "('n, 'd, 'c) pion \<Rightarrow> 'n \<Rightarrow> nat list \<Rightarrow> nat" where
  "least_buffered P w candidates = least_from P w candidates 0 1 (tl candidates)"

lemma least_from_bound: "least < n \<Longrightarrow> index + length ds \<le> n \<Longrightarrow> least_from P w cs least index ds < n"
  by (induction ds arbitrary: least index) auto

lemma least_buffered_bound: "candidates \<noteq> [] \<Longrightarrow> least_buffered P w candidates < length candidates"
  unfolding least_buffered_def by (rule least_from_bound) (auto simp: Suc_le_eq)

text \<open>Try the least buffered candidate, drop it if it fails, until none is left.\<close>

function try_candidates :: "('n, 'd, 'c) pion \<Rightarrow> nat list \<Rightarrow> bytes \<Rightarrow> string option \<Rightarrow> 'n \<Rightarrow> string option \<times> 'n" where
  "try_candidates P candidates payload lastErr w =
     (if candidates = [] then (lastErr, w)
      else
        (let least = least_buffered P w candidates in
         case dc_send P (candidates ! least) payload w of
           (None, w1) \<Rightarrow> (None, w1)
         | (Some err, w1) \<Rightarrow>
             try_candidates P (take least candidates @ drop (least + 1) candidates) payload (Some err) w1))"
  by pat_completeness auto
termination
proof (relation "measure (\<lambda>(P, cs, _). length cs)")
  fix P :: "('n, 'd, 'c) pion" and candidates :: "nat list" and least :: nat and w w1 :: 'n
    and payload :: bytes and lastErr r :: "string option" and err :: string
  assume "candidates \<noteq> []" "least = least_buffered P w candidates"
  then have "least < length candidates" by (simp add: least_buffered_bound)
  then have "length (take least candidates @ drop (least + 1) candidates) < length candidates" by simp
  then show "((P, take least candidates @ drop (least + 1) candidates, payload, Some err, w1),
      P, candidates, payload, lastErr, w) \<in> measure (\<lambda>(P, cs, _). length cs)" by simp
qed simp

declare try_candidates.simps [simp del]

definition Send :: "('n, 'd, 'c) pion \<Rightarrow> bytes \<Rightarrow> ('n, 'd, 'c) chan \<Rightarrow> string option \<times> ('n, 'd, 'c) chan" where
  "Send P payload c =
     (let candidates = binaryCandidates P c in
      if candidates = [] then (Some ''DataChannel is not open'', c)
      else
        (let start = unat (binaryCursor c mod word_of_nat (length candidates));
             rotated = drop start candidates @ take start candidates;
             (err, w) = try_candidates P rotated payload None (world c)
         in (err, c\<lparr>binaryCursor := binaryCursor c + 1, world := w\<rparr>)))"

definition sendRawText :: "('n, 'd, 'c) pion \<Rightarrow> string \<Rightarrow> ('n, 'd, 'c) chan \<Rightarrow> string option \<times> ('n, 'd, 'c) chan" where
  "sendRawText P payload c =
     (if \<not> dc_is_open P (world c) (pch_primary c) then (Some ''DataChannel is not open'', c)
      else (let (err, w) = dc_send_text P (pch_primary c) payload (world c) in (err, c\<lparr>world := w\<rparr>)))"

definition set_type_field :: "string setter" where
  "set_type_field k v s = (if k = ''type'' then get_string v s else None)"

definition isPriorityCancel :: "string \<Rightarrow> bool" where
  "isPriorityCancel payload \<longleftrightarrow> unmarshal [''type''] set_type_field payload [] = Some ''file_cancel''"

definition SendText_on :: "('n, 'd, 'c) pion \<Rightarrow> string \<Rightarrow> ('n, 'd, 'c) chan \<Rightarrow> string option \<times> ('n, 'd, 'c) chan" where
  "SendText_on P payload c =
     (case (if isPriorityCancel payload \<and> peerSupportsPriority c then pch_priority c else None) of
        Some d \<Rightarrow>
          if dc_is_open P (world c) d then
            (let (err, w) = dc_send_text P d payload (world c) in (err, c\<lparr>world := w\<rparr>))
          else sendRawText P payload c
      | None \<Rightarrow> sendRawText P payload c)"

definition sendParallel :: "('n, 'd, 'c) pion \<Rightarrow> ('d, 'c) parallel_control \<Rightarrow> ('n, 'd, 'c) chan \<Rightarrow> string option \<times> ('n, 'd, 'c) chan" where
  "sendParallel P control c = sendRawText P (json_text (parallel_json P control)) c"

definition capability_text :: string where
  "capability_text =
     [CHR 0x7B] @ quote ''version'' @ '':1,'' @ quote ''type'' @ '':'' @ quote ''channel_capability'' @ '',''
     @ quote ''priorityCancel'' @ '':true'' @ [CHR 0x7D]"

definition start :: "('n, 'd, 'c) pion \<Rightarrow> ('n, 'd, 'c) chan \<Rightarrow> ('n, 'd, 'c) chan" where
  "start P c =
     (let c1 = snd (sendRawText P capability_text c)
      in snd (sendParallel P (zero_parallel\<lparr>plc_Version := 1, plc_Type := ''parallel_capability'',
           plc_Connections := pch_connections c1\<rparr>) c1))"

section \<open>The state of the send queue\<close>

definition BufferedAmount :: "('n, 'd, 'c) pion \<Rightarrow> ('n, 'd, 'c) chan \<Rightarrow> 64 word" where
  "BufferedAmount P c =
     (case binaryCandidates P c of
        [] \<Rightarrow> dc_buffered P (world c) (pch_primary c)
      | d # ds \<Rightarrow>
          foldl (\<lambda>minimum e. if dc_buffered P (world c) e < minimum then dc_buffered P (world c) e else minimum)
            (dc_buffered P (world c) d) ds)"

definition SetBufferedAmountLowThreshold :: "('n, 'd, 'c) pion \<Rightarrow> 64 word \<Rightarrow> ('n, 'd, 'c) chan \<Rightarrow> ('n, 'd, 'c) chan" where
  "SetBufferedAmountLowThreshold P threshold c =
     (let ds = pch_primary c # concat (map (\<lambda>l. case lane_channel l of Some d \<Rightarrow> [d] | None \<Rightarrow> []) (range_lanes P c))
      in c\<lparr>bufferedLowThreshold := threshold, world := foldl (\<lambda>w d. dc_set_threshold P d threshold w) (world c) ds\<rparr>)"

definition ReadyState_open :: "('n, 'd, 'c) pion \<Rightarrow> ('n, 'd, 'c) chan \<Rightarrow> bool" where
  "ReadyState_open P c = dc_is_open P (world c) (pch_primary c)"

definition ConnectionCount :: "('n, 'd, 'c) pion \<Rightarrow> ('n, 'd, 'c) chan \<Rightarrow> nat" where
  "ConnectionCount P c =
     Suc (length (filter (\<lambda>l. lane_open l \<and> (case lane_channel l of Some d \<Rightarrow> dc_is_open P (world c) d | None \<Rightarrow> False))
       (range_lanes P c)))"

definition secondaryPeerConnections :: "('n, 'd, 'c) pion \<Rightarrow> ('n, 'd, 'c) chan \<Rightarrow> nat list" where
  "secondaryPeerConnections P c =
     map lane_pc (filter (\<lambda>l. lane_open l \<and> \<not> pc_is_closed P (world c) (lane_pc l)) (range_lanes P c))"

end
