(* ===== verification/Parallel_Negotiation.thy ===== *)
theory Parallel_Negotiation
  imports Parallel_Channel
begin

text \<open>
  The lanes of \<open>src/webrtc/parallel_channel.go\<close>: the messages of the primary channel, the
  negotiation goroutine and its handlers, and the handlers of the lanes' connections and
  channels.
\<close>

section \<open>Lanes\<close>

definition validLane :: "int \<Rightarrow> ('n, 'd, 'c) chan \<Rightarrow> bool" where
  "validLane index c \<longleftrightarrow> index > 0 \<and> index < negotiatedConnections c"

definition validDescription ::
  "('n, 'd, 'c) pion \<Rightarrow> ('d, 'c) parallel_control \<Rightarrow> ('d \<Rightarrow> bool) \<Rightarrow> ('n, 'd, 'c) chan \<Rightarrow> bool" where
  "validDescription P control kind c \<longleftrightarrow> validLane (plc_Lane control) c
     \<and> (case plc_Description control of None \<Rightarrow> False | Some d \<Rightarrow> kind d \<and> sdp_length P d \<le> maxParallelSDPSize)"

definition isCurrentLane :: "int \<Rightarrow> nat \<Rightarrow> ('n, 'd, 'c) chan \<Rightarrow> bool" where
  "isCurrentLane index lane c \<longleftrightarrow> \<not> pch_closed c \<and> map_get (pch_lanes c) index = Some lane"

definition new_lane :: "nat \<Rightarrow> ('n, 'd, 'c) chan \<Rightarrow> nat \<times> ('n, 'd, 'c) chan" where
  "new_lane pc c = (next_lane c,
     c\<lparr>lane_heap := (lane_heap c)(next_lane c := \<lparr>lane_pc = pc, lane_channel = None, lane_open = False\<rparr>),
       next_lane := Suc (next_lane c)\<rparr>)"

definition installLane :: "int \<Rightarrow> nat \<Rightarrow> ('n, 'd, 'c) chan \<Rightarrow> bool \<times> ('n, 'd, 'c) chan" where
  "installLane index lane c =
     (if pch_closed c \<or> map_get (pch_lanes c) index \<noteq> None then (False, c)
      else (True, c\<lparr>pch_lanes := map_put index lane (pch_lanes c)\<rparr>))"

definition removeLane :: "('n, 'd, 'c) pion \<Rightarrow> int \<Rightarrow> ('n, 'd, 'c) chan \<Rightarrow> ('n, 'd, 'c) chan" where
  "removeLane P index c =
     (let c1 = c\<lparr>pch_lanes := map_del index (pch_lanes c), pendingCandidates := map_del index (pendingCandidates c)\<rparr>
      in case map_get (pch_lanes c) index of
           None \<Rightarrow> c1
         | Some lane \<Rightarrow> c1\<lparr>world := pc_close P (lane_pc (lane_heap c lane)) (world c1)\<rparr>)"

definition removeLaneIfCurrent :: "('n, 'd, 'c) pion \<Rightarrow> int \<Rightarrow> nat \<Rightarrow> ('n, 'd, 'c) chan \<Rightarrow> ('n, 'd, 'c) chan" where
  "removeLaneIfCurrent P index lane c =
     (if map_get (pch_lanes c) index \<noteq> Some lane then c
      else
        (let c1 = c\<lparr>pch_lanes := map_del index (pch_lanes c), pendingCandidates := map_del index (pendingCandidates c)\<rparr>;
             pc = lane_pc (lane_heap c lane)
         in if pc_is_closed P (world c1) pc then c1 else c1\<lparr>world := pc_close P pc (world c1)\<rparr>))"

fun add_candidates :: "('n, 'd, 'c) pion \<Rightarrow> nat \<Rightarrow> 'c list \<Rightarrow> 'n \<Rightarrow> string option \<times> 'n" where
  "add_candidates P pc [] w = (None, w)"
| "add_candidates P pc (x # xs) w =
     (case pc_add_candidate P pc x w of
        (Some err, w1) \<Rightarrow> (Some err, w1)
      | (None, w1) \<Rightarrow> add_candidates P pc xs w1)"

definition flushLaneCandidates ::
  "('n, 'd, 'c) pion \<Rightarrow> int \<Rightarrow> nat \<Rightarrow> ('n, 'd, 'c) chan \<Rightarrow> string option \<times> ('n, 'd, 'c) chan" where
  "flushLaneCandidates P index pc c =
     (let pending = (case map_get (pendingCandidates c) index of None \<Rightarrow> [] | Some xs \<Rightarrow> xs);
          c1 = c\<lparr>pendingCandidates := map_del index (pendingCandidates c)\<rparr>;
          (err, w) = add_candidates P pc pending (world c1)
      in (err, c1\<lparr>world := w\<rparr>))"

definition attachLaneChannel :: "('n, 'd, 'c) pion \<Rightarrow> int \<Rightarrow> nat \<Rightarrow> nat \<Rightarrow> ('n, 'd, 'c) chan \<Rightarrow> ('n, 'd, 'c) chan" where
  "attachLaneChannel P index lane data c =
     (if map_get (pch_lanes c) index \<noteq> Some lane then c\<lparr>world := snd (dc_close P data (world c))\<rparr>
      else c\<lparr>lane_heap := (lane_heap c)(lane := (lane_heap c lane)\<lparr>lane_channel := Some data\<rparr>),
             world := dc_set_threshold P data (bufferedLowThreshold c) (world c)\<rparr>)"

section \<open>Offers and answers\<close>

text \<open>The steps that can fail are chained: an error skips the rest.\<close>

abbreviation on_success ::
  "('e option \<times> 's) \<Rightarrow> ('s \<Rightarrow> 'e option \<times> 's) \<Rightarrow> 'e option \<times> 's" where
  "on_success r f \<equiv> (case r of (Some err, s) \<Rightarrow> (Some err, s) | (None, s) \<Rightarrow> f s)"

definition lane_label :: "int \<Rightarrow> string" where
  "lane_label index = ''quickdrop-lane-'' @ int_text index"

definition send_description ::
  "('n, 'd, 'c) pion \<Rightarrow> string \<Rightarrow> int \<Rightarrow> nat \<Rightarrow> ('n, 'd, 'c) chan \<Rightarrow> string option \<times> ('n, 'd, 'c) chan" where
  "send_description P kind index pc c =
     sendParallel P (zero_parallel\<lparr>plc_Version := 1, plc_Type := kind, plc_Lane := index,
       plc_Description := pc_local P (world c) pc\<rparr>) c"

definition offer_lane ::
  "('n, 'd, 'c) pion \<Rightarrow> int \<Rightarrow> nat \<Rightarrow> nat \<Rightarrow> ('n, 'd, 'c) chan \<Rightarrow> string option \<times> ('n, 'd, 'c) chan" where
  "offer_lane P index lane pc c =
     (case pc_create_channel P pc (lane_label index) False (world c) of
        (Inl err, w1) \<Rightarrow> (Some err, c\<lparr>world := w1\<rparr>)
      | (Inr data, w1) \<Rightarrow>
          (let c1 = attachLaneChannel P index lane data (c\<lparr>world := w1\<rparr>) in
           case pc_create_offer P pc (world c1) of
             (Inl err, w2) \<Rightarrow> (Some err, c1\<lparr>world := w2\<rparr>)
           | (Inr offer, w2) \<Rightarrow>
               (case pc_set_local P pc offer w2 of
                  (Some err, w3) \<Rightarrow> (Some err, c1\<lparr>world := w3\<rparr>)
                | (None, w3) \<Rightarrow> send_description P ''parallel_offer'' index pc (c1\<lparr>world := w3\<rparr>))))"

definition createOffer :: "('n, 'd, 'c) pion \<Rightarrow> int \<Rightarrow> ('n, 'd, 'c) chan \<Rightarrow> string option \<times> ('n, 'd, 'c) chan" where
  "createOffer P index c =
     (if \<not> validLane index c \<or> \<not> pch_factory c then (None, c)
      else
        (case new_connection P (world c) of
           (Inl err, w1) \<Rightarrow> (Some err, c\<lparr>world := w1\<rparr>)
         | (Inr pc, w1) \<Rightarrow>
             (let (lane, c1) = new_lane pc (c\<lparr>world := w1\<rparr>);
                  (installed, c2) = installLane index lane c1
              in if \<not> installed then (None, c2\<lparr>world := pc_close P pc (world c2)\<rparr>)
                 else offer_lane P index lane pc c2)))"

definition answer_lane ::
  "('n, 'd, 'c) pion \<Rightarrow> int \<Rightarrow> 'd \<Rightarrow> nat \<Rightarrow> ('n, 'd, 'c) chan \<Rightarrow> string option \<times> ('n, 'd, 'c) chan" where
  "answer_lane P index description pc c =
     (case pc_set_remote P pc description (world c) of
        (Some err, w1) \<Rightarrow> (Some err, c\<lparr>world := w1\<rparr>)
      | (None, w1) \<Rightarrow>
          on_success (flushLaneCandidates P index pc (c\<lparr>world := w1\<rparr>)) (\<lambda>c1.
            case pc_create_answer P pc (world c1) of
              (Inl err, w2) \<Rightarrow> (Some err, c1\<lparr>world := w2\<rparr>)
            | (Inr answer, w2) \<Rightarrow>
                (case pc_set_local P pc answer w2 of
                   (Some err, w3) \<Rightarrow> (Some err, c1\<lparr>world := w3\<rparr>)
                 | (None, w3) \<Rightarrow> send_description P ''parallel_answer'' index pc (c1\<lparr>world := w3\<rparr>))))"

definition acceptOffer ::
  "('n, 'd, 'c) pion \<Rightarrow> ('d, 'c) parallel_control \<Rightarrow> ('n, 'd, 'c) chan \<Rightarrow> string option \<times> ('n, 'd, 'c) chan" where
  "acceptOffer P control c =
     (if \<not> validDescription P control (sdp_is_offer P) c \<or> \<not> pch_factory c then (None, c)
      else
        (case new_connection P (world c) of
           (Inl err, w1) \<Rightarrow> (Some err, c\<lparr>world := w1\<rparr>)
         | (Inr pc, w1) \<Rightarrow>
             (let (lane, c1) = new_lane pc (c\<lparr>world := w1\<rparr>);
                  (installed, c2) = installLane (plc_Lane control) lane c1
              in if \<not> installed then (None, c2\<lparr>world := pc_close P pc (world c2)\<rparr>)
                 else answer_lane P (plc_Lane control) (the (plc_Description control)) pc c2)))"

definition acceptAnswer ::
  "('n, 'd, 'c) pion \<Rightarrow> ('d, 'c) parallel_control \<Rightarrow> ('n, 'd, 'c) chan \<Rightarrow> string option \<times> ('n, 'd, 'c) chan" where
  "acceptAnswer P control c =
     (if \<not> validDescription P control (sdp_is_answer P) c then (None, c)
      else
        (case map_get (pch_lanes c) (plc_Lane control) of
           None \<Rightarrow> (None, c)
         | Some lane \<Rightarrow>
             (let pc = lane_pc (lane_heap c lane) in
              case pc_set_remote P pc (the (plc_Description control)) (world c) of
                (Some err, w1) \<Rightarrow> (Some err, c\<lparr>world := w1\<rparr>)
              | (None, w1) \<Rightarrow> flushLaneCandidates P (plc_Lane control) pc (c\<lparr>world := w1\<rparr>))))"

definition hold_candidate :: "int \<Rightarrow> 'c \<Rightarrow> ('n, 'd, 'c) chan \<Rightarrow> ('n, 'd, 'c) chan" where
  "hold_candidate index candidate c =
     (let pending = (case map_get (pendingCandidates c) index of None \<Rightarrow> [] | Some xs \<Rightarrow> xs)
      in if length pending < maxPendingCandidatesPerConnection then
           c\<lparr>pendingCandidates := map_put index (pending @ [candidate]) (pendingCandidates c)\<rparr>
         else c)"

definition acceptCandidate ::
  "('n, 'd, 'c) pion \<Rightarrow> ('d, 'c) parallel_control \<Rightarrow> ('n, 'd, 'c) chan \<Rightarrow> string option \<times> ('n, 'd, 'c) chan" where
  "acceptCandidate P control c =
     (case plc_Candidate control of
        None \<Rightarrow> (None, c)
      | Some candidate \<Rightarrow>
          if \<not> validLane (plc_Lane control) c \<or> ice_length P candidate > maxParallelCandidateSize then (None, c)
          else
            (case map_get (pch_lanes c) (plc_Lane control) of
               None \<Rightarrow> (None, hold_candidate (plc_Lane control) candidate c)
             | Some lane \<Rightarrow>
                 (let pc = lane_pc (lane_heap c lane) in
                  if pc_remote P (world c) pc = None then (None, hold_candidate (plc_Lane control) candidate c)
                  else
                    (let (err, w) = pc_add_candidate P pc candidate (world c) in (err, c\<lparr>world := w\<rparr>)))))"

section \<open>The negotiation goroutine\<close>

text \<open>The loop over the lanes of a capability message; a lane whose offer fails is removed.\<close>

fun offer_lanes :: "('n, 'd, 'c) pion \<Rightarrow> int list \<Rightarrow> ('n, 'd, 'c) chan \<Rightarrow> ('n, 'd, 'c) chan" where
  "offer_lanes P [] c = c"
| "offer_lanes P (lane # ls) c =
     (case createOffer P lane c of
        (Some err, c1) \<Rightarrow> offer_lanes P ls (removeLane P lane c1)
      | (None, c1) \<Rightarrow> offer_lanes P ls c1)"

definition handle_capability ::
  "('n, 'd, 'c) pion \<Rightarrow> ('d, 'c) parallel_control \<Rightarrow> ('n, 'd, 'c) chan \<Rightarrow> ('n, 'd, 'c) chan" where
  "handle_capability P control c =
     (if plc_Connections control < 1 \<or> plc_Connections control > maxParallelConnections then c
      else
        (let connections = min (pch_connections c) (plc_Connections control);
             c1 = c\<lparr>negotiatedConnections := connections\<rparr>
         in if pch_initiator c1 then offer_lanes P [1..connections - 1] c1 else c1))"

definition handleParallelControl ::
  "('n, 'd, 'c) pion \<Rightarrow> ('d, 'c) parallel_control \<Rightarrow> ('n, 'd, 'c) chan \<Rightarrow> string option \<times> ('n, 'd, 'c) chan" where
  "handleParallelControl P control c =
     (if plc_Version control \<noteq> 1 then (None, c)
      else if plc_Type control = ''parallel_capability'' then (None, handle_capability P control c)
      else if plc_Type control = ''parallel_offer'' then
        (if \<not> pch_initiator c then acceptOffer P control c else (None, c))
      else if plc_Type control = ''parallel_answer'' then
        (if pch_initiator c then acceptAnswer P control c else (None, c))
      else if plc_Type control = ''parallel_ice'' then acceptCandidate P control c
      else (None, c))"

text \<open>One round of \<open>negotiationLoop\<close> with a message ready.\<close>

definition negotiation_turn :: "('n, 'd, 'c) pion \<Rightarrow> ('n, 'd, 'c) chan \<Rightarrow> ('n, 'd, 'c) chan" where
  "negotiation_turn P c =
     (case negotiation c of
        [] \<Rightarrow> c
      | control # rest \<Rightarrow>
          (let (err, c1) = handleParallelControl P control (c\<lparr>negotiation := rest\<rparr>)
           in emitError (map_option (\<lambda>e. ''parallel connection negotiation: '' @ e) err) c1))"

text \<open>The \<open>select\<close> of \<open>enqueueNegotiation\<close>: a list of outcomes.\<close>

definition enqueueNegotiation :: "('d, 'c) parallel_control \<Rightarrow> ('n, 'd, 'c) chan \<Rightarrow> ('n, 'd, 'c) chan list" where
  "enqueueNegotiation control c =
     (if pch_closed c then [c]
      else
        (let ready = (if length (negotiation c) < 256 then [c\<lparr>negotiation := negotiation c @ [control]\<rparr>] else [])
                     @ (if negotiationDone c then [c] else [])
         in if ready = [] then [emitError (Some ''parallel negotiation queue is full'') c] else ready))"

section \<open>Messages\<close>

record capability =
  cap_Version :: int
  cap_Type :: string
  cap_PriorityCancel :: bool

definition set_capability_field :: "capability setter" where
  "set_capability_field k v r =
     (if k = ''version'' then map_option (\<lambda>x. r\<lparr>cap_Version := x\<rparr>) (get_int v (cap_Version r))
      else if k = ''type'' then map_option (\<lambda>x. r\<lparr>cap_Type := x\<rparr>) (get_string v (cap_Type r))
      else if k = ''priorityCancel'' then
        map_option (\<lambda>x. r\<lparr>cap_PriorityCancel := x\<rparr>) (get_bool v (cap_PriorityCancel r))
      else None)"

definition parse_capability :: "string \<Rightarrow> capability option" where
  "parse_capability raw = unmarshal [''version'', ''type'', ''priorityCancel''] set_capability_field raw
     \<lparr>cap_Version = 0, cap_Type = [], cap_PriorityCancel = False\<rparr>"

definition handlePrimaryMessage :: "('n, 'd, 'c) pion \<Rightarrow> channel_message \<Rightarrow> ('n, 'd, 'c) chan \<Rightarrow> ('n, 'd, 'c) chan list" where
  "handlePrimaryMessage P message c =
     (case message of
        BinaryMessage _ \<Rightarrow> [deliver message c]
      | TextMessage raw \<Rightarrow>
          (case parse_capability raw of
             None \<Rightarrow> [deliver message c]
           | Some value \<Rightarrow>
               if cap_Version value \<noteq> 1 then [deliver message c]
               else if cap_Type value = ''channel_capability'' then
                 [c\<lparr>peerSupportsPriority := cap_PriorityCancel value\<rparr>]
               else if take 9 (cap_Type value) = ''parallel_'' then
                 (case parse_parallel P raw of
                    None \<Rightarrow> [c]
                  | Some control \<Rightarrow> enqueueNegotiation control c)
               else [deliver message c]))"

definition handlePriorityMessage :: "channel_message \<Rightarrow> ('n, 'd, 'c) chan \<Rightarrow> ('n, 'd, 'c) chan" where
  "handlePriorityMessage message c = (case message of TextMessage _ \<Rightarrow> deliver message c | BinaryMessage _ \<Rightarrow> c)"

definition lane_message :: "channel_message \<Rightarrow> ('n, 'd, 'c) chan \<Rightarrow> ('n, 'd, 'c) chan" where
  "lane_message message c =
     (case message of
        TextMessage _ \<Rightarrow> emitError (Some ''parallel file lane received a text message'') c
      | BinaryMessage _ \<Rightarrow> deliver message c)"

definition lane_opened :: "int \<Rightarrow> nat \<Rightarrow> ('n, 'd, 'c) chan \<Rightarrow> ('n, 'd, 'c) chan" where
  "lane_opened index lane c =
     (if map_get (pch_lanes c) index = Some lane then
        c\<lparr>lane_heap := (lane_heap c)(lane := (lane_heap c lane)\<lparr>lane_open := True\<rparr>)\<rparr>
      else c)"

section \<open>Handlers of a lane's connection\<close>

definition on_ice_candidate :: "('n, 'd, 'c) pion \<Rightarrow> int \<Rightarrow> nat \<Rightarrow> 'c option \<Rightarrow> ('n, 'd, 'c) chan \<Rightarrow> ('n, 'd, 'c) chan" where
  "on_ice_candidate P index lane candidate c =
     (if candidate = None \<or> \<not> isCurrentLane index lane c then c
      else snd (sendParallel P (zero_parallel\<lparr>plc_Version := 1, plc_Type := ''parallel_ice'', plc_Lane := index,
             plc_Candidate := candidate\<rparr>) c))"

definition on_data_channel :: "('n, 'd, 'c) pion \<Rightarrow> int \<Rightarrow> nat \<Rightarrow> nat \<Rightarrow> ('n, 'd, 'c) chan \<Rightarrow> ('n, 'd, 'c) chan" where
  "on_data_channel P index lane data c =
     (if isCurrentLane index lane c \<and> dc_label P (world c) data = lane_label index then
        attachLaneChannel P index lane data c
      else c\<lparr>world := snd (dc_close P data (world c))\<rparr>)"

text \<open>The connection failed or was closed.\<close>

definition on_connection_lost :: "('n, 'd, 'c) pion \<Rightarrow> int \<Rightarrow> nat \<Rightarrow> ('n, 'd, 'c) chan \<Rightarrow> ('n, 'd, 'c) chan" where
  "on_connection_lost P index lane c = removeLaneIfCurrent P index lane c"

section \<open>Shutting down\<close>

definition shutdown :: "('n, 'd, 'c) pion \<Rightarrow> bool \<Rightarrow> ('n, 'd, 'c) chan \<Rightarrow> string option \<times> ('n, 'd, 'c) chan" where
  "shutdown P closePrimary c =
     (if close_done c then (None, c)
      else
        (let lanes = range_lanes P c;
             c1 = c\<lparr>close_done := True, pch_closed := True, pch_lanes := []\<rparr>;
             w1 = foldl (\<lambda>w l. pc_close P (lane_pc l) w) (world c1) lanes;
             w2 = (case pch_priority c1 of None \<Rightarrow> w1 | Some d \<Rightarrow> snd (dc_close P d w1));
             (result, w3) = (if closePrimary then dc_close P (pch_primary c1) w2 else (None, w2));
             c2 = c1\<lparr>world := w3, negotiationDone := True\<rparr>
         in (result, if has_onClose c then c2\<lparr>close_calls := Suc (close_calls c2)\<rparr> else c2)))"

definition Close :: "('n, 'd, 'c) pion \<Rightarrow> ('n, 'd, 'c) chan \<Rightarrow> string option \<times> ('n, 'd, 'c) chan" where
  "Close P c = shutdown P True c"

definition handlePrimaryClose :: "('n, 'd, 'c) pion \<Rightarrow> ('n, 'd, 'c) chan \<Rightarrow> ('n, 'd, 'c) chan" where
  "handlePrimaryClose P c = snd (shutdown P False c)"

end
