(* ===== verification/Parallel_Safety.thy ===== *)
theory Parallel_Safety
  imports Parallel_Negotiation
begin

text \<open>
  What the logical channel guarantees: a binary message goes to exactly one open channel, the
  least filled one first; whatever the peer sends, its memory stays bounded; early messages
  keep their order; and what becomes of lanes whose negotiation fails.
\<close>

section \<open>Choosing a channel\<close>

lemma least_from_least:
  assumes "least < length cs" "drop index cs = ds" "\<forall>i<index. i < length cs \<longrightarrow> dc_buffered P w (cs ! least) \<le> dc_buffered P w (cs ! i)"
  shows "\<forall>i<length cs. dc_buffered P w (cs ! least_from P w cs least index ds) \<le> dc_buffered P w (cs ! i)"
  using assms
proof (induction ds arbitrary: least index)
  case Nil
  then show ?case by simp
next
  case (Cons d ds)
  have i: "index < length cs" by (rule ccontr) (use Cons.prems(2) in simp)
  moreover have "cs ! index = d" by (rule nth_via_drop [OF Cons.prems(2)])
  moreover have "drop (Suc index) cs = ds" using Cons.prems(2) by (metis drop_Suc list.sel(3) tl_drop)
  ultimately have d: "d = cs ! index" "index < length cs" "drop (Suc index) cs = ds" by simp_all
  let ?l = "if dc_buffered P w d < dc_buffered P w (cs ! least) then index else least"
  have "\<forall>i<Suc index. i < length cs \<longrightarrow> dc_buffered P w (cs ! ?l) \<le> dc_buffered P w (cs ! i)"
    using Cons.prems(3) d by (auto simp: less_Suc_eq not_less intro: order_trans less_imp_le)
  moreover have "?l < length cs" using d Cons.prems(1) by simp
  ultimately show ?case using Cons.IH [OF _ d(3)] by simp
qed

lemma least_buffered_least:
  assumes "d \<in> set cs"
  shows "dc_buffered P w (cs ! least_buffered P w cs) \<le> dc_buffered P w d"
proof -
  obtain i where i: "i < length cs" "cs ! i = d" using assms by (auto simp: in_set_conv_nth)
  have "cs \<noteq> []" using assms by auto
  then have "\<forall>i<length cs. dc_buffered P w (cs ! least_buffered P w cs) \<le> dc_buffered P w (cs ! i)"
    unfolding least_buffered_def by (intro least_from_least) (auto simp: drop_Suc)
  with i show ?thesis by auto
qed

lemma foldl_min:
  fixes f :: "nat \<Rightarrow> 64 word"
  shows "foldl (\<lambda>a e. if f e < a then f e else a) x ds \<in> insert x (f ` set ds)
    \<and> (\<forall>y\<in>insert x (f ` set ds). foldl (\<lambda>a e. if f e < a then f e else a) x ds \<le> y)"
proof (induction ds arbitrary: x)
  case (Cons d ds)
  show ?case
  proof (cases "f d < x")
    case True
    then show ?thesis using Cons.IH [of "f d"] by auto
  next
    case False
    then show ?thesis using Cons.IH [of x] by (auto simp: not_less)
  qed
qed simp

lemma BufferedAmount_least:
  assumes "binaryCandidates P c \<noteq> []"
  shows "BufferedAmount P c \<in> dc_buffered P (world c) ` set (binaryCandidates P c)"
    "d \<in> set (binaryCandidates P c) \<Longrightarrow> BufferedAmount P c \<le> dc_buffered P (world c) d"
proof -
  obtain e es where e: "binaryCandidates P c = e # es" using assms by (cases "binaryCandidates P c") auto
  note F = foldl_min [of "dc_buffered P (world c)" "dc_buffered P (world c) e" es]
  show "BufferedAmount P c \<in> dc_buffered P (world c) ` set (binaryCandidates P c)"
    using F by (auto simp: BufferedAmount_def e)
  show "d \<in> set (binaryCandidates P c) \<Longrightarrow> BufferedAmount P c \<le> dc_buffered P (world c) d"
    using F by (auto simp: BufferedAmount_def e)
qed

text \<open>The channel \<open>Send\<close> tries first.\<close>

definition rotated :: "('n, 'd, 'c) pion \<Rightarrow> ('n, 'd, 'c) chan \<Rightarrow> nat list" where
  "rotated P c =
     (let candidates = binaryCandidates P c; s = unat (binaryCursor c mod word_of_nat (length candidates))
      in drop s candidates @ take s candidates)"

definition first_choice :: "('n, 'd, 'c) pion \<Rightarrow> ('n, 'd, 'c) chan \<Rightarrow> nat" where
  "first_choice P c = rotated P c ! least_buffered P (world c) (rotated P c)"

lemma set_rotated: "set (rotated P c) = set (binaryCandidates P c)" "rotated P c = [] \<longleftrightarrow> binaryCandidates P c = []"
proof -
  have "set (drop n xs @ take n xs) = set (take n xs @ drop n xs)" for n and xs :: "nat list"
    by (simp only: set_append Un_commute)
  then show "set (rotated P c) = set (binaryCandidates P c)"
    by (simp add: rotated_def Let_def del: set_append)
  then show "rotated P c = [] \<longleftrightarrow> binaryCandidates P c = []" by (metis set_empty)
qed

lemma Send_eq:
  "binaryCandidates P c \<noteq> [] \<Longrightarrow> Send P payload c =
     (case try_candidates P (rotated P c) payload None (world c) of
        (err, w) \<Rightarrow> (err, c\<lparr>binaryCursor := binaryCursor c + 1, world := w\<rparr>))"
  by (simp add: Send_def rotated_def Let_def)

lemma first_choice_candidate: "binaryCandidates P c \<noteq> [] \<Longrightarrow> first_choice P c \<in> set (binaryCandidates P c)"
  unfolding first_choice_def set_rotated(1) [symmetric]
  by (rule nth_mem, rule least_buffered_bound) (simp add: set_rotated(2))

lemma first_choice_amount:
  assumes "binaryCandidates P c \<noteq> []"
  shows "dc_buffered P (world c) (first_choice P c) = BufferedAmount P c"
proof (rule antisym)
  obtain d where d: "d \<in> set (binaryCandidates P c)" "BufferedAmount P c = dc_buffered P (world c) d"
    using BufferedAmount_least(1) [OF assms] by auto
  show "dc_buffered P (world c) (first_choice P c) \<le> BufferedAmount P c"
    unfolding d(2) first_choice_def by (rule least_buffered_least) (simp add: set_rotated d(1))
  show "BufferedAmount P c \<le> dc_buffered P (world c) (first_choice P c)"
    by (rule BufferedAmount_least(2) [OF assms first_choice_candidate [OF assms]])
qed

section \<open>One message, one channel\<close>

text \<open>Documented behaviour of a DataChannel: a \<open>Send\<close> that succeeds queues the message on that
  channel, one that fails queues nothing. \<open>log\<close> is what each channel was given.\<close>

definition sends_or_fails :: "('n, 'd, 'c) pion \<Rightarrow> ('n \<Rightarrow> nat \<Rightarrow> bytes list) \<Rightarrow> bool" where
  "sends_or_fails P log \<longleftrightarrow> (\<forall>d p w. case dc_send P d p w of
     (None, w') \<Rightarrow> log w' = (log w)(d := log w d @ [p]) | (Some _, w') \<Rightarrow> log w' = log w)"

lemma try_candidates_one:
  assumes law: "sends_or_fails P log" and r: "try_candidates P cs p e0 w = (err, w')"
  shows "(\<exists>d\<in>set cs. err = None \<and> log w' = (log w)(d := log w d @ [p]))
    \<or> log w' = log w \<and> (err = None \<longrightarrow> cs = [] \<and> e0 = None)"
  using r
proof (induction "length cs" arbitrary: cs e0 w rule: less_induct)
  case less
  show ?case
  proof (cases "cs = []")
    case True
    then show ?thesis using less.prems by (simp add: try_candidates.simps)
  next
    case False
    define l where "l = least_buffered P w cs"
    have l: "l < length cs" using False by (simp add: l_def least_buffered_bound)
    obtain e w1 where s: "dc_send P (cs ! l) p w = (e, w1)" by fastforce
    show ?thesis
    proof (cases e)
      case None
      then have "log w1 = (log w)(cs ! l := log w (cs ! l) @ [p])"
        using law s unfolding sends_or_fails_def by (metis (mono_tags, lifting) case_prod_conv option.case(1))
      moreover have "err = None" "w' = w1"
        using less.prems False s None by (simp_all add: try_candidates.simps Let_def l_def)
      ultimately show ?thesis using nth_mem [OF l] by blast
    next
      case (Some msg)
      then have same: "log w1 = log w"
        using law s unfolding sends_or_fails_def by (metis (mono_tags, lifting) case_prod_conv option.case(2))
      define cs' where "cs' = take l cs @ drop (l + 1) cs"
      have "try_candidates P cs' p (Some msg) w1 = (err, w')"
        using less.prems False s Some by (subst (asm) try_candidates.simps) (simp add: Let_def l_def cs'_def)
      moreover have "length cs' < length cs" using l by (simp add: cs'_def)
      ultimately have "(\<exists>d\<in>set cs'. err = None \<and> log w' = (log w1)(d := log w1 d @ [p]))
          \<or> log w' = log w1 \<and> (err = None \<longrightarrow> cs' = [] \<and> Some msg = None)"
        by (intro less.hyps)
      moreover have "set cs' \<subseteq> set cs" unfolding cs'_def using set_take_subset set_drop_subset by fastforce
      ultimately show ?thesis using same by auto
    qed
  qed
qed

section \<open>Bounded memory\<close>

text \<open>The invariant of the channel's state: the tables stay small, a lane that counts as open has
  its channel, and a closed channel has no lanes and told its client.\<close>

definition lanes_ok :: "(int, nat) gomap \<Rightarrow> nat \<Rightarrow> bool" where
  "lanes_ok lanes n \<longleftrightarrow> map_ok lanes \<and> (\<forall>(i, l) \<in> set lanes. 0 < i \<and> i < maxParallelConnections \<and> l < n)"

definition held_ok :: "('n, 'd, 'c) pion \<Rightarrow> int \<Rightarrow> 'c list \<Rightarrow> bool" where
  "held_ok P i xs \<longleftrightarrow> 0 < i \<and> i < maxParallelConnections \<and> length xs \<le> maxPendingCandidatesPerConnection
     \<and> (\<forall>x\<in>set xs. ice_length P x \<le> maxParallelCandidateSize)"

definition candidates_ok :: "('n, 'd, 'c) pion \<Rightarrow> (int, 'c list) gomap \<Rightarrow> bool" where
  "candidates_ok P tbl \<longleftrightarrow> map_ok tbl \<and> (\<forall>(i, xs) \<in> set tbl. held_ok P i xs)"

definition heap_ok :: "(nat \<Rightarrow> parallel_lane) \<Rightarrow> bool" where
  "heap_ok h \<longleftrightarrow> (\<forall>l. lane_open (h l) \<longrightarrow> lane_channel (h l) \<noteq> None)"

definition counts_ok :: "('n, 'd, 'c) chan \<Rightarrow> bool" where
  "counts_ok c \<longleftrightarrow> 1 \<le> pch_connections c \<and> pch_connections c \<le> maxParallelConnections
     \<and> 1 \<le> negotiatedConnections c \<and> negotiatedConnections c \<le> pch_connections c
     \<and> length (pendingMessages c) \<le> 64 \<and> (has_onMessage c \<longrightarrow> pendingMessages c = [])
     \<and> length (negotiation c) \<le> 256
     \<and> (pch_closed c \<longleftrightarrow> close_done c) \<and> (negotiationDone c \<longleftrightarrow> close_done c) \<and> (close_done c \<longrightarrow> pch_lanes c = [])
     \<and> (close_calls c = 0 \<longleftrightarrow> \<not> (has_onClose c \<and> pch_closed c))"

definition channel_ok :: "('n, 'd, 'c) pion \<Rightarrow> ('n, 'd, 'c) chan \<Rightarrow> bool" where
  "channel_ok P c \<longleftrightarrow> lanes_ok (pch_lanes c) (next_lane c) \<and> candidates_ok P (pendingCandidates c)
     \<and> heap_ok (lane_heap c) \<and> counts_ok c"

text \<open>Everything that can happen to the channel. Its lanes' handlers run for the lane they were
  registered for; \<open>OnOpen\<close> is registered with the lane's channel.\<close>

inductive channel_step :: "('n, 'd, 'c) pion \<Rightarrow> ('n, 'd, 'c) chan \<Rightarrow> ('n, 'd, 'c) chan \<Rightarrow> bool" for P where
  primary: "c' \<in> set (handlePrimaryMessage P msg c) \<Longrightarrow> channel_step P c c'"
| priority: "channel_step P c (handlePriorityMessage msg c)"
| lane_data: "channel_step P c (lane_message msg c)"
| negotiate: "channel_step P c (negotiation_turn P c)"
| opened: "lane_channel (lane_heap c lane) \<noteq> None \<Longrightarrow> channel_step P c (lane_opened index lane c)"
| candidate: "channel_step P c (on_ice_candidate P index lane x c)"
| data_channel: "channel_step P c (on_data_channel P index lane data c)"
| lost: "channel_step P c (on_connection_lost P index lane c)"
| failed: "channel_step P c (emitError err c)"
| low: "channel_step P c (emitBufferedAmountLow c)"
| send: "channel_step P c (snd (Send P payload c))"
| send_text: "channel_step P c (snd (SendText_on P txt c))"
| started: "channel_step P c (start P c)"
| threshold: "channel_step P c (SetBufferedAmountLowThreshold P t c)"
| on_message: "channel_step P c (OnMessage c)"
| on_low: "channel_step P c (OnBufferedAmountLow c)"
| on_close: "channel_step P c (OnClose c)"
| on_error: "channel_step P c (OnError c)"
| closed: "channel_step P c (snd (Close P c))"
| primary_closed: "channel_step P c (handlePrimaryClose P c)"
| outside: "channel_step P c (c\<lparr>world := w\<rparr>)"

lemma map_del_subset: "set (map_del k m) \<subseteq> set m"
  by (simp add: AList.delete_eq)

lemma map_put_subset: "set (map_put k v m) \<subseteq> insert (k, v) (set m)"
  by (induction m) (auto split: if_splits)

lemma lanes_ok_del [intro]: "lanes_ok lanes n \<Longrightarrow> lanes_ok (map_del i lanes) n"
  using map_del_subset [of i lanes] by (auto simp: lanes_ok_def)

lemma lanes_ok_put: "lanes_ok lanes n \<Longrightarrow> 0 < i \<Longrightarrow> i < maxParallelConnections \<Longrightarrow> l < n \<Longrightarrow> lanes_ok (map_put i l lanes) n"
  using map_put_subset [of i l lanes] by (auto simp: lanes_ok_def)

lemma lanes_ok_Suc [intro]: "lanes_ok lanes n \<Longrightarrow> lanes_ok lanes (Suc n)"
  by (auto simp: lanes_ok_def)

lemma candidates_ok_del [intro]: "candidates_ok P tbl \<Longrightarrow> candidates_ok P (map_del i tbl)"
  using map_del_subset [of i tbl] by (auto simp: candidates_ok_def)

lemma candidates_ok_put: "candidates_ok P tbl \<Longrightarrow> held_ok P i xs \<Longrightarrow> candidates_ok P (map_put i xs tbl)"
  using map_put_subset [of i xs tbl] by (auto simp: candidates_ok_def)

lemma counts_frame:
  "counts_ok (c\<lparr>world := w\<rparr>) = counts_ok c"
  "counts_ok (c\<lparr>lane_heap := h\<rparr>) = counts_ok c" "counts_ok (c\<lparr>next_lane := n\<rparr>) = counts_ok c"
  "counts_ok (c\<lparr>pendingCandidates := p\<rparr>) = counts_ok c" "counts_ok (c\<lparr>peerSupportsPriority := b\<rparr>) = counts_ok c"
  "counts_ok (c\<lparr>binaryCursor := k\<rparr>) = counts_ok c" "counts_ok (c\<lparr>bufferedLowThreshold := k\<rparr>) = counts_ok c"
  "counts_ok (c\<lparr>delivered_messages := ms\<rparr>) = counts_ok c" "counts_ok (c\<lparr>reported_errors := es\<rparr>) = counts_ok c"
  "counts_ok (c\<lparr>low_calls := x\<rparr>) = counts_ok c" "counts_ok (c\<lparr>has_onError := b\<rparr>) = counts_ok c"
  "counts_ok (c\<lparr>has_onBufferedAmountLow := b\<rparr>) = counts_ok c"
  by (simp_all add: counts_ok_def)

lemma counts_lanes: "counts_ok c \<Longrightarrow> counts_ok (c\<lparr>pch_lanes := map_del i (pch_lanes c)\<rparr>)"
  "counts_ok c \<Longrightarrow> \<not> pch_closed c \<Longrightarrow> counts_ok (c\<lparr>pch_lanes := ls\<rparr>)"
  by (auto simp: counts_ok_def)

lemma ok_world [simp]: "channel_ok P (c\<lparr>world := w\<rparr>) = channel_ok P c"
  by (simp add: channel_ok_def counts_frame)

lemma ok_fields [simp]:
  "channel_ok P (c\<lparr>low_calls := x\<rparr>) = channel_ok P c" "channel_ok P (c\<lparr>bufferedLowThreshold := t\<rparr>) = channel_ok P c"
  "channel_ok P (c\<lparr>has_onBufferedAmountLow := b\<rparr>) = channel_ok P c" "channel_ok P (c\<lparr>has_onError := b\<rparr>) = channel_ok P c"
  "channel_ok P (c\<lparr>binaryCursor := k\<rparr>) = channel_ok P c"
  by (simp_all add: channel_ok_def counts_frame)

lemma ok_emitError [simp]: "channel_ok P (emitError e c) = channel_ok P c"
  by (simp add: emitError_def channel_ok_def counts_frame split: option.split)

lemma ok_deliver: "channel_ok P c \<Longrightarrow> channel_ok P (deliver msg c)"
  by (simp add: deliver_def channel_ok_def counts_frame) (simp add: counts_ok_def)

lemma sendRawText_world: "\<exists>w. snd (sendRawText P t c) = c\<lparr>world := w\<rparr>"
proof (cases "dc_is_open P (world c) (pch_primary c)")
  case True
  then show ?thesis by (auto simp: sendRawText_def case_prod_unfold Let_def)
next
  case False
  then have "snd (sendRawText P t c) = c\<lparr>world := world c\<rparr>" by (simp add: sendRawText_def)
  then show ?thesis by blast
qed

lemma ok_sends [simp]:
  "channel_ok P (snd (sendRawText P t c)) = channel_ok P c" "channel_ok P (snd (sendParallel P v c)) = channel_ok P c"
  using sendRawText_world [of P] by (metis ok_world sendParallel_def)+

text \<open>Changes of the lane and candidate tables.\<close>

lemma ok_removed:
  "channel_ok P c \<Longrightarrow> channel_ok P (c\<lparr>pch_lanes := map_del i (pch_lanes c), pendingCandidates := map_del i (pendingCandidates c)\<rparr>)"
  by (auto simp: channel_ok_def counts_frame counts_lanes)

lemma ok_removeLane: "channel_ok P c \<Longrightarrow> channel_ok P (removeLane P i c)"
  by (drule ok_removed [of P c i]) (auto simp: removeLane_def Let_def split: option.split)

lemma ok_removeLaneIfCurrent: "channel_ok P c \<Longrightarrow> channel_ok P (removeLaneIfCurrent P i l c)"
  by (frule ok_removed [of P c i]) (auto simp: removeLaneIfCurrent_def Let_def)

lemma ok_flush: "channel_ok P c \<Longrightarrow> channel_ok P (snd (flushLaneCandidates P i pc c))"
  by (auto simp: flushLaneCandidates_def Let_def case_prod_unfold channel_ok_def counts_frame)

lemma ok_flush_result: "flushLaneCandidates P i pc c = (e, c') \<Longrightarrow> channel_ok P c \<longrightarrow> channel_ok P c'"
  using ok_flush [of P c i pc] by auto

lemma ok_attach: "channel_ok P c \<Longrightarrow> channel_ok P (attachLaneChannel P i l d c)"
  by (simp add: attachLaneChannel_def channel_ok_def counts_frame) (simp add: heap_ok_def)

lemma ok_opened: "channel_ok P c \<Longrightarrow> lane_channel (lane_heap c l) \<noteq> None \<Longrightarrow> channel_ok P (lane_opened i l c)"
  by (simp add: lane_opened_def channel_ok_def counts_frame) (simp add: heap_ok_def)

lemma valid_lane_bounds: "channel_ok P c \<Longrightarrow> validLane i c \<Longrightarrow> 0 < i \<and> i < maxParallelConnections"
  by (auto simp: channel_ok_def counts_ok_def validLane_def)

lemma ok_hold:
  assumes "channel_ok P c" "validLane i c" "ice_length P x \<le> maxParallelCandidateSize"
  shows "channel_ok P (hold_candidate i x c)"
proof -
  define xs where "xs = (case map_get (pendingCandidates c) i of None \<Rightarrow> [] | Some xs \<Rightarrow> xs)"
  have "\<forall>x\<in>set xs. ice_length P x \<le> maxParallelCandidateSize"
    using assms(1) by (auto simp: xs_def channel_ok_def candidates_ok_def held_ok_def dest!: map_of_SomeD split: option.split)
  then show ?thesis
    using assms(1,3) valid_lane_bounds [OF assms(1,2)]
    by (simp add: hold_candidate_def xs_def [symmetric] Let_def channel_ok_def counts_frame candidates_ok_put held_ok_def)
qed

lemma ok_install:
  assumes "channel_ok P c" "validLane i c" "new_lane pc (c\<lparr>world := w\<rparr>) = (l, c1)" "installLane i l c1 = (b, c2)"
  shows "channel_ok P c2"
proof -
  note i = valid_lane_bounds [OF assms(1,2)]
  have c1: "channel_ok P c1" "l < next_lane c1"
    using assms(1,3) by (auto simp: new_lane_def channel_ok_def counts_frame heap_ok_def)
  then show ?thesis
    using i assms(4) by (auto simp: installLane_def channel_ok_def lanes_ok_put counts_lanes split: if_splits)
qed


lemma ok_send_description [simp]: "channel_ok P (snd (send_description P k i pc c)) = channel_ok P c"
  by (simp add: send_description_def)

lemma ok_offer_lane: "channel_ok P c \<Longrightarrow> channel_ok P (snd (offer_lane P i l pc c))"
  by (auto simp: offer_lane_def Let_def ok_attach split: prod.split sum.split option.split)

lemma ok_answer_lane: "channel_ok P c \<Longrightarrow> channel_ok P (snd (answer_lane P i d pc c))"
  by (auto simp: answer_lane_def dest!: ok_flush_result split: prod.split sum.split option.split)

lemma ok_createOffer: "channel_ok P c \<Longrightarrow> channel_ok P (snd (createOffer P i c))"
  using ok_install [of P c i]
  by (auto simp: createOffer_def Let_def intro!: ok_offer_lane split: prod.split sum.split)

lemma ok_acceptOffer: "channel_ok P c \<Longrightarrow> channel_ok P (snd (acceptOffer P v c))"
  using ok_install [of P c "plc_Lane v"]
  by (auto simp: acceptOffer_def Let_def validDescription_def intro!: ok_answer_lane split: prod.split sum.split)

lemma ok_acceptAnswer: "channel_ok P c \<Longrightarrow> channel_ok P (snd (acceptAnswer P v c))"
  by (auto simp: acceptAnswer_def Let_def intro!: ok_flush split: prod.split option.split)

lemma ok_acceptCandidate: "channel_ok P c \<Longrightarrow> channel_ok P (snd (acceptCandidate P v c))"
  by (auto simp: acceptCandidate_def Let_def ok_hold case_prod_unfold split: option.split)

lemma ok_offer_lanes: "channel_ok P c \<Longrightarrow> channel_ok P (offer_lanes P ls c)"
proof (induction ls arbitrary: c)
  case (Cons i ls)
  then show ?case
    using ok_createOffer [OF Cons.prems, of i]
    by (cases "createOffer P i c"; cases "fst (createOffer P i c)") (simp_all add: ok_removeLane)
qed simp

lemma ok_capability: "channel_ok P c \<Longrightarrow> channel_ok P (handle_capability P v c)"
proof -
  assume ok: "channel_ok P c"
  then have "channel_ok P (c\<lparr>negotiatedConnections := min (pch_connections c) (plc_Connections v)\<rparr>)"
    if "1 \<le> plc_Connections v"
    using that by (simp add: channel_ok_def) (simp add: counts_ok_def)
  with ok show ?thesis by (auto simp: handle_capability_def Let_def intro: ok_offer_lanes)
qed

lemma ok_control: "channel_ok P c \<Longrightarrow> channel_ok P (snd (handleParallelControl P v c))"
  by (simp add: handleParallelControl_def ok_capability ok_acceptOffer ok_acceptAnswer ok_acceptCandidate)

lemma ok_negotiation: "channel_ok P c \<Longrightarrow> channel_ok P (negotiation_turn P c)"
proof -
  assume ok: "channel_ok P c"
  have "channel_ok P (c\<lparr>negotiation := rest\<rparr>)" if "negotiation c = v # rest" for v rest
    using ok that by (simp add: channel_ok_def) (simp add: counts_ok_def)
  then show ?thesis
    using ok ok_control [of P "c\<lparr>negotiation := tl (negotiation c)\<rparr>" "hd (negotiation c)"]
    by (auto simp: negotiation_turn_def case_prod_unfold Let_def split: list.split)
qed

lemma ok_enqueue: "channel_ok P c \<Longrightarrow> c' \<in> set (enqueueNegotiation v c) \<Longrightarrow> channel_ok P c'"
proof -
  assume ok: "channel_ok P c"
  have "channel_ok P (c\<lparr>negotiation := negotiation c @ [v]\<rparr>)" if "length (negotiation c) < 256"
    using ok that by (simp add: channel_ok_def) (simp add: counts_ok_def)
  with ok show "c' \<in> set (enqueueNegotiation v c) \<Longrightarrow> channel_ok P c'"
    by (auto simp: enqueueNegotiation_def Let_def split: if_splits)
qed

lemma ok_primary: "channel_ok P c \<Longrightarrow> c' \<in> set (handlePrimaryMessage P msg c) \<Longrightarrow> channel_ok P c'"
proof -
  assume ok: "channel_ok P c"
  then have "channel_ok P (c\<lparr>peerSupportsPriority := b\<rparr>)" for b by (simp add: channel_ok_def counts_frame)
  then show "c' \<in> set (handlePrimaryMessage P msg c) \<Longrightarrow> channel_ok P c'"
    using ok by (auto simp: handlePrimaryMessage_def ok_deliver ok_enqueue split: channel_message.splits option.splits if_splits)
qed

lemma ok_shutdown: "channel_ok P c \<Longrightarrow> channel_ok P (snd (shutdown P b c))"
proof -
  assume ok: "channel_ok P c"
  define c1 where "c1 = c\<lparr>close_done := True, pch_closed := True, pch_lanes := [], negotiationDone := True,
      close_calls := (if has_onClose c then Suc (close_calls c) else close_calls c)\<rparr>"
  show ?thesis
  proof (cases "close_done c")
    case True
    then show ?thesis using ok by (simp add: shutdown_def)
  next
    case False
    then have c1: "channel_ok P c1"
      using ok by (simp add: channel_ok_def c1_def) (auto simp: lanes_ok_def counts_ok_def)
    have e: "snd (shutdown P b c) = c1\<lparr>world := world (snd (shutdown P b c))\<rparr>"
      by (rule parallel_channel.equality) (use False in \<open>simp_all add: shutdown_def Let_def case_prod_unfold c1_def\<close>)
    show ?thesis by (subst e) (simp add: c1)
  qed
qed

lemma ok_step: "channel_step P c c' \<Longrightarrow> channel_ok P c \<Longrightarrow> channel_ok P c'"
proof (induction rule: channel_step.induct)
  case (send_text c t)
  then show ?case by (auto simp: SendText_on_def Let_def case_prod_unfold split: option.split)
next
  case (send c payload)
  then show ?case by (auto simp: Send_def Let_def case_prod_unfold)
next
  case (on_message c)
  then show ?case by (simp add: OnMessage_def Let_def channel_ok_def counts_frame) (simp add: counts_ok_def)
next
  case (on_close c)
  then show ?case by (simp add: OnClose_def Let_def channel_ok_def counts_frame) (auto simp: counts_ok_def)
qed (auto simp: ok_primary ok_deliver handlePriorityMessage_def lane_message_def ok_negotiation ok_opened
    on_ice_candidate_def on_data_channel_def ok_attach on_connection_lost_def ok_removeLaneIfCurrent
    emitBufferedAmountLow_def start_def Let_def SetBufferedAmountLowThreshold_def OnBufferedAmountLow_def
    OnError_def Close_def handlePrimaryClose_def ok_shutdown split: channel_message.split)

lemma ok_new: "channel_ok P (newParallelChannel primary priority initiator n factory w)"
  by (simp add: newParallelChannel_def channel_ok_def lanes_ok_def candidates_ok_def heap_ok_def counts_ok_def
      clampParallelConnections_def defaultParallelConnections_def maxParallelConnections_def)

definition channel_init :: "('n, 'd, 'c) chan \<Rightarrow> bool" where
  "channel_init c \<longleftrightarrow> (\<exists>primary priority initiator n factory w. c = newParallelChannel primary priority initiator n factory w)"

interpretation parallel: transition_system channel_init "channel_step P" "channel_ok P" for P
  by unfold_locales (auto simp: channel_init_def ok_new intro: ok_step)


section \<open>Properties\<close>

text \<open>C26: A binary message goes to exactly one of the open channels, once, or, when \<open>Send\<close> reports
  an error, to none: a chunk is never duplicated over two lanes and never half sent.\<close>

theorem sent_to_exactly_one:
  assumes "sends_or_fails P log" and "Send P payload c = (err, c')"
  shows "case err of
      None \<Rightarrow> \<exists>d. d \<in> set (binaryCandidates P c) \<and> dc_is_open P (world c) d
        \<and> log (world c') = (log (world c))(d := log (world c) d @ [payload])
    | Some _ \<Rightarrow> log (world c') = log (world c)"
proof (cases "binaryCandidates P c = []")
  case True
  then show ?thesis using assms(2) by (auto simp: Send_def)
next
  case False
  obtain w' where "try_candidates P (rotated P c) payload None (world c) = (err, w')" "world c' = w'"
    using assms(2) Send_eq [OF False] by (auto split: prod.splits)
  moreover have "\<forall>d\<in>set (binaryCandidates P c). dc_is_open P (world c) d"
    by (auto simp: binaryCandidates_def split: option.splits)
  ultimately show ?thesis
    using try_candidates_one [OF assms(1), of "rotated P c" payload None "world c" err w'] set_rotated [of P c] False
    by (cases err) auto
qed

text \<open>The channel \<open>Send\<close> tries first is a least filled open one, and \<open>BufferedAmount\<close> is exactly
  what this channel holds: the amount a sender waits for is the amount its next packet adds to.\<close>

theorem least_filled_first:
  assumes "binaryCandidates P c \<noteq> []"
  shows "first_choice P c \<in> set (binaryCandidates P c)
    \<and> dc_buffered P (world c) (first_choice P c) = BufferedAmount P c
    \<and> (\<forall>d\<in>set (binaryCandidates P c). BufferedAmount P c \<le> dc_buffered P (world c) d)
    \<and> (\<forall>w. dc_send P (first_choice P c) payload (world c) = (None, w) \<longrightarrow>
          Send P payload c = (None, c\<lparr>binaryCursor := binaryCursor c + 1, world := w\<rparr>))"
proof -
  have "rotated P c \<noteq> []" using assms set_rotated(2) by blast
  then have "try_candidates P (rotated P c) payload None (world c) = (None, w)"
    if "dc_send P (first_choice P c) payload (world c) = (None, w)" for w
    using that by (simp add: try_candidates.simps first_choice_def Let_def)
  then show ?thesis
    using first_choice_candidate [OF assms] first_choice_amount [OF assms] BufferedAmount_least(2) [OF assms]
      Send_eq [OF assms] by simp
qed

lemma table_small:
  assumes "map_ok m" "\<forall>i\<in>fst ` set m. 0 < i \<and> i < maxParallelConnections"
  shows "length m \<le> 7"
proof -
  have "length m = card (fst ` set m)" using distinct_card [OF assms(1)] by simp
  also have "\<dots> \<le> card {1..7 :: int}"
    by (rule card_mono) (use assms(2) in \<open>auto simp: maxParallelConnections_def\<close>)
  finally show ?thesis by simp
qed

text \<open>C28: Whatever the peer sends and however its connections behave, the channel's memory stays
  bounded: at most seven lanes, 64 candidates of at most 4096 bytes for each of seven lane
  numbers, 64 early messages and 256 waiting negotiation messages. A closed channel has no
  lanes left, and the client was told, if it asked to be, exactly when the channel is closed.\<close>

theorem channel_memory_bounded:
  assumes "channel_init c0" and "(channel_step P)\<^sup>*\<^sup>* c0 c"
  shows "length (pch_lanes c) \<le> 7 \<and> length (pendingCandidates c) \<le> 7
    \<and> (\<forall>(i, xs)\<in>set (pendingCandidates c). length xs \<le> 64 \<and> (\<forall>x\<in>set xs. ice_length P x \<le> 4096))
    \<and> length (pendingMessages c) \<le> 64 \<and> length (negotiation c) \<le> 256
    \<and> (pch_closed c \<longrightarrow> pch_lanes c = []) \<and> (0 < close_calls c \<longleftrightarrow> has_onClose c \<and> pch_closed c)"
proof -
  have ok: "channel_ok P c" using parallel.inv_reachable [OF assms] .
  have "length (pch_lanes c) \<le> 7"
    by (rule table_small) (use ok in \<open>auto simp: channel_ok_def lanes_ok_def\<close>)
  moreover have "length (pendingCandidates c) \<le> 7"
    by (rule table_small) (use ok in \<open>auto simp: channel_ok_def candidates_ok_def held_ok_def\<close>)
  moreover have "\<forall>(i, xs)\<in>set (pendingCandidates c). length xs \<le> 64 \<and> (\<forall>x\<in>set xs. ice_length P x \<le> 4096)"
    using ok unfolding channel_ok_def candidates_ok_def held_ok_def maxPendingCandidatesPerConnection_def
      maxParallelCandidateSize_def by fast
  ultimately show ?thesis using ok by (auto simp: channel_ok_def counts_ok_def)
qed

lemma fold_deliver_early:
  "\<not> has_onMessage c \<Longrightarrow> length (pendingMessages c) + length ms \<le> 64 \<Longrightarrow>
   fold deliver ms c = c\<lparr>pendingMessages := pendingMessages c @ ms\<rparr>"
  by (induction ms arbitrary: c) (simp_all add: deliver_def)

lemma fold_deliver_late:
  "has_onMessage c \<Longrightarrow> fold deliver ms c = c\<lparr>delivered_messages := delivered_messages c @ ms\<rparr>"
  by (induction ms arbitrary: c) (simp_all add: deliver_def)

text \<open>Messages that arrive before the client installed its handler are not lost: up to 64 of
  them are handed over first, in the order they came, then the later ones.\<close>

theorem early_messages_in_order:
  assumes "\<not> has_onMessage c" and "pendingMessages c = []" and "length early \<le> 64"
  shows "delivered_messages (fold deliver late (OnMessage (fold deliver early c)))
    = delivered_messages c @ early @ late"
  using assms by (simp add: fold_deliver_early fold_deliver_late OnMessage_def Let_def)

section \<open>Negotiation\<close>

lemma removeLane_keeps: "negotiatedConnections (removeLane P i c) = negotiatedConnections c"
  by (simp add: removeLane_def Let_def split: option.split)

lemma sends_keep:
  "negotiatedConnections (snd (sendParallel P v c)) = negotiatedConnections c"
  using sendRawText_world [of P "json_text (parallel_json P v)" c] by (auto simp: sendParallel_def)

lemma createOffer_keeps: "negotiatedConnections (snd (createOffer P i c)) = negotiatedConnections c"
  by (auto simp: createOffer_def offer_lane_def send_description_def sends_keep Let_def new_lane_def
      installLane_def attachLaneChannel_def split: prod.splits sum.splits option.splits if_splits)

lemma offer_lanes_keep: "negotiatedConnections (offer_lanes P ls c) = negotiatedConnections c"
proof (induction ls arbitrary: c)
  case (Cons i ls)
  then show ?case using createOffer_keeps [of P i c]
    by (cases "createOffer P i c"; cases "fst (createOffer P i c)") (simp_all add: removeLane_keeps)
qed simp

definition capability_control :: "int \<Rightarrow> ('d, 'c) parallel_control" where
  "capability_control n = zero_parallel\<lparr>plc_Version := 1, plc_Type := ''parallel_capability'', plc_Connections := n\<rparr>"

abbreviation capability_message :: "('n, 'd, 'c) pion \<Rightarrow> int \<Rightarrow> string" where
  "capability_message P n \<equiv> json_text (parallel_json P (capability_control n))"

lemma capability_json:
  "n \<noteq> 0 \<Longrightarrow> parallel_json P (capability_control n) =
     JObj [(''version'', JNum (int_text 1)), (''type'', JStr ''parallel_capability''), (''connections'', JNum (int_text n))]"
  by (simp add: parallel_json_def capability_control_def zero_parallel_def)

lemma capability_parses:
  assumes "0 < n" "n \<le> 8"
  shows "parse_capability (capability_message Q n)
      = Some \<lparr>cap_Version = 1, cap_Type = ''parallel_capability'', cap_PriorityCancel = False\<rparr>"
    "parse_parallel P (capability_message Q n) = Some (capability_control n)"
proof -
  have i: "in_i64 n" "in_i64 1" "n \<noteq> 0" using assms by (simp_all add: in_i64_def)
  note e = capability_json [OF i(3), of Q]
  have j: "json_ok (parallel_json Q (capability_control n))" "nesting (parallel_json Q (capability_control n)) \<le> max_nesting"
    unfolding e by (simp_all add: utf8_width.simps max_nesting_def)
  have "field_named [''version'', ''type'', ''priorityCancel''] ''connections'' = None" by code_simp
  then show "parse_capability (capability_message Q n)
      = Some \<lparr>cap_Version = 1, cap_Type = ''parallel_capability'', cap_PriorityCancel = False\<rparr>"
    unfolding parse_capability_def unmarshal_json_text [OF j] unfolding e
    using i by (simp add: decode_struct_def field_named_exact set_capability_field_def)
  show "parse_parallel P (capability_message Q n) = Some (capability_control n)"
    unfolding parse_parallel_def unmarshal_json_text [OF j] unfolding e
    using i by (simp add: decode_struct_def field_named_exact parallel_fields_def
        set_parallel_field_def zero_parallel_def capability_control_def)
qed

text \<open>C29: Both sides agree on the number of connections: once each has processed the capability
  message the other sent at its start, both negotiated the smaller of the two configured
  numbers, between 1 and 8.\<close>

theorem peers_agree_on_connections:
  assumes "channel_ok P a" and "channel_ok Q b" and "\<not> pch_closed a" and "negotiation a = []"
  shows "\<exists>a1. handlePrimaryMessage P (TextMessage (capability_message Q (pch_connections b))) a = [a1]
    \<and> negotiatedConnections (negotiation_turn P a1) = min (pch_connections a) (pch_connections b)
    \<and> 1 \<le> min (pch_connections a) (pch_connections b) \<and> min (pch_connections a) (pch_connections b) \<le> 8"
proof -
  define n where "n = pch_connections b"
  have n: "0 < n" "n \<le> 8" "1 \<le> pch_connections a" "pch_connections a \<le> 8"
    using assms(1,2) by (auto simp: channel_ok_def counts_ok_def maxParallelConnections_def n_def)
  define a1 where "a1 = a\<lparr>negotiation := [capability_control n]\<rparr>"
  have nd: "\<not> negotiationDone a" using assms(1,3) by (auto simp: channel_ok_def counts_ok_def)
  have e: "enqueueNegotiation (capability_control n) a = [a1]"
    using assms(3,4) nd by (simp add: enqueueNegotiation_def Let_def a1_def)
  have h: "handlePrimaryMessage P (TextMessage (capability_message Q n)) a = [a1]"
    using capability_parses [OF n(1,2), of Q] capability_parses(2) [OF n(1,2), of P Q] e
    by (simp add: handlePrimaryMessage_def)
  have "handleParallelControl P (capability_control n) c = (None, handle_capability P (capability_control n) c)" for c
    by (simp add: handleParallelControl_def capability_control_def)
  then have "negotiatedConnections (negotiation_turn P a1) = min (pch_connections a) n"
    using n by (simp add: negotiation_turn_def a1_def emitError_def handle_capability_def Let_def offer_lanes_keep
        capability_control_def maxParallelConnections_def)
  with h n show ?thesis by (simp add: n_def)
qed

lemma failing_offers:
  assumes "\<And>w. \<exists>e w'. new_connection P w = (Inl e, w')" and "pch_factory c"
    and "\<forall>i\<in>set ls. 0 < i \<and> i < negotiatedConnections c"
  shows "pch_lanes (offer_lanes P ls c) = fold map_del ls (pch_lanes c)"
  using assms(2,3)
proof (induction ls arbitrary: c)
  case (Cons i ls)
  obtain e w' where n: "new_connection P (world c) = (Inl e, w')" using assms(1) by blast
  have "createOffer P i c = (Some e, c\<lparr>world := w'\<rparr>)"
    using Cons.prems n by (simp add: createOffer_def validLane_def)
  moreover have "pch_lanes (removeLane P i (c\<lparr>world := w'\<rparr>)) = map_del i (pch_lanes c)"
    "pch_factory (removeLane P i (c\<lparr>world := w'\<rparr>)) = pch_factory c"
    by (simp_all add: removeLane_def Let_def split: option.split)
  ultimately show ?case using Cons by (simp add: removeLane_keeps)
qed simp

lemma fold_del: "map_get (fold map_del ls m) i = (if i \<in> set ls then None else map_get m i)"
  by (induction ls arbitrary: m) auto

text \<open>C30: A capability message that comes again while no new connection can be made closes every
  lane that was working: the initiator gives up on a lane whose offer fails by removing
  whatever lane has that number.\<close>

theorem repeated_capability_drops_lanes:
  assumes "\<And>w. \<exists>e w'. new_connection P w = (Inl e, w')" and "pch_factory c" and "pch_initiator c"
    and "1 \<le> n" and "n \<le> 8" and "0 < i" and "i < min (pch_connections c) n"
  shows "map_get (pch_lanes (handle_capability P (capability_control n) c)) i = None"
proof -
  define k where "k = min (pch_connections c) n"
  have "pch_lanes (handle_capability P (capability_control n) c)
      = pch_lanes (offer_lanes P [1..k - 1] (c\<lparr>negotiatedConnections := k\<rparr>))"
    using assms(3-5) by (simp add: handle_capability_def capability_control_def zero_parallel_def
        maxParallelConnections_def Let_def k_def)
  also have "\<dots> = fold map_del [1..k - 1] (pch_lanes c)"
    using failing_offers [OF assms(1), of "c\<lparr>negotiatedConnections := k\<rparr>" "[1..k - 1]"] assms(2) by simp
  finally show ?thesis using assms(6,7) by (simp add: fold_del k_def)
qed


section \<open>Witnesses\<close>

text \<open>A library whose channels are always open and empty and record what they are given. New
  connections fail, or get the number 9 and refuse every remote description.\<close>

definition demo_pion :: "bool \<Rightarrow> (nat \<Rightarrow> bytes list, nat, nat) pion" where
  "demo_pion connects =
     \<lparr>dc_is_open = (\<lambda>_ _. True), dc_buffered = (\<lambda>_ _. 0), dc_label = (\<lambda>_ _. []),
      dc_send = (\<lambda>d p w. (None, w(d := w d @ [p]))), dc_send_text = (\<lambda>_ _ w. (None, w)),
      dc_set_threshold = (\<lambda>_ _ w. w), dc_close = (\<lambda>_ w. (None, w)),
      new_connection = (\<lambda>w. (if connects then Inr 9 else Inl ''no connection'', w)), pc_close = (\<lambda>_ w. w),
      pc_is_closed = (\<lambda>_ _. False), pc_create_channel = (\<lambda>_ _ _ w. (Inr 0, w)),
      pc_create_offer = (\<lambda>_ w. (Inr 0, w)), pc_create_answer = (\<lambda>_ w. (Inr 0, w)),
      pc_set_local = (\<lambda>_ _ w. (None, w)), pc_set_remote = (\<lambda>_ _ w. (Some ''bad description'', w)),
      pc_local = (\<lambda>_ _. None), pc_remote = (\<lambda>_ _. None), pc_add_candidate = (\<lambda>_ _ w. (None, w)),
      sdp_is_offer = (\<lambda>_. True), sdp_is_answer = (\<lambda>_. False), sdp_length = (\<lambda>_. 0), ice_length = (\<lambda>_. 0),
      description_json = (\<lambda>_. JNull), json_description = (\<lambda>_. None), candidate_json = (\<lambda>_. JNull),
      json_candidate = (\<lambda>_. None), range_order = (\<lambda>_ ls. ls)\<rparr>"

definition demo_chan :: "bool \<Rightarrow> (nat \<Rightarrow> bytes list, nat, nat) chan" where
  "demo_chan initiator = newParallelChannel 0 None initiator 4 True (\<lambda>_. [])"

lemma demo_chan_ok: "channel_ok P (demo_chan b)" "channel_init (demo_chan b)" "\<not> pch_closed (demo_chan b)"
  "negotiation (demo_chan b) = []" "pch_connections (demo_chan b) = 4" "pch_factory (demo_chan b)"
  "pch_initiator (demo_chan b) = b" "pch_lanes (demo_chan b) = []" "\<not> has_onMessage (demo_chan b)"
  "pendingMessages (demo_chan b) = []"
  by (simp add: demo_chan_def ok_new, simp add: demo_chan_def channel_init_def, blast)
     (simp_all add: demo_chan_def newParallelChannel_def clampParallelConnections_def maxParallelConnections_def)

lemma demo_candidates: "binaryCandidates (demo_pion b) (demo_chan i) = [0]"
  by (simp add: binaryCandidates_def demo_pion_def demo_chan_def newParallelChannel_def range_lanes_def)

theorem sent_to_exactly_one_witness:
  "\<exists>c'. Send (demo_pion True) [1] (demo_chan True) = (None, c') \<and> world c' = (world (demo_chan True))(0 := [[1]])"
proof -
  have law: "sends_or_fails (demo_pion True) (\<lambda>w. w)" by (simp add: sends_or_fails_def demo_pion_def)
  obtain err c' where s: "Send (demo_pion True) [1] (demo_chan True) = (err, c')" by fastforce
  have "drop k [0 :: nat] @ take k [0] = [0]" for k by (cases k) auto
  then have r: "rotated (demo_pion True) (demo_chan True) = [0]" by (simp add: rotated_def demo_candidates Let_def)
  have d: "dc_send (demo_pion True) 0 [1] w = (None, w(0 := w 0 @ [[1]]))" for w by (simp add: demo_pion_def)
  have "least_buffered (demo_pion True) w [0] = 0" for w by (simp add: least_buffered_def)
  then have "try_candidates (demo_pion True) [0] [1] None w = (None, w(0 := w 0 @ [[1]]))" for w
    using d by (simp add: try_candidates.simps)
  then have "err = None"
    using s Send_eq [of "demo_pion True" "demo_chan True" "[1]"] by (simp add: demo_candidates r)
  moreover have "world (demo_chan True) 0 = []" by (simp add: demo_chan_def newParallelChannel_def)
  ultimately show ?thesis using sent_to_exactly_one [OF law s] s by (simp add: demo_candidates)
qed

theorem channel_memory_bounded_witness: "length (pch_lanes (demo_chan True)) \<le> 7"
  using channel_memory_bounded [OF demo_chan_ok(2) rtranclp.rtrancl_refl] by blast

theorem peers_agree_on_connections_witness:
  "\<exists>a1. negotiatedConnections (negotiation_turn (demo_pion True) (a1 :: (nat \<Rightarrow> bytes list, nat, nat) chan)) = 4"
  using peers_agree_on_connections [of "demo_pion True" "demo_chan False" "demo_pion True" "demo_chan True"]
  by (auto simp: demo_chan_ok)

theorem repeated_capability_drops_lanes_witness:
  "map_get (pch_lanes (handle_capability (demo_pion False) (capability_control 4) ((demo_chan True)\<lparr>pch_lanes := [(1, 0)]\<rparr>))) 1 = None"
  by (rule repeated_capability_drops_lanes) (simp_all add: demo_chan_ok, simp add: demo_pion_def)


end
