(* ===== verification/Striping.thy ===== *)
theory Striping
  imports Parallel_Safety "HOL-Library.Multiset" "HOL-Library.Sublist"
begin

text \<open>
  \<open>src/channel/channel.go\<close>, the interface a \<open>TransferManager\<close> sends over: its contract for binary
  messages as a locale, what follows for many messages, and its two providers: the logical
  channel, which spreads them over the primary channel and the lanes, and a plain DataChannel.
\<close>

section \<open>A run of a sender\<close>

text \<open>Calls of \<open>send\<close>, those that succeed with their messages, and steps of the channel in between.
  \<open>carried\<close> is what every DataChannel below was given.\<close>

inductive stripes ::
  "(bytes \<Rightarrow> 'c \<Rightarrow> string option \<times> 'c) \<Rightarrow> ('c \<Rightarrow> 'c \<Rightarrow> bool) \<Rightarrow> ('c \<Rightarrow> nat \<Rightarrow> bytes list) \<Rightarrow> 'c \<Rightarrow> bytes list \<Rightarrow> 'c \<Rightarrow> bool"
  for send step carried where
  stripes_none: "stripes send step carried c [] c"
| stripes_send: "send p c = (None, c1) \<Longrightarrow> stripes send step carried c1 ps c2 \<Longrightarrow> stripes send step carried c (p # ps) c2"
| stripes_refused: "send p c = (Some err, c1) \<Longrightarrow> stripes send step carried c1 ps c2 \<Longrightarrow> stripes send step carried c ps c2"
| stripes_step: "step c c1 \<Longrightarrow> carried c1 = carried c \<Longrightarrow> stripes send step carried c1 ps c2 \<Longrightarrow> stripes send step carried c ps c2"

text \<open>What a run added to every DataChannel: together the messages, on each a subsequence of them.\<close>

definition spread :: "bytes list \<Rightarrow> (nat \<Rightarrow> bytes list) \<Rightarrow> bool" where
  "spread ps added \<longleftrightarrow> finite {d. added d \<noteq> []} \<and> (\<forall>d. subseq (added d) ps)
     \<and> (\<Sum>d | added d \<noteq> []. mset (added d)) = mset ps"

lemma spread_sum: "spread ps added \<Longrightarrow> finite D \<Longrightarrow> {d. added d \<noteq> []} \<subseteq> D \<Longrightarrow> (\<Sum>d\<in>D. mset (added d)) = mset ps"
  unfolding spread_def by (metis (mono_tags, lifting) DiffD2 mem_Collect_eq mset.simps(1) sum.mono_neutral_left)

lemma spread_Cons:
  assumes s: "spread ps added"
  shows "spread (p # ps) (added(d := p # added d))"
proof -
  let ?D = "insert d {x. added x \<noteq> []}" and ?new = "added(d := p # added d)"
  have fin: "finite ?D" using s by (simp add: spread_def)
  have sup: "{x. ?new x \<noteq> []} = ?D" by auto
  have "(\<Sum>x\<in>?D. mset (?new x)) = add_mset p (mset (added d)) + (\<Sum>x\<in>?D - {d}. mset (?new x))"
    using fin by (simp add: sum.remove [of ?D d])
  also have "(\<Sum>x\<in>?D - {d}. mset (?new x)) = (\<Sum>x\<in>?D - {d}. mset (added x))" by (rule sum.cong) auto
  also have "add_mset p (mset (added d)) + (\<Sum>x\<in>?D - {d}. mset (added x)) = add_mset p (\<Sum>x\<in>?D. mset (added x))"
    using fin by (simp add: sum.remove [of ?D d])
  also have "(\<Sum>x\<in>?D. mset (added x)) = mset ps" using spread_sum [OF s fin] by auto
  finally show ?thesis using s fin sup by (auto simp: spread_def intro: list_emb_Cons)
qed

section \<open>The contract\<close>

text \<open>When the library below is \<open>reliable\<close>, a \<open>send\<close> that succeeds puts the message on one DataChannel,
  one that fails puts it on none.\<close>

locale message_channel =
  fixes send :: "bytes \<Rightarrow> 'c \<Rightarrow> string option \<times> 'c" and carried :: "'c \<Rightarrow> nat \<Rightarrow> bytes list" and reliable :: bool
  assumes send_carries: "reliable \<Longrightarrow> send p c = (None, c') \<Longrightarrow> \<exists>d. carried c' = (carried c)(d := carried c d @ [p])"
    and send_refuses: "reliable \<Longrightarrow> send p c = (Some err, c') \<Longrightarrow> carried c' = carried c"
begin

lemma striped:
  assumes "stripes send step carried c ps c'" and reliable
  shows "\<exists>added. spread ps added \<and> (\<forall>d. carried c' d = carried c d @ added d)"
  using assms(1)
proof (induction rule: stripes.induct)
  case (stripes_none c)
  have "spread [] (\<lambda>_. [])" by (simp add: spread_def)
  then show ?case by fastforce
next
  case (stripes_send p c c1 ps c2)
  obtain added where a: "spread ps added" "\<And>d. carried c2 d = carried c1 d @ added d" using stripes_send.IH by blast
  obtain d where "carried c1 = (carried c)(d := carried c d @ [p])"
    using send_carries [OF assms(2) stripes_send.hyps(1)] by auto
  then show ?case using spread_Cons [OF a(1), of p d] a(2)
    by (intro exI [of _ "added(d := p # added d)"]) (simp add: fun_upd_def)
qed (use send_refuses [OF assms(2)] in auto)

text \<open>The messages of one of several clients of the channel, wherever they went.\<close>

lemma striped_messages:
  assumes "stripes send step carried c ps c'" and reliable
    and added: "\<And>d. carried c' d = carried c d @ added d" and D: "finite D" "\<And>d. d \<notin> D \<Longrightarrow> added d = []"
  shows "(\<Sum>d\<in>D. mset (map f (filter mine (added d)))) = mset (map f (filter mine ps))"
proof -
  obtain a where a: "spread ps a" "\<And>d. carried c' d = carried c d @ a d" using striped [OF assms(1,2)] by blast
  have "a = added" using a(2) added by auto
  then have "(\<Sum>d\<in>D. mset (added d)) = mset ps" using spread_sum [OF a(1) D(1)] D(2) by auto
  then have "mset (map f (filter mine ps)) = image_mset f (filter_mset mine (\<Sum>d\<in>D. mset (added d)))"
    by simp
  also have "\<dots> = (\<Sum>d\<in>D. mset (map f (filter mine (added d))))"
    using D(1) by (induction D) simp_all
  finally show ?thesis by simp
qed

end

section \<open>Its providers\<close>

lemma Send_carries:
  assumes law: "sends_or_fails P log" and s: "Send P payload c = (err, c')"
  shows "case err of None \<Rightarrow> \<exists>d. log (world c') = (log (world c))(d := log (world c) d @ [payload])
    | Some _ \<Rightarrow> log (world c') = log (world c)"
proof (cases "binaryCandidates P c = []")
  case False
  obtain w' where "try_candidates P (rotated P c) payload None (world c) = (err, w')" "world c' = w'"
    using s Send_eq [OF False] by (auto split: prod.splits)
  then show ?thesis
    using try_candidates_one [OF law, of "rotated P c" payload None "world c" err w'] set_rotated(2) [of P c] False
    by (cases err) auto
qed (use s in \<open>auto simp: Send_def\<close>)

interpretation logical: message_channel "Send P" "\<lambda>c. log (world c)" "sends_or_fails P log" for P log
  using Send_carries by unfold_locales fastforce+

interpretation direct: message_channel "dc_send P d" log "sends_or_fails P log" for P d log
  by unfold_locales
    (simp_all add: sends_or_fails_def, (metis (mono_tags, lifting) case_prod_conv option.case)+)

end
