(* ===== verification/End_To_End.thy ===== *)
theory End_To_End
  imports Send_Safety Handlers Striping "HOL-Library.Multiset"
begin

text \<open>
  The composition of both ends: the packets \<open>SendFile\<close> hands to the channel, taken in any order
  by \<open>handleMessage\<close> and the receive loop of another manager, make the same file there.
\<close>

section \<open>Messages into the loop\<close>

text \<open>
  The channel hands over one message, \<open>handleMessage\<close> queues it, the receive loop takes it. A
  message with more than one outcome stops the run: here there is always room for it.
\<close>

fun feed :: "string \<Rightarrow> nat \<Rightarrow> channel_message list \<Rightarrow> recv_loop \<Rightarrow> manager \<Rightarrow> loop_result" where
  "feed tid a [] L m = Loop L m"
| "feed tid a (message # ms) L m =
     (case handleMessage message m of
        [(m1, None)] \<Rightarrow>
          (case loop_turn tid a EventReady L m1 of
             Loop L' m2 \<Rightarrow> feed tid a ms L' m2
           | Return m2 \<Rightarrow> if ms = [] then Return m2 else Loop L m2)
      | _ \<Rightarrow> Loop L m)"

text \<open>The message of a chunk, and the one of \<open>file_end\<close>.\<close>

definition carries :: "string \<Rightarrow> file_metadata \<Rightarrow> bytes \<Rightarrow> control \<Rightarrow> channel_message \<Rightarrow> int option \<Rightarrow> bool" where
  "carries tid md con msg message x \<longleftrightarrow>
     (case x of
        Some i \<Rightarrow> \<exists>p. message = BinaryMessage p \<and> DecodeChunk p = Inr (sent_chunk tid md con i)
      | None \<Rightarrow> \<exists>raw. message = TextMessage raw \<and> DecodeControl raw = Inr msg)"

definition listening :: "string \<Rightarrow> nat \<Rightarrow> manager \<Rightarrow> bool" where
  "listening tid a m \<longleftrightarrow> map_get (receivers m) tid = Some a \<and> rcv_events (rcv_heap m a) = []
     \<and> \<not> rcv_done (rcv_heap m a) \<and> \<not> mgr_closed m"

lemma message_queued:
  assumes "listening tid a m" and "carries tid md con msg message x"
    and "ctl_Type msg = ''file_end''" "ctl_TransferID msg = tid"
  shows "handleMessage message m = [(push_event a (arrival tid md msg con x) m, None)]"
proof -
  have o: "offer_event a ev m = [push_event a ev m]" for ev
    using assms(1) by (simp add: offer_event_def has_room_def listening_def receiveEventQueueSize_def)
  show ?thesis
  proof (cases x)
    case (Some i)
    then obtain p where p: "message = BinaryMessage p" "DecodeChunk p = Inr (sent_chunk tid md con i)"
      using assms(2) by (auto simp: carries_def)
    have "chunk_item (fst (sent_chunk tid md con i)) (snd (sent_chunk tid md con i)) = chunk_event tid md con i"
      by (simp add: sent_chunk_def chunk_event_def)
    then show ?thesis
      using assms(1) p Some by (simp add: handleMessage_def handle_packet_def o listening_def arrival_def sent_chunk_def)
  next
    case None
    then obtain raw where "message = TextMessage raw" "DecodeControl raw = Inr msg"
      using assms(2) by (auto simp: carries_def)
    then show ?thesis using assms None
      by (simp add: handleMessage_def handleControl_def handle_file_end_def o listening_def arrival_def end_event_def)
  qed
qed

lemma receiving_ok_push:
  "receiving_ok a ino c S L (push_event a ev m) = receiving_ok a ino c S L m"
  "hash_fits md msg c (push_event a ev m) = hash_fits md msg c m"
  by (simp_all add: receiving_ok_def file_inv_def buffer_inv_def calm_def owns_def
      hash_fits_def Let_def paths_ok_def)

text \<open>One message: the loop ends with the file, or waits for the next one.\<close>

lemma feed_one:
  assumes ok: "receiving_ok a ino c S L m" and md: "md = rcv_metadata (rcv_heap m a)" and li: "listening tid a m"
    and ca: "carries tid md c msg message x" and msg: "ctl_Type msg = ''file_end''" "ctl_TransferID msg = tid"
    and x: "\<And>i. x = Some i \<Longrightarrow> 0 \<le> i \<and> i < file_TotalChunks md \<and> i \<notin> S" and sub: "S \<subseteq> {0..<file_TotalChunks md}"
    and h: "hash_fits md msg c m" and e: "end_msg L = None \<or> end_msg L = Some msg"
    and S': "S' = S \<union> set_option x" and e': "e' = (if x = None then Some msg else end_msg L)"
  defines "m1 \<equiv> push_event a (arrival tid md msg c x) m"
  shows "handleMessage message m = [(m1, None)]"
    "if S' = {0..<file_TotalChunks md} \<and> e' \<noteq> None
     then \<exists>m'. loop_turn tid a EventReady L m1 = Return m' \<and> delivered (rcv_heap m a) ino c m'
     else \<exists>L' m'. loop_turn tid a EventReady L m1 = Loop L' m' \<and> receiving_ok a ino c S' L' m'
       \<and> end_msg L' = e' \<and> rcv_heap m' a = rcv_heap m a \<and> sha256 m' = sha256 m \<and> listening tid a m'"
proof -
  show "handleMessage message m = [(m1, None)]"
    unfolding m1_def by (rule message_queued [OF li ca msg])
  have ok1: "receiving_ok a ino c S L m1" and h1: "hash_fits md msg c m1"
    using ok h by (simp_all add: m1_def receiving_ok_push)
  have st1: "rcv_heap m1 a = (rcv_heap m a)\<lparr>rcv_events := [arrival tid md msg c x]\<rparr>"
    using li by (simp add: m1_def listening_def)
  have T: "if S' = {0..<file_TotalChunks md} \<and> e' \<noteq> None
    then \<exists>m'. loop_turn tid a EventReady L m1 = Return m' \<and> delivered (rcv_heap m1 a) ino c m'
    else \<exists>L' m'. loop_turn tid a EventReady L m1 = Loop L' m' \<and> receiving_ok a ino c S' L' m'
      \<and> end_msg L' = e' \<and> rcv_heap m' a = (rcv_heap m1 a)\<lparr>rcv_events := []\<rparr> \<and> sha256 m' = sha256 m1"
    by (rule arrival_turn [OF ok1 _ _ x sub h1 e S' e']) (simp_all add: st1 md)
  have same: "(rcv_heap m1 a)\<lparr>rcv_events := []\<rparr> = rcv_heap m a"
    using li by (simp add: st1 listening_def)
  have li': "listening tid a m'" if t: "loop_turn tid a EventReady L m1 = Loop L' m'" and r: "rcv_heap m' a = rcv_heap m a" for L' m'
  proof -
    have "turn_ok a ino (L\<lparr>end_msg := end_msg L'\<rparr>) (pop_event a m1) (Loop L' m')"
      using handle_event_ok [of a ino L "pop_event a m1" tid "hd (rcv_events (rcv_heap m1 a))"] ok1 t
      by (simp add: receiving_ok_def file_inv_pop buffer_inv_pop loop_turn_event)
    then have "receivers m' = receivers m \<and> mgr_closed m' = mgr_closed m"
      by (simp add: turn_ok_def Let_def same_tables_def m1_def pop_event_def)
    then show ?thesis using li r by (simp add: listening_def)
  qed
  show "if S' = {0..<file_TotalChunks md} \<and> e' \<noteq> None
     then \<exists>m'. loop_turn tid a EventReady L m1 = Return m' \<and> delivered (rcv_heap m a) ino c m'
     else \<exists>L' m'. loop_turn tid a EventReady L m1 = Loop L' m' \<and> receiving_ok a ino c S' L' m'
       \<and> end_msg L' = e' \<and> rcv_heap m' a = rcv_heap m a \<and> sha256 m' = sha256 m \<and> listening tid a m'"
  proof (cases "S' = {0..<file_TotalChunks md} \<and> e' \<noteq> None")
    case True
    then show ?thesis using T by (simp add: delivered_def st1)
  next
    case False
    have "sha256 m1 = sha256 m" by (simp add: m1_def)
    then show ?thesis using T [unfolded if_not_P [OF False] same] li' False by auto
  qed
qed

lemma feed_arrivals:
  "receiving_ok a ino c S L m \<Longrightarrow> md = rcv_metadata (rcv_heap m a) \<Longrightarrow> listening tid a m \<Longrightarrow>
   list_all2 (carries tid md c msg) ms xs \<Longrightarrow> ctl_Type msg = ''file_end'' \<Longrightarrow> ctl_TransferID msg = tid \<Longrightarrow>
   xs \<noteq> [] \<Longrightarrow> distinct xs \<Longrightarrow>
   S \<inter> {i. Some i \<in> set xs} = {} \<Longrightarrow> S \<union> {i. Some i \<in> set xs} = {0..<file_TotalChunks md} \<Longrightarrow>
   end_msg L = (if None \<in> set xs then None else Some msg) \<Longrightarrow> hash_fits md msg c m \<Longrightarrow>
   \<exists>m'. feed tid a ms L m = Return m' \<and> delivered (rcv_heap m a) ino c m'"
proof (induction xs arbitrary: S L m ms)
  case (Cons x xs)
  obtain message ms' where ms: "ms = message # ms'" "carries tid md c msg message x"
      "list_all2 (carries tid md c msg) ms' xs"
    using Cons.prems(4) by (auto simp: list_all2_Cons2)
  define S' where "S' = S \<union> set_option x"
  define e' where "e' = (if x = None then Some msg else end_msg L)"
  have all: "S' \<union> {i. Some i \<in> set xs} = {0..<file_TotalChunks md}"
    using Cons.prems(10) by (cases x) (auto simp: S'_def)
  have dis: "S' \<inter> {i. Some i \<in> set xs} = {}"
    using Cons.prems(8,9) by (cases x) (auto simp: S'_def)
  have e: "e' = (if None \<in> set xs then None else Some msg)"
    using Cons.prems(8,11) by (auto simp: e'_def)
  have x: "x = Some i \<Longrightarrow> 0 \<le> i \<and> i < file_TotalChunks md \<and> i \<notin> S" for i
    using Cons.prems(9,10) by fastforce
  have sub: "S \<subseteq> {0..<file_TotalChunks md}" using Cons.prems(10) by blast
  have e0: "end_msg L = None \<or> end_msg L = Some msg" using Cons.prems(11) by (auto split: if_splits)
  note F = feed_one [OF Cons.prems(1,2,3) ms(2) Cons.prems(5,6) x sub Cons.prems(12) e0 S'_def e'_def]
  show ?case
  proof (cases "xs = []")
    case True
    then have "S' = {0..<file_TotalChunks md} \<and> e' \<noteq> None" "ms' = []" using all e ms(3) by auto
    then show ?thesis using F by (auto simp: ms(1))
  next
    case False
    have more: "\<not> (S' = {0..<file_TotalChunks md} \<and> e' \<noteq> None)"
    proof
      assume A: "S' = {0..<file_TotalChunks md} \<and> e' \<noteq> None"
      obtain y where y: "y \<in> set xs" using False by (cases xs) auto
      moreover from A e have "None \<notin> set xs" by presburger
      ultimately have "y \<noteq> None" by metis
      then show False using y A all dis by (cases y) auto
    qed
    obtain L' m' where t: "loop_turn tid a EventReady L (push_event a (arrival tid md msg c x) m) = Loop L' m'"
        and L': "receiving_ok a ino c S' L' m'" "end_msg L' = e'" "rcv_heap m' a = rcv_heap m a"
        "sha256 m' = sha256 m" "listening tid a m'"
      using F(2) [unfolded if_not_P [OF more]] by blast
    have "\<exists>m''. feed tid a ms' L' m' = Return m'' \<and> delivered (rcv_heap m' a) ino c m''"
    proof (rule Cons.IH [OF L'(1)])
      show "hash_fits md msg c m'" using Cons.prems(12) L'(4) by (simp add: hash_fits_def)
    qed (use L' all dis e False ms(3) Cons.prems(2,5,6,8) in auto)
    then show ?thesis using F(1) t L'(3) by (auto simp: ms(1))
  qed
qed simp

section \<open>Packets out of the sender\<close>

text \<open>The packets of one transfer, as the channel got them.\<close>

definition belongs_to :: "string \<Rightarrow> bytes \<Rightarrow> bool" where
  "belongs_to tid p = (case DecodeChunk p of Inr c \<Rightarrow> hdr_TransferID (fst c) = tid | Inl _ \<Rightarrow> False)"

definition packets_of :: "string \<Rightarrow> manager \<Rightarrow> bytes list" where
  "packets_of tid m = filter (belongs_to tid) (packets m)"

definition decoded :: "bytes \<Rightarrow> chunk" where
  "decoded p = (case DecodeChunk p of Inr c \<Rightarrow> c | Inl _ \<Rightarrow> (\<lparr>hdr_TransferID = [], hdr_Index = 0, hdr_Offset = 0, hdr_Length = 0\<rparr>, []))"

lemma decoded_packets: "map decoded (packets_of tid m) = chunks_of tid m"
proof -
  have "map decoded (filter (belongs_to tid) ps)
      = concat (map (\<lambda>p. case DecodeChunk p of Inr c \<Rightarrow> if hdr_TransferID (fst c) = tid then [c] else [] | Inl _ \<Rightarrow> []) ps)" for ps
    by (induction ps) (auto simp: decoded_def belongs_to_def split: sum.splits)
  then show ?thesis by (simp add: packets_of_def chunks_of_def)
qed

lemma packets_decode: "p \<in> set (packets_of tid m) \<Longrightarrow> DecodeChunk p = Inr (decoded p)"
  by (auto simp: packets_of_def belongs_to_def decoded_def split: sum.splits)

definition message_index :: "channel_message \<Rightarrow> int option" where
  "message_index message = (case message of
     BinaryMessage p \<Rightarrow> Some (hdr_Index (fst (decoded p))) | TextMessage _ \<Rightarrow> None)"

definition end_control :: "send_loop \<Rightarrow> control" where
  "end_control L = (new_control ''file_end'' (sl_tid L))\<lparr>ctl_SHA256 := sl_digest L\<rparr>"

lemma end_control_decodes:
  assumes "valid_utf8 (sl_tid L)" "valid_utf8 (sl_digest L)"
  shows "DecodeControl (EncodeControl (end_control L)) = Inr (end_control L)"
proof (rule DecodeControl_EncodeControl)
  have "valid_utf8 ''file_end''" by code_simp
  then show "control_ok (end_control L)"
    using assms by (simp add: control_ok_def end_control_def in_i64_def zero_control_def payload_ok_def)
qed (simp_all add: end_control_def Version_def)


text \<open>Three bytes, \<open>file_end\<close> before the chunk.\<close>

definition demo_receiver :: "send_loop \<Rightarrow> manager" where
  "demo_receiver L = demo_manager\<lparr>receivers := [(sl_tid L, 0)],
     rcv_heap := (\<lambda>_. demo_state\<lparr>rcv_metadata := sl_meta L, rcv_events := []\<rparr>)\<rparr>"

lemma demo_sends: "sends_or_fails (demo_pion b) (\<lambda>w. w)"
  by (simp add: sends_or_fails_def demo_pion_def)

lemma demo_stripes:
  assumes "pch_lanes c = []" "pch_primary c = 0"
  shows "\<exists>c'. stripes (Send (demo_pion b)) (channel_step (demo_pion b)) world c ps c' \<and> world c' = (world c)(0 := world c 0 @ ps)"
  using assms
proof (induction ps arbitrary: c)
  case Nil
  show ?case using stripes_none [of "Send (demo_pion b)"] by fastforce
next
  case (Cons p ps)
  define c1 where "c1 = c\<lparr>binaryCursor := binaryCursor c + 1, world := (world c)(0 := world c 0 @ [p])\<rparr>"
  have b: "binaryCandidates (demo_pion b) c = [0]"
    using Cons.prems by (simp add: binaryCandidates_def range_lanes_def demo_pion_def)
  have "drop k [0 :: nat] @ take k [0] = [0]" for k by (cases k) auto
  then have r: "rotated (demo_pion b) c = [0]" by (simp add: rotated_def Let_def b)
  have "dc_send (demo_pion b) 0 p w = (None, w(0 := w 0 @ [p]))" for w by (simp add: demo_pion_def)
  moreover have "least_buffered (demo_pion b) w [0] = 0" for w by (simp add: least_buffered_def)
  ultimately have s: "Send (demo_pion b) p c = (None, c1)"
    using Send_eq [of "demo_pion b" c p] by (simp add: b r try_candidates.simps c1_def)
  obtain c' where "stripes (Send (demo_pion b)) (channel_step (demo_pion b)) world c1 ps c'" "world c' = (world c1)(0 := world c1 0 @ ps)"
    using Cons.IH [of c1] Cons.prems unfolding c1_def by (auto simp del: fun_upd_apply)
  then show ?case using stripes_send [of "Send (demo_pion b)", OF s] by (fastforce simp: c1_def)
qed


section \<open>The high-water mark\<close>

text \<open>Documented behaviour of a DataChannel: what is queued grows by the packet, at most, and
  nowhere else.\<close>

definition grows_by_packet :: "('n, 'd, 'c) pion \<Rightarrow> bool" where
  "grows_by_packet P \<longleftrightarrow> (\<forall>d p w w'. dc_send P d p w = (None, w') \<longrightarrow>
     unat (dc_buffered P w' d) \<le> unat (dc_buffered P w d) + length p \<and> (\<forall>e. e \<noteq> d \<longrightarrow> dc_buffered P w' e \<le> dc_buffered P w e))"

lemma below_high_water:
  assumes "buffer_turn p begun buffered L m = At (Queueing p begun) L m" and "unat buffered + length (fst p) < 2 ^ 64"
  shows "unat buffered + length (fst p) \<le> 2 * 1024 * 1024"
proof -
  have "buffered + word_of_nat (length (fst p)) \<le> maxBufferedAmount"
    using assms(1) by (auto simp: buffer_turn_def Let_def finish_send_def split: if_splits)
  then have "unat (buffered + word_of_nat (length (fst p))) \<le> 2 * 1024 * 1024"
    by (simp add: word_le_nat_alt maxBufferedAmount_def)
  moreover have "unat (buffered + word_of_nat (length (fst p))) = unat buffered + length (fst p)"
    using assms(2) by (simp add: unat_word_ariths unat_of_nat)
  ultimately show ?thesis by simp
qed

text \<open>C27: The sender and the logical channel together keep every queue below the high-water mark: when
  \<open>waitForBuffer\<close> lets a packet pass on the amount \<open>BufferedAmount\<close> reports, the channel \<open>Send\<close>
  tries first is a least filled open one, holds exactly that amount, and after taking the packet
  holds at most 2 MiB, while no other got more.\<close>

theorem high_water_respected:
  assumes "buffer_turn p begun (BufferedAmount P c) L m = At (Queueing p begun) L m"
    and "binaryCandidates P c \<noteq> []" and "grows_by_packet P" and "unat (BufferedAmount P c) + length (fst p) < 2 ^ 64"
    and "dc_send P (first_choice P c) (fst p) (world c) = (None, w)"
  shows "first_choice P c \<in> set (binaryCandidates P c)
    \<and> (\<forall>d\<in>set (binaryCandidates P c). dc_buffered P (world c) (first_choice P c) \<le> dc_buffered P (world c) d)
    \<and> Send P (fst p) c = (None, c\<lparr>binaryCursor := binaryCursor c + 1, world := w\<rparr>)
    \<and> unat (dc_buffered P w (first_choice P c)) \<le> 2 * 1024 * 1024
    \<and> (\<forall>d. d \<noteq> first_choice P c \<longrightarrow> dc_buffered P w d \<le> dc_buffered P (world c) d)"
proof -
  have "unat (dc_buffered P w (first_choice P c)) \<le> unat (BufferedAmount P c) + length (fst p)"
    using assms(3,5) first_choice_amount [OF assms(2)] unfolding grows_by_packet_def by metis
  moreover have "\<forall>d. d \<noteq> first_choice P c \<longrightarrow> dc_buffered P w d \<le> dc_buffered P (world c) d"
    using assms(3,5) unfolding grows_by_packet_def by blast
  ultimately show ?thesis
    using below_high_water [OF assms(1,4)] least_filled_first [OF assms(2), of "fst p"] assms(5) by simp
qed

text \<open>One byte on the empty channel of the demonstration.\<close>

theorem high_water_respected_witness:
  "\<exists>c'. Send (demo_pion True) [1] (demo_chan True) = (None, c') \<and> world c' = (\<lambda>_. [])(0 := [[1]])
     \<and> unat (dc_buffered (demo_pion True) (world c') 0) \<le> 2 * 1024 * 1024"
proof -
  have b: "BufferedAmount (demo_pion True) (demo_chan True) = 0"
    using least_filled_first [of "demo_pion True" "demo_chan True"] by (simp add: demo_candidates) (simp add: demo_pion_def)
  have f: "first_choice (demo_pion True) (demo_chan True) = 0"
    using least_filled_first [of "demo_pion True" "demo_chan True"] by (simp add: demo_candidates)
  have g: "grows_by_packet (demo_pion True)" by (simp add: grows_by_packet_def demo_pion_def)
  have q: "buffer_turn ([1], 0) 0 0 L m = At (Queueing ([1], 0) 0) L m" for L m
    by (simp add: buffer_turn_def maxBufferedAmount_def)
  have "dc_send (demo_pion True) 0 [1] (world (demo_chan True)) = (None, (\<lambda>_. [])(0 := [[1]]))"
    by (simp add: demo_pion_def demo_chan_def newParallelChannel_def)
  from high_water_respected [of "([1], 0)" 0 "demo_pion True" "demo_chan True", unfolded b f fst_conv, OF q _ g _ this]
  show ?thesis by (simp add: demo_candidates)
qed

end
