(* ===== verification/Go_Net.thy ===== *)
theory Go_Net
  imports Go_Json "HOL-Library.Char_ord" "HOL-Library.List_Lexorder"
begin

text \<open>
  What the program uses of Go's \<open>net/netip\<close> (parsing and classifying addresses) and of
  \<open>net/url\<close> (escaping, query strings, the text of a URL).
\<close>

section \<open>Addresses\<close>

text \<open>An IPv4 address has four bytes, an IPv6 address sixteen and a zone, possibly empty.\<close>

datatype addr = V4 bytes | V6 bytes string

text \<open>The four fields of a dotted address: the field read so far, its digits, the fields before it.\<close>

fun v4_fields :: "nat \<Rightarrow> nat \<Rightarrow> bytes \<Rightarrow> string \<Rightarrow> bytes option" where
  "v4_fields val digits fields [] =
     (if length fields < 3 then None else Some (fields @ [word_of_nat val]))"
| "v4_fields val digits fields (c # cs) =
     (if digit c then
        (if digits = 1 \<and> val = 0 then None
         else
           (let v = 10 * val + (ord c - 48)
            in if v > 255 then None else v4_fields v (Suc digits) fields cs))
      else if c = CHR ''.'' then
        (if digits = 0 \<or> cs = [] \<or> length fields = 3 then None
         else v4_fields 0 0 (fields @ [word_of_nat val]) cs)
      else None)"

definition parseIPv4 :: "string \<Rightarrow> addr option" where
  "parseIPv4 s = map_option V4 (v4_fields 0 0 [] s)"

abbreviation hex_char :: "char \<Rightarrow> bool" where "hex_char c \<equiv> hex_value c \<noteq> None"

definition hex_number :: "string \<Rightarrow> nat" where
  "hex_number ds = foldl (\<lambda>n c. 16 * n + the (hex_value c)) 0 ds"

text \<open>At most \<open>n\<close> more groups; the position of the \<open>::\<close> is the second value.\<close>

fun v6_groups :: "nat \<Rightarrow> bytes \<Rightarrow> nat option \<Rightarrow> string \<Rightarrow> (bytes \<times> nat option \<times> string) option" where
  "v6_groups 0 ip ellipsis s = Some (ip, ellipsis, s)"
| "v6_groups (Suc n) ip ellipsis s =
     (let ds = takeWhile hex_char s; rest = dropWhile hex_char s in
      if ds = [] \<or> length ds > 4 then None
      else if rest \<noteq> [] \<and> hd rest = CHR ''.'' then
        (if ellipsis = None \<and> length ip \<noteq> 12 \<or> length ip + 4 > 16 then None
         else map_option (\<lambda>f. (ip @ f, ellipsis, [])) (v4_fields 0 0 [] s))
      else
        (let ip1 = ip @ [word_of_nat (hex_number ds div 256), word_of_nat (hex_number ds mod 256)] in
         if rest = [] then Some (ip1, ellipsis, [])
         else if hd rest \<noteq> CHR '':'' \<or> tl rest = [] then None
         else if hd (tl rest) \<noteq> CHR '':'' then v6_groups n ip1 ellipsis (tl rest)
         else if ellipsis \<noteq> None then None
         else if tl (tl rest) = [] then Some (ip1, Some (length ip1), [])
         else v6_groups n ip1 (Some (length ip1)) (tl (tl rest))))"

definition parseIPv6 :: "string \<Rightarrow> addr option" where
  "parseIPv6 text =
     (let s = takeWhile (\<lambda>c. c \<noteq> CHR ''%'') text; z = dropWhile (\<lambda>c. c \<noteq> CHR ''%'') text; zone = tl z in
      if z \<noteq> [] \<and> zone = [] then None
      else
        (let leading = take 2 s = ''::''; s1 = (if leading then drop 2 s else s) in
         if leading \<and> s1 = [] then Some (V6 (replicate 16 0) zone)
         else
           (case v6_groups 8 [] (if leading then Some 0 else None) s1 of
              None \<Rightarrow> None
            | Some (ip, ellipsis, rest) \<Rightarrow>
                if rest \<noteq> [] then None
                else
                  (case ellipsis of
                     None \<Rightarrow> if length ip < 16 then None else Some (V6 ip zone)
                   | Some e \<Rightarrow>
                       if length ip < 16
                       then Some (V6 (take e ip @ replicate (16 - length ip) 0 @ drop e ip) zone)
                       else None))))"

definition ParseAddr :: "string \<Rightarrow> addr option" where
  "ParseAddr s =
     (case find (\<lambda>c. c = CHR ''.'' \<or> c = CHR '':'' \<or> c = CHR ''%'') s of
        None \<Rightarrow> None
      | Some c \<Rightarrow>
          if c = CHR ''.'' then parseIPv4 s else if c = CHR '':'' then parseIPv6 s else None)"

text \<open>An IPv4 address mapped into IPv6 is classified like the IPv4 address.\<close>

definition unmap :: "addr \<Rightarrow> addr" where
  "unmap a = (case a of
     V6 ip _ \<Rightarrow> if take 12 ip = replicate 10 0 @ [255, 255] then V4 (drop 12 ip) else a | V4 _ \<Rightarrow> a)"

definition IsPrivate :: "addr \<Rightarrow> bool" where
  "IsPrivate a \<longleftrightarrow>
     (case unmap a of
        V4 ip \<Rightarrow> ip ! 0 = 10 \<or> (ip ! 0 = 172 \<and> and (ip ! 1) 240 = 16) \<or> (ip ! 0 = 192 \<and> ip ! 1 = 168)
      | V6 ip _ \<Rightarrow> and (ip ! 0) 254 = 252)"

definition IsLoopback :: "addr \<Rightarrow> bool" where
  "IsLoopback a \<longleftrightarrow>
     (case unmap a of V4 ip \<Rightarrow> ip ! 0 = 127 | V6 ip _ \<Rightarrow> ip = replicate 15 0 @ [1])"

definition IsLinkLocalUnicast :: "addr \<Rightarrow> bool" where
  "IsLinkLocalUnicast a \<longleftrightarrow>
     (case unmap a of
        V4 ip \<Rightarrow> ip ! 0 = 169 \<and> ip ! 1 = 254
      | V6 ip _ \<Rightarrow> ip ! 0 = 254 \<and> and (ip ! 1) 192 = 128)"

text \<open>\<open>Prefix.Contains\<close> for an IPv4 prefix: IPv6 addresses, also mapped ones, never match.\<close>

definition v4_number :: "bytes \<Rightarrow> nat" where
  "v4_number ip = foldl (\<lambda>n b. 256 * n + unat b) 0 ip"

definition prefix_contains :: "bytes \<Rightarrow> nat \<Rightarrow> addr \<Rightarrow> bool" where
  "prefix_contains net bits a \<longleftrightarrow>
     (case a of V4 ip \<Rightarrow> v4_number ip div 2 ^ (32 - bits) = v4_number net div 2 ^ (32 - bits) | V6 _ _ \<Rightarrow> False)"

section \<open>URLs\<close>

definition upper_hex :: "nat \<Rightarrow> char" where
  "upper_hex n = ''0123456789ABCDEF'' ! n"

definition percent :: "char \<Rightarrow> string" where
  "percent c = [CHR ''%'', upper_hex (ord c div 16), upper_hex (ord c mod 16)]"

definition unreserved :: "char \<Rightarrow> bool" where
  "unreserved c \<longleftrightarrow> digit c \<or> (97 \<le> ord c \<and> ord c \<le> 122) \<or> (65 \<le> ord c \<and> ord c \<le> 90) \<or> c \<in> set ''-_.~''"

definition QueryEscape :: "string \<Rightarrow> string" where
  "QueryEscape s = concat (map (\<lambda>c. if unreserved c then [c] else if c = CHR '' '' then ''+'' else percent c) s)"

text \<open>One segment of a path, and a whole path as \<open>URL.String\<close> writes it.\<close>

definition PathEscape :: "string \<Rightarrow> string" where
  "PathEscape s = concat (map (\<lambda>c. if unreserved c \<or> c \<in> set ''$&+:=@'' then [c] else percent c) s)"

definition escape_path :: "string \<Rightarrow> string" where
  "escape_path s = concat (map (\<lambda>c. if unreserved c \<or> c \<in> set ''$&+,/:;=@'' then [c] else percent c) s)"

definition escape_fragment :: "string \<Rightarrow> string" where
  "escape_fragment s = concat (map (\<lambda>c. if unreserved c \<or> c \<in> set ''$&+,/:;=?@!()*'' then [c] else percent c) s)"

text \<open>A set of query values with one value for each key, sorted by the key.\<close>

type_synonym query = "(string \<times> string) list"

fun join_with :: "string \<Rightarrow> string list \<Rightarrow> string" where
  "join_with sep [] = []"
| "join_with sep [s] = s"
| "join_with sep (s # ss) = s @ sep @ join_with sep ss"

definition encode_query :: "query \<Rightarrow> string" where
  "encode_query q = join_with ''&'' (map (\<lambda>(k, v). QueryEscape k @ ''='' @ QueryEscape v) (sort_key fst q))"

text \<open>The parts of a parsed URL the program uses; \<open>Path\<close> is not escaped.\<close>

record url =
  url_Scheme :: string
  url_User :: string \<comment> \<open>the user information with its at sign, or empty\<close>
  url_Host :: string
  url_Hostname :: string
  url_Path :: string
  url_RawQuery :: string
  url_Fragment :: string

definition url_string :: "url \<Rightarrow> string" where
  "url_string u =
     url_Scheme u @ ''://'' @ url_User u @ url_Host u
     @ (if url_Path u \<noteq> [] \<and> hd (url_Path u) \<noteq> CHR ''/'' then ''/'' else [])
     @ escape_path (url_Path u)
     @ (if url_RawQuery u = [] then [] else CHR ''?'' # url_RawQuery u)
     @ (if url_Fragment u = [] then [] else CHR ''#'' # escape_path (url_Fragment u))"

definition trim_right_slash :: "string \<Rightarrow> string" where
  "trim_right_slash s = rev (dropWhile (\<lambda>c. c = CHR ''/'') (rev s))"

section \<open>Dotted addresses\<close>

definition dotted :: "byte \<Rightarrow> byte \<Rightarrow> byte \<Rightarrow> byte \<Rightarrow> string" where
  "dotted a b c d = join_with ''.'' (map (\<lambda>x. nat_text (unat x)) [a, b, c, d])"

lemma v4_field_digit:
  "digit c \<Longrightarrow> v4_fields val digits fs (c # cs) =
     (if digits = 1 \<and> val = 0 \<or> 255 < 10 * val + (ord c - 48) then None
      else v4_fields (10 * val + (ord c - 48)) (Suc digits) fs cs)"
  by (simp add: Let_def)

text \<open>A number below 256 without leading zeros is read back.\<close>

lemma v4_field_number:
  "n < 256 \<Longrightarrow> v4_fields 0 0 fs (nat_text n @ cs) = v4_fields n (length (nat_text n)) fs cs"
proof (induction n arbitrary: cs rule: nat_text_induct)
  case (digit n)
  then show ?case using digit_of [of n] by (simp add: nat_text_step)
next
  case (more n)
  have d: "digit (char_of (48 + n mod 10))" "ord (char_of (48 + n mod 10) :: char) - 48 = n mod 10"
    using digit_of [of "n mod 10"] by simp_all
  have n: "n div 10 < 256" "10 * (n div 10) + n mod 10 = n" using more.prems by simp_all
  have nz: "0 < n div 10" using more.hyps by (simp add: div_greater_zero_iff)
  have "v4_fields (n div 10) (length (nat_text (n div 10))) fs (char_of (48 + n mod 10) # cs)
      = v4_fields n (Suc (length (nat_text (n div 10)))) fs cs"
    unfolding v4_field_digit [OF d(1)] d(2) n(2) using nz more.prems by simp
  then show ?case using more.IH [OF n(1)] more.hyps by (simp add: nat_text_step)
qed

lemma v4_field_dot:
  "cs \<noteq> [] \<Longrightarrow> length fs < 3 \<Longrightarrow>
   v4_fields n (length (nat_text m)) fs (CHR ''.'' # cs) = v4_fields 0 0 (fs @ [word_of_nat n]) cs"
  by (simp add: digit_def nat_text_not_Nil)

lemma parse_dotted: "ParseAddr (dotted a b c d) = Some (V4 [a, b, c, d])"
proof -
  have u: "unat x < 256" for x :: byte using unsigned_less [of x] by simp
  have find_digits: "list_all digit ds \<Longrightarrow> find (\<lambda>c. c = CHR ''.'' \<or> c = CHR '':'' \<or> c = CHR ''%'') (ds @ CHR ''.'' # cs) = Some (CHR ''.'')" for ds cs
    by (induction ds) (auto simp: digit_def)
  have f: "find (\<lambda>c. c = CHR ''.'' \<or> c = CHR '':'' \<or> c = CHR ''%'') (nat_text n @ CHR ''.'' # cs) = Some (CHR ''.'')" for n cs
    by (rule find_digits [OF nat_text_digits])
  show ?thesis
    by (simp add: dotted_def ParseAddr_def f parseIPv4_def v4_field_number v4_field_number [where cs = "[]", simplified]
        v4_field_dot u nat_text_not_Nil del: v4_fields.simps(2))
qed

end
