(* ===== verification/Api_Client.thy ===== *)
theory Api_Client
  imports Go_Net Handlers
begin

text \<open>
  \<open>src/api/client.go\<close>: the HTTP client of the server. The HTTP library and its cookie jar are
  the record \<open>W\<close> of functions over an unknown network \<open>'n\<close>; what \<open>url.Parse\<close> makes of the text
  of a URL is an argument. Times are read by a function of the same record.
\<close>

section \<open>Data\<close>

record credentials =
  crd_SessionID :: string
  crd_PeerID :: string
  crd_PeerToken :: string
  crd_Code :: string
  crd_ExpiresAt :: int

record ice_policy =
  pol_Transport :: string
  pol_Provider :: string
  pol_AllowFiles :: bool
  pol_BandwidthLimitBPS :: "64 word"

record ice_server =
  srv_URLs :: "string list"
  srv_Username :: string
  srv_Credential :: string

record ice_configuration =
  ice_ICEServers :: "ice_server list"
  ice_Policy :: ice_policy

record user =
  usr_ID :: string
  usr_Username :: string
  usr_DisplayName :: string
  usr_PlanID :: string

record auth_state =
  ast_User :: user
  ast_CustomTURNConfigured :: bool

record device_token =
  dev_ID :: string
  dev_Name :: string
  dev_Token :: string
  dev_CreatedAt :: int
  dev_LastUsed :: int
  dev_ExpiresAt :: int

datatype api_error = APIError int string string | Failure string

text \<open>The method \<open>Error\<close>.\<close>

fun api_error_text :: "api_error \<Rightarrow> string" where
  "api_error_text (APIError status code message) = (if code = [] then message else code @ '': '' @ message)"
| "api_error_text (Failure message) = message"

record client =
  cli_baseURL :: url
  cli_origin :: string
  cli_token :: string

record http_request =
  req_Method :: string
  req_URL :: string
  req_Header :: "(string \<times> string) list"
  req_Body :: "string option"

record http_response =
  rsp_StatusCode :: int
  rsp_Status :: string
  rsp_Body :: string \<comment> \<open>what can be read of it\<close>

record 'n web =
  request_error :: "http_request \<Rightarrow> string option" \<comment> \<open>of \<open>http.NewRequestWithContext\<close>\<close>
  http_do :: "http_request \<Rightarrow> 'n \<Rightarrow> (string + http_response) \<times> 'n"
  jar_cookies :: "'n \<Rightarrow> url \<Rightarrow> string list"
  read_time :: "json \<Rightarrow> int option"

section \<open>Reading answers\<close>

text \<open>The zero values of the structs.\<close>

definition zero_credentials :: credentials where
  "zero_credentials = \<lparr>crd_SessionID = [], crd_PeerID = [], crd_PeerToken = [], crd_Code = [], crd_ExpiresAt = 0\<rparr>"

definition zero_policy :: ice_policy where
  "zero_policy = \<lparr>pol_Transport = [], pol_Provider = [], pol_AllowFiles = False, pol_BandwidthLimitBPS = 0\<rparr>"

definition zero_ice :: ice_configuration where
  "zero_ice = \<lparr>ice_ICEServers = [], ice_Policy = zero_policy\<rparr>"

definition zero_auth :: auth_state where
  "zero_auth = \<lparr>ast_User = \<lparr>usr_ID = [], usr_Username = [], usr_DisplayName = [], usr_PlanID = []\<rparr>,
     ast_CustomTURNConfigured = False\<rparr>"

definition zero_token :: device_token where
  "zero_token = \<lparr>dev_ID = [], dev_Name = [], dev_Token = [], dev_CreatedAt = 0, dev_LastUsed = 0, dev_ExpiresAt = 0\<rparr>"

definition get_uint64 :: "json \<Rightarrow> 64 word \<Rightarrow> 64 word option" where
  "get_uint64 v old =
     (case v of
        JNum n \<Rightarrow> if list_all digit n \<and> digits_value n < 2 ^ 64 then Some (word_of_nat (digits_value n)) else None
      | JNull \<Rightarrow> Some old
      | _ \<Rightarrow> None)"

text \<open>A slice: every element is read into a zero value.\<close>

fun get_elements :: "(json \<Rightarrow> 'r option) \<Rightarrow> json list \<Rightarrow> 'r list option" where
  "get_elements f [] = Some []"
| "get_elements f (v # vs) =
     (case f v of None \<Rightarrow> None | Some x \<Rightarrow> map_option (Cons x) (get_elements f vs))"

definition get_list :: "(json \<Rightarrow> 'r option) \<Rightarrow> json \<Rightarrow> 'r list option" where
  "get_list f v = (case v of JArr vs \<Rightarrow> get_elements f vs | JNull \<Rightarrow> Some [] | _ \<Rightarrow> None)"

definition get_time :: "'n web \<Rightarrow> json \<Rightarrow> int \<Rightarrow> int option" where
  "get_time W v old = (if v = JNull then Some old else read_time W v)"

definition set_credentials :: "'n web \<Rightarrow> credentials setter" where
  "set_credentials W k v c =
     (if k = ''sessionId'' then map_option (\<lambda>x. c\<lparr>crd_SessionID := x\<rparr>) (get_string v (crd_SessionID c))
      else if k = ''peerId'' then map_option (\<lambda>x. c\<lparr>crd_PeerID := x\<rparr>) (get_string v (crd_PeerID c))
      else if k = ''peerToken'' then map_option (\<lambda>x. c\<lparr>crd_PeerToken := x\<rparr>) (get_string v (crd_PeerToken c))
      else if k = ''code'' then map_option (\<lambda>x. c\<lparr>crd_Code := x\<rparr>) (get_string v (crd_Code c))
      else if k = ''expiresAt'' then map_option (\<lambda>x. c\<lparr>crd_ExpiresAt := x\<rparr>) (get_time W v (crd_ExpiresAt c))
      else None)"

definition credentials_fields :: "string list" where
  "credentials_fields = [''sessionId'', ''peerId'', ''peerToken'', ''code'', ''expiresAt'']"

definition set_policy :: "ice_policy setter" where
  "set_policy k v p =
     (if k = ''transport'' then map_option (\<lambda>x. p\<lparr>pol_Transport := x\<rparr>) (get_string v (pol_Transport p))
      else if k = ''provider'' then map_option (\<lambda>x. p\<lparr>pol_Provider := x\<rparr>) (get_string v (pol_Provider p))
      else if k = ''allowFiles'' then map_option (\<lambda>x. p\<lparr>pol_AllowFiles := x\<rparr>) (get_bool v (pol_AllowFiles p))
      else if k = ''bandwidthLimitBps'' then
        map_option (\<lambda>x. p\<lparr>pol_BandwidthLimitBPS := x\<rparr>) (get_uint64 v (pol_BandwidthLimitBPS p))
      else None)"

definition set_server :: "ice_server setter" where
  "set_server k v s =
     (if k = ''urls'' then map_option (\<lambda>x. s\<lparr>srv_URLs := x\<rparr>) (get_list (\<lambda>u. get_string u []) v)
      else if k = ''username'' then map_option (\<lambda>x. s\<lparr>srv_Username := x\<rparr>) (get_string v (srv_Username s))
      else if k = ''credential'' then map_option (\<lambda>x. s\<lparr>srv_Credential := x\<rparr>) (get_string v (srv_Credential s))
      else None)"

definition get_server :: "json \<Rightarrow> ice_server option" where
  "get_server v = decode_struct [''urls'', ''username'', ''credential''] set_server v
     \<lparr>srv_URLs = [], srv_Username = [], srv_Credential = []\<rparr>"

definition set_ice :: "ice_configuration setter" where
  "set_ice k v c =
     (if k = ''iceServers'' then map_option (\<lambda>x. c\<lparr>ice_ICEServers := x\<rparr>) (get_list get_server v)
      else if k = ''policy'' then
        map_option (\<lambda>x. c\<lparr>ice_Policy := x\<rparr>)
          (decode_struct [''transport'', ''provider'', ''allowFiles'', ''bandwidthLimitBps''] set_policy v (ice_Policy c))
      else None)"

definition set_user :: "user setter" where
  "set_user k v u =
     (if k = ''id'' then map_option (\<lambda>x. u\<lparr>usr_ID := x\<rparr>) (get_string v (usr_ID u))
      else if k = ''username'' then map_option (\<lambda>x. u\<lparr>usr_Username := x\<rparr>) (get_string v (usr_Username u))
      else if k = ''displayName'' then map_option (\<lambda>x. u\<lparr>usr_DisplayName := x\<rparr>) (get_string v (usr_DisplayName u))
      else if k = ''planId'' then map_option (\<lambda>x. u\<lparr>usr_PlanID := x\<rparr>) (get_string v (usr_PlanID u))
      else None)"

definition set_auth :: "auth_state setter" where
  "set_auth k v a =
     (if k = ''user'' then
        map_option (\<lambda>x. a\<lparr>ast_User := x\<rparr>)
          (decode_struct [''id'', ''username'', ''displayName'', ''planId''] set_user v (ast_User a))
      else if k = ''customTurnConfigured'' then
        map_option (\<lambda>x. a\<lparr>ast_CustomTURNConfigured := x\<rparr>) (get_bool v (ast_CustomTURNConfigured a))
      else None)"

definition set_token :: "'n web \<Rightarrow> device_token setter" where
  "set_token W k v d =
     (if k = ''id'' then map_option (\<lambda>x. d\<lparr>dev_ID := x\<rparr>) (get_string v (dev_ID d))
      else if k = ''name'' then map_option (\<lambda>x. d\<lparr>dev_Name := x\<rparr>) (get_string v (dev_Name d))
      else if k = ''token'' then map_option (\<lambda>x. d\<lparr>dev_Token := x\<rparr>) (get_string v (dev_Token d))
      else if k = ''createdAt'' then map_option (\<lambda>x. d\<lparr>dev_CreatedAt := x\<rparr>) (get_time W v (dev_CreatedAt d))
      else if k = ''lastUsedAt'' then map_option (\<lambda>x. d\<lparr>dev_LastUsed := x\<rparr>) (get_time W v (dev_LastUsed d))
      else if k = ''expiresAt'' then map_option (\<lambda>x. d\<lparr>dev_ExpiresAt := x\<rparr>) (get_time W v (dev_ExpiresAt d))
      else None)"

definition token_fields :: "string list" where
  "token_fields = [''id'', ''name'', ''token'', ''createdAt'', ''lastUsedAt'', ''expiresAt'']"

text \<open>
  \<open>json.Decoder.Decode\<close> reads the first value of a stream: the shortest prefix that is a value
  (a number could be longer, but no struct is read from a number).
\<close>

definition first_value :: "string \<Rightarrow> json option" where
  "first_value s =
     (case find (\<lambda>n. json_parse (take n s) \<noteq> None) [0..<Suc (length s)] of
        None \<Rightarrow> None | Some n \<Rightarrow> json_parse (take n s))"

text \<open>The decoder goes on after a member of the wrong type; here its error is ignored.\<close>

definition decode_anyway :: "string list \<Rightarrow> 'r setter \<Rightarrow> json \<Rightarrow> 'r \<Rightarrow> 'r" where
  "decode_anyway known set_field v r =
     (case v of
        JObj ms \<Rightarrow> foldl (\<lambda>r (k, x). case field_named known k of
            None \<Rightarrow> r | Some f \<Rightarrow> (case set_field f x r of None \<Rightarrow> r | Some r' \<Rightarrow> r')) r ms
      | _ \<Rightarrow> r)"

definition set_problem :: "(string \<times> string) setter" where
  "set_problem k v e =
     (if k = ''Code'' then map_option (\<lambda>x. (x, snd e)) (get_string v (fst e))
      else if k = ''Message'' then map_option (\<lambda>x. (fst e, x)) (get_string v (snd e))
      else None)"

definition read_problem :: "string \<Rightarrow> string \<times> string" where
  "read_problem body =
     (case first_value body of
        None \<Rightarrow> ([], [])
      | Some v \<Rightarrow> decode_anyway [''error'']
          (\<lambda>k x e. Some (decode_anyway [''Code'', ''Message''] set_problem x e)) v ([], []))"

section \<open>The client\<close>

definition localHTTPHost :: "string \<Rightarrow> bool" where
  "localHTTPHost host \<longleftrightarrow>
     (if EqualFold host ''localhost'' then True
      else
        (case ParseAddr host of
           None \<Rightarrow> False
         | Some address \<Rightarrow> IsLoopback address \<or> IsPrivate address \<or> IsLinkLocalUnicast address))"

text \<open>The first argument is what \<open>url.Parse\<close> makes of the trimmed text, \<open>None\<close> for an error.\<close>

definition NewWithOptions :: "url option \<Rightarrow> string \<Rightarrow> bool \<Rightarrow> string + client" where
  "NewWithOptions parsed token allowInsecureHTTP =
     (case parsed of
        None \<Rightarrow> Inl ''server must be an absolute http(s) URL''
      | Some u \<Rightarrow>
          if (url_Scheme u \<noteq> ''http'' \<and> url_Scheme u \<noteq> ''https'') \<or> url_Host u = [] then
            Inl ''server must be an absolute http(s) URL''
          else if url_Scheme u = ''http'' \<and> \<not> allowInsecureHTTP \<and> \<not> localHTTPHost (url_Hostname u) then
            Inl ''plain HTTP is allowed only for localhost/private IPs; use HTTPS or explicitly allow insecure HTTP''
          else Inr \<lparr>cli_baseURL = u\<lparr>url_Path := trim_right_slash (url_Path u), url_RawQuery := [], url_Fragment := []\<rparr>,
                    cli_origin = url_Scheme u @ ''://'' @ url_Host u, cli_token = TrimSpace token\<rparr>)"

definition New_client :: "url option \<Rightarrow> string \<Rightarrow> string + client" where
  "New_client parsed token = NewWithOptions parsed token False"

definition SetToken :: "string \<Rightarrow> client \<Rightarrow> client" where
  "SetToken v c = c\<lparr>cli_token := TrimSpace v\<rparr>"

text \<open>\<open>json.Marshal\<close> of a map of strings: the keys are sorted.\<close>

definition map_body :: "(string \<times> string) list \<Rightarrow> string" where
  "map_body m = json_text (JObj (map (\<lambda>(k, v). (k, JStr v)) (sort_key fst m)))"

definition endpoint :: "client \<Rightarrow> string \<Rightarrow> url" where
  "endpoint c path =
     (let base = cli_baseURL c;
          e = base\<lparr>url_Path := trim_right_slash (url_Path base) @ takeWhile (\<lambda>x. x \<noteq> CHR ''?'') path\<rparr>
      in if CHR ''?'' \<in> set path then e\<lparr>url_RawQuery := tl (dropWhile (\<lambda>x. x \<noteq> CHR ''?'') path)\<rparr> else e)"

definition build_request :: "client \<Rightarrow> string \<Rightarrow> string \<Rightarrow> (string \<times> string) list option \<Rightarrow> http_request" where
  "build_request c verb path input =
     \<lparr>req_Method = verb, req_URL = url_string (endpoint c path),
      req_Header = [(''Accept'', ''application/json''), (''Origin'', cli_origin c)]
        @ (if input = None then [] else [(''Content-Type'', ''application/json'')])
        @ (if cli_token c = [] then [] else [(''Authorization'', ''Bearer '' @ cli_token c)]),
      req_Body = map_option map_body input\<rparr>"

definition read_response :: "(json \<Rightarrow> 'r option) option \<Rightarrow> 'r \<Rightarrow> http_response \<Rightarrow> api_error + 'r" where
  "read_response output zero response =
     (let limited = take (2 * 1024 * 1024) (rsp_Body response) in
      if rsp_StatusCode response < 200 \<or> rsp_StatusCode response \<ge> 300 then
        (let (code, message) = read_problem limited
         in Inl (APIError (rsp_StatusCode response) code (if message = [] then rsp_Status response else message)))
      else
        (case output of
           None \<Rightarrow> Inr zero
         | Some f \<Rightarrow>
             if rsp_StatusCode response = 204 then Inr zero
             else
               (case first_value limited of
                  None \<Rightarrow> Inl (Failure ''decode server response'')
                | Some v \<Rightarrow> (case f v of None \<Rightarrow> Inl (Failure ''decode server response'') | Some r \<Rightarrow> Inr r))))"

definition request :: "'n web \<Rightarrow> client \<Rightarrow> string \<Rightarrow> string \<Rightarrow> (string \<times> string) list option \<Rightarrow>
    (json \<Rightarrow> 'r option) option \<Rightarrow> 'r \<Rightarrow> 'n \<Rightarrow> (api_error + 'r) \<times> 'n" where
  "request W c verb path input output zero w =
     (let req = build_request c verb path input in
      case request_error W req of
        Some err \<Rightarrow> (Inl (Failure err), w)
      | None \<Rightarrow>
          (case http_do W req w of
             (Inl err, w1) \<Rightarrow> (Inl (Failure err), w1)
           | (Inr response, w1) \<Rightarrow> (read_response output zero response, w1)))"

section \<open>The calls\<close>

definition read_credentials :: "'n web \<Rightarrow> json \<Rightarrow> credentials option" where
  "read_credentials W v = decode_struct credentials_fields (set_credentials W) v zero_credentials"

definition CreateSession :: "'n web \<Rightarrow> client \<Rightarrow> 'n \<Rightarrow> (api_error + credentials) \<times> 'n" where
  "CreateSession W c w = request W c ''POST'' ''/api/sessions'' None (Some (read_credentials W)) zero_credentials w"

definition JoinSession :: "'n web \<Rightarrow> client \<Rightarrow> string \<Rightarrow> 'n \<Rightarrow> (api_error + credentials) \<times> 'n" where
  "JoinSession W c code w =
     request W c ''POST'' ''/api/sessions/join'' (Some [(''code'', TrimSpace code)])
       (Some (read_credentials W)) zero_credentials w"

definition peer_query :: "credentials \<Rightarrow> query" where
  "peer_query cr = [(''sessionId'', crd_SessionID cr), (''peerId'', crd_PeerID cr), (''peerToken'', crd_PeerToken cr)]"

definition ice_query :: "credentials \<Rightarrow> string \<Rightarrow> string \<Rightarrow> query" where
  "ice_query cr mode provider =
     peer_query cr @ (if mode \<noteq> [] \<and> mode \<noteq> ''direct'' then [(''mode'', mode)] else [])
     @ (if provider \<noteq> [] then [(''provider'', provider)] else [])"

definition ICE :: "'n web \<Rightarrow> client \<Rightarrow> credentials \<Rightarrow> string \<Rightarrow> string \<Rightarrow> 'n \<Rightarrow> (api_error + ice_configuration) \<times> 'n" where
  "ICE W c cr mode provider w =
     request W c ''GET'' (''/api/ice?'' @ encode_query (ice_query cr mode provider)) None
       (Some (\<lambda>v. decode_struct [''iceServers'', ''policy''] set_ice v zero_ice)) zero_ice w"

definition read_auth :: "json \<Rightarrow> auth_state option" where
  "read_auth v = decode_struct [''user'', ''customTurnConfigured''] set_auth v zero_auth"

definition Login :: "'n web \<Rightarrow> client \<Rightarrow> string \<Rightarrow> string \<Rightarrow> 'n \<Rightarrow> (api_error + auth_state) \<times> 'n" where
  "Login W c username password w =
     request W c ''POST'' ''/api/auth/login'' (Some [(''username'', username), (''password'', password)])
       (Some read_auth) zero_auth w"

definition Me :: "'n web \<Rightarrow> client \<Rightarrow> 'n \<Rightarrow> (api_error + auth_state) \<times> 'n" where
  "Me W c w = request W c ''GET'' ''/api/auth/me'' None (Some read_auth) zero_auth w"

definition read_token :: "'n web \<Rightarrow> json \<Rightarrow> device_token option" where
  "read_token W v = decode_struct token_fields (set_token W) v zero_token"

definition CreateDeviceToken :: "'n web \<Rightarrow> client \<Rightarrow> string \<Rightarrow> 'n \<Rightarrow> (api_error + device_token) \<times> 'n" where
  "CreateDeviceToken W c name w =
     request W c ''POST'' ''/api/account/device-tokens'' (Some [(''name'', name)]) (Some (read_token W)) zero_token w"

definition ListDeviceTokens :: "'n web \<Rightarrow> client \<Rightarrow> 'n \<Rightarrow> (api_error + device_token list) \<times> 'n" where
  "ListDeviceTokens W c w =
     request W c ''GET'' ''/api/account/device-tokens'' None
       (Some (\<lambda>v. decode_struct [''tokens''] (\<lambda>k x ts. get_list (read_token W) x) v [])) [] w"

definition DeleteDeviceToken :: "'n web \<Rightarrow> client \<Rightarrow> string \<Rightarrow> 'n \<Rightarrow> (api_error + unit) \<times> 'n" where
  "DeleteDeviceToken W c ident w =
     request W c ''DELETE'' (''/api/account/device-tokens/'' @ PathEscape ident) None None () w"

definition WebSocketURL :: "client \<Rightarrow> string \<Rightarrow> query \<Rightarrow> string" where
  "WebSocketURL c path q =
     (let base = cli_baseURL c in
      url_string (base\<lparr>url_Scheme := (if url_Scheme base = ''https'' then ''wss'' else ''ws''),
        url_Path := trim_right_slash (url_Path base) @ path, url_RawQuery := encode_query q\<rparr>))"

definition WebSocketHeader :: "'n web \<Rightarrow> client \<Rightarrow> 'n \<Rightarrow> (string \<times> string) list" where
  "WebSocketHeader W c w =
     [(''Origin'', cli_origin c)]
     @ (if cli_token c \<noteq> [] then [(''Authorization'', ''Bearer '' @ cli_token c)] else [])
     @ map (Pair ''Cookie'') (jar_cookies W w (cli_baseURL c))"

end
