(* ===== verification/Api_Safety.thy ===== *)
theory Api_Safety
  imports Api_Client
begin

text \<open>
  What the client guarantees: plain HTTP only to local hosts, query values that arrive as they
  were given, and the one path that is escaped twice.
\<close>

section \<open>Local addresses\<close>

lemma byte_cases:
  assumes "\<forall>n\<in>set [0..<256]. P (word_of_nat n :: byte)"
  shows "P b"
proof -
  have "unat b \<in> set [0..<256]" using unsigned_less [of b] by simp
  then have "P (word_of_nat (unat b))" using assms by blast
  then show ?thesis by simp
qed

lemma and_240: "and b 240 = 16 \<longleftrightarrow> 16 \<le> unat b \<and> unat b \<le> 31" for b :: byte
  by (rule byte_cases) code_simp

lemma unat_eq: "b = word_of_nat n \<longleftrightarrow> unat b = n" if "n < 256" for b :: byte
  using that by (auto simp: unsigned_of_nat take_bit_nat_eq_self)

lemma byte_numeral: "b = numeral n \<longleftrightarrow> unat b = numeral n" if "numeral n < (256 :: nat)" for b :: byte
  using unat_eq [OF that, of b] by simp

text \<open>The private, loopback and link-local blocks of IPv4.\<close>

definition local_block :: "nat \<Rightarrow> nat \<Rightarrow> bool" where
  "local_block a b \<longleftrightarrow> a = 127 \<or> a = 10 \<or> (a = 172 \<and> 16 \<le> b \<and> b \<le> 31) \<or> (a = 192 \<and> b = 168) \<or> (a = 169 \<and> b = 254)"

lemma v4_local:
  "IsLoopback (V4 [a, b, c, d]) \<or> IsPrivate (V4 [a, b, c, d]) \<or> IsLinkLocalUnicast (V4 [a, b, c, d])
    \<longleftrightarrow> local_block (unat a) (unat b)"
  by (auto simp: IsLoopback_def IsPrivate_def IsLinkLocalUnicast_def unmap_def local_block_def and_240 byte_numeral)

lemma fold_name_digit: "digit c \<Longrightarrow> fold_name (c # cs) = c # fold_name cs"
  by (auto simp: digit_def lower_char_def)

lemma hd_dotted: "\<exists>c cs. dotted a b x d = c # cs \<and> digit c"
proof -
  obtain c cs where "nat_text (unat a) = c # cs" using nat_text_not_Nil by (cases "nat_text (unat a)") auto
  moreover have "digit c" using nat_text_digits [of "unat a"] calculation by simp
  ultimately show ?thesis by (auto simp: dotted_def)
qed

lemma localHTTPHost_dotted: "localHTTPHost (dotted a b c d) \<longleftrightarrow> local_block (unat a) (unat b)"
proof -
  obtain x xs where x: "dotted a b c d = x # xs" "digit x" using hd_dotted by blast
  have "fold_name (x # xs) \<noteq> fold_name ''localhost''"
  proof
    assume "fold_name (x # xs) = fold_name ''localhost''"
    then have "x = hd (fold_name ''localhost'')" using fold_name_digit [OF x(2)] by (metis list.sel(1))
    moreover have "hd (fold_name ''localhost'') = CHR ''l''" by code_simp
    ultimately show False using x(2) by (simp add: digit_def)
  qed
  then have "\<not> EqualFold (dotted a b c d) ''localhost''" by (simp add: EqualFold_def x(1))
  then show ?thesis using parse_dotted [of a b c d] v4_local [of a b c d] by (simp add: localHTTPHost_def)
qed

text \<open>C37: Without the explicit option a plain-HTTP server given by its IPv4 address is accepted
  exactly when the address is in one of the loopback, private and link-local blocks.\<close>

theorem plain_http_stays_local:
  assumes "url_Scheme u = ''http''" and "url_Host u \<noteq> []" and "url_Hostname u = dotted a b c d"
  shows "(\<exists>k. New_client (Some u) token = Inr k) \<longleftrightarrow>
    unat a = 127 \<or> unat a = 10 \<or> (unat a = 172 \<and> 16 \<le> unat b \<and> unat b \<le> 31)
    \<or> (unat a = 192 \<and> unat b = 168) \<or> (unat a = 169 \<and> unat b = 254)"
  using assms localHTTPHost_dotted [of a b c d]
  by (simp add: New_client_def NewWithOptions_def local_block_def)

definition demo_url :: url where
  "demo_url = \<lparr>url_Scheme = ''http'', url_User = [], url_Host = ''192.168.1.10:8080'', url_Hostname = ''192.168.1.10'',
     url_Path = [], url_RawQuery = [], url_Fragment = []\<rparr>"

theorem plain_http_stays_local_witness:
  "(\<exists>k. New_client (Some demo_url) ''t'' = Inr k) \<and> (\<forall>k. New_client (Some (demo_url\<lparr>url_Hostname := ''8.8.8.8''\<rparr>)) ''t'' \<noteq> Inr k)"
proof -
  have d: "''192.168.1.10'' = dotted 192 168 1 10" "''8.8.8.8'' = dotted 8 8 8 8" by code_simp+
  show ?thesis
    using plain_http_stays_local [of demo_url 192 168 1 10 "''t''"]
      plain_http_stays_local [of "demo_url\<lparr>url_Hostname := ''8.8.8.8''\<rparr>" 8 8 8 8 "''t''"] d
    by (simp add: demo_url_def)
qed

section \<open>Query strings\<close>

text \<open>\<open>url.ParseQuery\<close>, what the server does with the query.\<close>

function unescape :: "string \<Rightarrow> string option" where
  "unescape [] = Some []"
| "unescape (c # cs) =
     (if c = CHR ''%'' then
        (case cs of
           a # b # ds \<Rightarrow>
             (case (hex_value a, hex_value b) of
                (Some x, Some y) \<Rightarrow> map_option (Cons (char_of (16 * x + y))) (unescape ds)
              | _ \<Rightarrow> None)
         | _ \<Rightarrow> None)
      else map_option (Cons (if c = CHR ''+'' then CHR '' '' else c)) (unescape cs))"
  by pat_completeness auto
termination by (relation "measure length") auto

fun split_on :: "char \<Rightarrow> string \<Rightarrow> string list" where
  "split_on x [] = [[]]"
| "split_on x (c # cs) =
     (if c = x then [] # split_on x cs
      else (case split_on x cs of p # ps \<Rightarrow> (c # p) # ps | [] \<Rightarrow> [[c]]))"

definition parse_pair :: "string \<Rightarrow> (string \<times> string) option" where
  "parse_pair s =
     (case (unescape (takeWhile (\<lambda>c. c \<noteq> CHR ''='') s), unescape (tl (dropWhile (\<lambda>c. c \<noteq> CHR ''='') s))) of
        (Some k, Some v) \<Rightarrow> Some (k, v) | _ \<Rightarrow> None)"

definition parse_query :: "string \<Rightarrow> (string \<times> string) option list" where
  "parse_query s = (if s = [] then [] else map parse_pair (split_on (CHR ''&'') s))"

lemma hex_value_upper: "n < 16 \<Longrightarrow> hex_value (upper_hex n) = Some n"
proof -
  have "\<forall>n\<in>set [0..<16]. hex_value (upper_hex n) = Some n" by code_simp
  then show "n < 16 \<Longrightarrow> hex_value (upper_hex n) = Some n" by simp
qed

lemma ord_less: "ord c < 256"
proof -
  have "ord c mod 256 < 256" by simp
  then show ?thesis by simp
qed

lemma ord_digits: "ord c div 16 < 16" "ord c mod 16 < 16"
  using ord_less [of c] by (simp_all add: div_less_iff_less_mult)

lemma unescape_percent: "unescape (percent c @ s) = map_option (Cons c) (unescape s)"
  by (simp add: percent_def hex_value_upper ord_digits)

lemma unreserved_plain: "unreserved c \<Longrightarrow> c \<noteq> CHR ''%'' \<and> c \<noteq> CHR ''+'' \<and> c \<noteq> CHR ''&'' \<and> c \<noteq> CHR ''=''"
  by (auto simp: unreserved_def digit_def)

lemma unescape_QueryEscape: "unescape (QueryEscape s @ t) = map_option ((@) s) (unescape t)"
proof (induction s)
  case Nil
  show ?case by (simp add: QueryEscape_def option.map_ident)
next
  case (Cons c s)
  have e: "QueryEscape (c # s) @ t = (if unreserved c then [c] else if c = CHR '' '' then ''+'' else percent c) @ (QueryEscape s @ t)"
    by (simp add: QueryEscape_def)
  show ?case unfolding e
    using Cons unreserved_plain [of c] by (simp add: unescape_percent option.map_comp o_def)
qed

lemma escaped_chars: "list_all (\<lambda>c. c \<noteq> CHR ''&'' \<and> c \<noteq> CHR ''='') (QueryEscape s)"
proof -
  have u: "upper_hex n \<noteq> CHR ''&'' \<and> upper_hex n \<noteq> CHR ''=''" if "n < 16" for n
    using hex_value_upper [OF that] by (auto simp: hex_value_def)
  have "list_all (\<lambda>c. c \<noteq> CHR ''&'' \<and> c \<noteq> CHR ''='') (percent c)" for c
    using u [OF ord_digits(1)] u [OF ord_digits(2)] by (simp add: percent_def)
  then show ?thesis using unreserved_plain by (induction s) (auto simp: QueryEscape_def)
qed

lemma split_on_none: "list_all (\<lambda>c. c \<noteq> x) p \<Longrightarrow> split_on x p = [p]"
  by (induction p) auto

lemma split_on_sep: "list_all (\<lambda>c. c \<noteq> x) p \<Longrightarrow> split_on x (p @ x # cs) = p # split_on x cs"
  by (induction p) auto

lemma split_on_join:
  "ps \<noteq> [] \<Longrightarrow> list_all (list_all (\<lambda>c. c \<noteq> x)) ps \<Longrightarrow> split_on x (join_with [x] ps) = ps"
  by (induction "[x]" ps rule: join_with.induct) (auto simp: split_on_none split_on_sep)

lemma parse_pair_escaped: "parse_pair (QueryEscape k @ ''='' @ QueryEscape v) = Some (k, v)"
proof -
  have "list_all (\<lambda>c. c \<noteq> CHR ''='') (QueryEscape k)" using escaped_chars [of k] by (simp add: list_all_iff)
  then have "takeWhile (\<lambda>c. c \<noteq> CHR ''='') (QueryEscape k @ ''='' @ QueryEscape v) = QueryEscape k"
    "dropWhile (\<lambda>c. c \<noteq> CHR ''='') (QueryEscape k @ ''='' @ QueryEscape v) = ''='' @ QueryEscape v"
    by (simp_all add: takeWhile_append2 dropWhile_append2 list_all_iff)
  then show ?thesis
    using unescape_QueryEscape [of k "[]"] unescape_QueryEscape [of v "[]"] by (simp add: parse_pair_def)
qed

lemma parse_encode_query:
  assumes "q \<noteq> []"
  shows "parse_query (encode_query q) = map Some (sort_key fst q)"
proof -
  define ps where "ps = map (\<lambda>(k, v). QueryEscape k @ ''='' @ QueryEscape v) (sort_key fst q)"
  have "length (sort_key fst q) = length q" by simp
  then have ne: "ps \<noteq> []" using assms unfolding ps_def by (metis Nil_is_map_conv length_0_conv)
  have "list_all (\<lambda>c. c \<noteq> CHR ''&'') (QueryEscape k)" for k using escaped_chars [of k] by (simp add: list_all_iff)
  then have "list_all (list_all (\<lambda>c. c \<noteq> CHR ''&'')) ps" by (auto simp: ps_def list_all_iff)
  then have s: "split_on (CHR ''&'') (join_with ''&'' ps) = ps" using ne by (intro split_on_join)
  have "join_with ''&'' ps \<noteq> []"
  proof
    assume "join_with ''&'' ps = []"
    then have "ps = [[]]" using s by simp
    moreover have "p \<in> set ps \<Longrightarrow> p \<noteq> []" for p by (auto simp: ps_def)
    ultimately show False by auto
  qed
  then have "parse_query (encode_query q) = map parse_pair ps"
    unfolding encode_query_def parse_query_def ps_def [symmetric] s by (rule if_not_P)
  also have "\<dots> = map Some (sort_key fst q)" by (auto simp: ps_def parse_pair_escaped [simplified])
  finally show ?thesis .
qed


section \<open>An identifier that is escaped twice\<close>

text \<open>\<open>DeleteDeviceToken\<close> escapes the identifier and \<open>URL.String\<close> escapes the path again: an
  identifier with a blank reaches the server as one with the text \<open>%20\<close>.\<close>

theorem delete_escapes_twice:
  "case New_client (Some demo_url) [] of
     Inr c \<Rightarrow> req_URL (build_request c ''DELETE'' (''/api/account/device-tokens/'' @ PathEscape ''a b'') None)
       = ''http://192.168.1.10:8080/api/account/device-tokens/a%2520b''
   | Inl _ \<Rightarrow> False"
  by code_simp

end
