(* ===== verification/Signaling.thy ===== *)
theory Signaling
  imports Api_Client "HOL-Library.Sublist"
begin

text \<open>
  \<open>src/signaling/signaling.go\<close> and \<open>src/presence/presence.go\<close>: the two WebSocket clients. Both
  read messages in a goroutine into a queue of 32 that a slow consumer overflows, and write
  JSON values. The WebSocket library is the record \<open>S\<close> of functions over an unknown network;
  what \<open>ReadMessage\<close> returns is an argument of a turn of the reader.
\<close>

section \<open>The library\<close>

datatype ws_error = Refused string | Unreachable string \<comment> \<open>with and without a response\<close>

record 'n sockets =
  ws_dial :: "string \<Rightarrow> (string \<times> string) list \<Rightarrow> 'n \<Rightarrow> (ws_error + nat) \<times> 'n"
  ws_write_json :: "nat \<Rightarrow> json \<Rightarrow> 'n \<Rightarrow> string option \<times> 'n"
  ws_write_close :: "nat \<Rightarrow> 'n \<Rightarrow> 'n"
  ws_close :: "nat \<Rightarrow> 'n \<Rightarrow> string option \<times> 'n"

datatype ws_read = ReadText string | ReadOther | ReadFailed string

section \<open>The reading goroutine\<close>

text \<open>The two channels it fills: at most 32 messages, at most one error; at the end it closes the first.\<close>

record 'm inbox =
  inbox_messages :: "'m list"
  inbox_errors :: "string list"
  inbox_closed :: bool

definition new_inbox :: "'m inbox" where
  "new_inbox = \<lparr>inbox_messages = [], inbox_errors = [], inbox_closed = False\<rparr>"

definition inbox_capacity :: nat where "inbox_capacity = 32"

text \<open>One round of \<open>readLoop\<close>; \<open>parse\<close> gives the message of a text, if it is one.\<close>

definition read_turn :: "(string \<Rightarrow> 'm option) \<Rightarrow> ws_read \<Rightarrow> 'm inbox \<Rightarrow> 'm inbox" where
  "read_turn parse r i =
     (if inbox_closed i then i
      else
        (case r of
           ReadFailed err \<Rightarrow>
             i\<lparr>inbox_errors := (if inbox_errors i = [] then [err] else inbox_errors i), inbox_closed := True\<rparr>
         | ReadOther \<Rightarrow> i
         | ReadText payload \<Rightarrow>
             (case parse payload of
                None \<Rightarrow> i
              | Some message \<Rightarrow>
                  if length (inbox_messages i) < inbox_capacity then i\<lparr>inbox_messages := inbox_messages i @ [message]\<rparr>
                  else i)))"

section \<open>Signaling\<close>

record signal =
  sig_Version :: int
  sig_Type :: string
  sig_Payload :: "json option"
  sig_Code :: string
  sig_Message :: string

definition zero_signal :: signal where
  "zero_signal = \<lparr>sig_Version = 0, sig_Type = [], sig_Payload = None, sig_Code = [], sig_Message = []\<rparr>"

definition set_signal_field :: "signal setter" where
  "set_signal_field k v s =
     (if k = ''version'' then map_option (\<lambda>x. s\<lparr>sig_Version := x\<rparr>) (get_int v (sig_Version s))
      else if k = ''type'' then map_option (\<lambda>x. s\<lparr>sig_Type := x\<rparr>) (get_string v (sig_Type s))
      else if k = ''payload'' then Some (s\<lparr>sig_Payload := Some v\<rparr>)
      else if k = ''code'' then map_option (\<lambda>x. s\<lparr>sig_Code := x\<rparr>) (get_string v (sig_Code s))
      else if k = ''message'' then map_option (\<lambda>x. s\<lparr>sig_Message := x\<rparr>) (get_string v (sig_Message s))
      else None)"

definition parse_signal :: "string \<Rightarrow> signal option" where
  "parse_signal payload =
     (case unmarshal [''version'', ''type'', ''payload'', ''code'', ''message''] set_signal_field payload zero_signal of
        None \<Rightarrow> None
      | Some m \<Rightarrow> if sig_Version m \<noteq> 1 \<or> sig_Type m = [] then None else Some m)"

definition signal_read_turn :: "ws_read \<Rightarrow> signal inbox \<Rightarrow> signal inbox" where
  "signal_read_turn = read_turn parse_signal"

record signaling =
  sgn_conn :: nat
  sgn_inbox :: "signal inbox"
  sgn_closed :: bool \<comment> \<open>\<open>closeOnce\<close>\<close>

definition dial_error :: "ws_error \<Rightarrow> string" where
  "dial_error e = (case e of Refused status \<Rightarrow> status | Unreachable err \<Rightarrow> err)"

definition Dial_signaling :: "'n web \<Rightarrow> 'n sockets \<Rightarrow> client \<Rightarrow> credentials \<Rightarrow> 'n \<Rightarrow> (string + signaling) \<times> 'n" where
  "Dial_signaling W S c cr w =
     (case ws_dial S (WebSocketURL c ''/ws'' (peer_query cr)) (WebSocketHeader W c w) w of
        (Inl e, w1) \<Rightarrow> (Inl (dial_error e), w1)
      | (Inr conn, w1) \<Rightarrow> (Inr \<lparr>sgn_conn = conn, sgn_inbox = new_inbox, sgn_closed = False\<rparr>, w1))"

text \<open>\<open>WriteJSON\<close> of a map: the keys are sorted.\<close>

definition signal_json :: "string \<Rightarrow> json option \<Rightarrow> json" where
  "signal_json kind payload = JObj (
     omit_when (payload = None) ''payload'' (the payload) @ [(''type'', JStr kind), (''version'', JNum (int_text 1))])"

definition Send_signal :: "'n sockets \<Rightarrow> string \<Rightarrow> json option \<Rightarrow> signaling \<Rightarrow> 'n \<Rightarrow> string option \<times> 'n" where
  "Send_signal S kind payload s w = ws_write_json S (sgn_conn s) (signal_json kind payload) w"

definition Close_signaling :: "'n sockets \<Rightarrow> signaling \<Rightarrow> 'n \<Rightarrow> string option \<times> signaling \<times> 'n" where
  "Close_signaling S s w =
     (if sgn_closed s then (None, s, w)
      else
        (let (err, w1) = ws_close S (sgn_conn s) (ws_write_close S (sgn_conn s) w)
         in (err, s\<lparr>sgn_closed := True\<rparr>, w1)))"

section \<open>Presence\<close>

record online_instance =
  ins_InstanceID :: string
  ins_DeviceID :: string
  ins_Label :: string
  ins_Platform :: string
  ins_ConnectedAt :: int

definition zero_instance :: online_instance where
  "zero_instance = \<lparr>ins_InstanceID = [], ins_DeviceID = [], ins_Label = [], ins_Platform = [], ins_ConnectedAt = 0\<rparr>"

definition set_instance :: "'n web \<Rightarrow> online_instance setter" where
  "set_instance W k v i =
     (if k = ''instanceId'' then map_option (\<lambda>x. i\<lparr>ins_InstanceID := x\<rparr>) (get_string v (ins_InstanceID i))
      else if k = ''deviceId'' then map_option (\<lambda>x. i\<lparr>ins_DeviceID := x\<rparr>) (get_string v (ins_DeviceID i))
      else if k = ''label'' then map_option (\<lambda>x. i\<lparr>ins_Label := x\<rparr>) (get_string v (ins_Label i))
      else if k = ''platform'' then map_option (\<lambda>x. i\<lparr>ins_Platform := x\<rparr>) (get_string v (ins_Platform i))
      else if k = ''connectedAt'' then map_option (\<lambda>x. i\<lparr>ins_ConnectedAt := x\<rparr>) (get_time W v (ins_ConnectedAt i))
      else None)"

definition instance_fields :: "string list" where
  "instance_fields = [''instanceId'', ''deviceId'', ''label'', ''platform'', ''connectedAt'']"

record presence_message =
  prm_Version :: int
  prm_Type :: string
  prm_Instances :: "online_instance list"
  prm_RequestID :: string
  prm_TargetInstanceID :: string
  prm_RemoteInstanceID :: string
  prm_From :: online_instance
  prm_GroupID :: string
  prm_Initiator :: bool
  prm_Credentials :: credentials
  prm_Code :: string
  prm_Message :: string

definition zero_presence :: presence_message where
  "zero_presence = \<lparr>prm_Version = 0, prm_Type = [], prm_Instances = [], prm_RequestID = [],
     prm_TargetInstanceID = [], prm_RemoteInstanceID = [], prm_From = zero_instance, prm_GroupID = [],
     prm_Initiator = False, prm_Credentials = zero_credentials, prm_Code = [], prm_Message = []\<rparr>"

definition presence_fields :: "string list" where
  "presence_fields = [''version'', ''type'', ''instances'', ''requestId'', ''targetInstanceId'', ''remoteInstanceId'',
     ''from'', ''groupId'', ''initiator'', ''credentials'', ''code'', ''message'']"

definition set_presence_field :: "'n web \<Rightarrow> presence_message setter" where
  "set_presence_field W k v m =
     (if k = ''version'' then map_option (\<lambda>x. m\<lparr>prm_Version := x\<rparr>) (get_int v (prm_Version m))
      else if k = ''type'' then map_option (\<lambda>x. m\<lparr>prm_Type := x\<rparr>) (get_string v (prm_Type m))
      else if k = ''instances'' then
        map_option (\<lambda>x. m\<lparr>prm_Instances := x\<rparr>)
          (get_list (\<lambda>u. decode_struct instance_fields (set_instance W) u zero_instance) v)
      else if k = ''requestId'' then map_option (\<lambda>x. m\<lparr>prm_RequestID := x\<rparr>) (get_string v (prm_RequestID m))
      else if k = ''targetInstanceId'' then
        map_option (\<lambda>x. m\<lparr>prm_TargetInstanceID := x\<rparr>) (get_string v (prm_TargetInstanceID m))
      else if k = ''remoteInstanceId'' then
        map_option (\<lambda>x. m\<lparr>prm_RemoteInstanceID := x\<rparr>) (get_string v (prm_RemoteInstanceID m))
      else if k = ''from'' then
        map_option (\<lambda>x. m\<lparr>prm_From := x\<rparr>) (decode_struct instance_fields (set_instance W) v (prm_From m))
      else if k = ''groupId'' then map_option (\<lambda>x. m\<lparr>prm_GroupID := x\<rparr>) (get_string v (prm_GroupID m))
      else if k = ''initiator'' then map_option (\<lambda>x. m\<lparr>prm_Initiator := x\<rparr>) (get_bool v (prm_Initiator m))
      else if k = ''credentials'' then
        map_option (\<lambda>x. m\<lparr>prm_Credentials := x\<rparr>)
          (decode_struct credentials_fields (set_credentials W) v (prm_Credentials m))
      else if k = ''code'' then map_option (\<lambda>x. m\<lparr>prm_Code := x\<rparr>) (get_string v (prm_Code m))
      else if k = ''message'' then map_option (\<lambda>x. m\<lparr>prm_Message := x\<rparr>) (get_string v (prm_Message m))
      else None)"

definition parse_presence :: "'n web \<Rightarrow> string \<Rightarrow> presence_message option" where
  "parse_presence W payload =
     (case unmarshal presence_fields (set_presence_field W) payload zero_presence of
        None \<Rightarrow> None
      | Some m \<Rightarrow> if prm_Version m \<noteq> 1 \<or> prm_Type m = [] then None else Some m)"

definition presence_read_turn :: "'n web \<Rightarrow> ws_read \<Rightarrow> presence_message inbox \<Rightarrow> presence_message inbox" where
  "presence_read_turn W = read_turn (parse_presence W)"

text \<open>\<open>prs_closed\<close> is \<open>closeOnce\<close> and the closed channel \<open>done\<close> at once.\<close>

record presence =
  prs_conn :: nat
  prs_inbox :: "presence_message inbox"
  prs_closed :: bool
  prs_heartbeat :: bool \<comment> \<open>whether \<open>heartbeatLoop\<close> runs\<close>

definition instance_query :: "online_instance \<Rightarrow> query" where
  "instance_query i = [(''instanceId'', ins_InstanceID i), (''deviceId'', ins_DeviceID i), (''label'', ins_Label i),
     (''platform'', ins_Platform i)]"

definition Dial_presence :: "'n web \<Rightarrow> 'n sockets \<Rightarrow> client \<Rightarrow> online_instance \<Rightarrow> 'n \<Rightarrow> (string + presence) \<times> 'n" where
  "Dial_presence W S c i w =
     (case ws_dial S (WebSocketURL c ''/ws/account'' (instance_query i)) (WebSocketHeader W c w) w of
        (Inl e, w1) \<Rightarrow> (Inl (dial_error e), w1)
      | (Inr conn, w1) \<Rightarrow>
          (Inr \<lparr>prs_conn = conn, prs_inbox = new_inbox, prs_closed = False, prs_heartbeat = True\<rparr>, w1))"

definition send_presence :: "'n sockets \<Rightarrow> (string \<times> json) list \<Rightarrow> presence \<Rightarrow> 'n \<Rightarrow> string option \<times> 'n" where
  "send_presence S fs p w = ws_write_json S (prs_conn p) (JObj (sort_key fst fs)) w"

text \<open>The group of a request without one is random: 16 bytes, or a text made from the clock.\<close>

definition presence_randomID :: "bytes option \<Rightarrow> bytes \<Rightarrow> string" where
  "presence_randomID entropy_bytes clock_text =
     (case entropy_bytes of Some buffer \<Rightarrow> hex_text buffer | None \<Rightarrow> hex_text clock_text)"

definition Request ::
  "'n sockets \<Rightarrow> string \<Rightarrow> string \<Rightarrow> bytes option \<Rightarrow> bytes \<Rightarrow> presence \<Rightarrow> 'n \<Rightarrow> string option \<times> 'n" where
  "Request S target grp entropy_bytes clock_text p w =
     (let groupID = (if grp = [] then presence_randomID entropy_bytes clock_text else grp)
      in send_presence S [(''version'', JNum (int_text 1)), (''type'', JStr ''connect_request''),
           (''targetInstanceId'', JStr target), (''groupId'', JStr groupID)] p w)"

definition Respond :: "'n sockets \<Rightarrow> string \<Rightarrow> bool \<Rightarrow> presence \<Rightarrow> 'n \<Rightarrow> string option \<times> 'n" where
  "Respond S requestID agreed p w =
     send_presence S [(''version'', JNum (int_text 1)), (''type'', JStr ''connect_response''),
       (''requestId'', JStr requestID), (''accepted'', JBool agreed)] p w"

text \<open>A round of \<open>heartbeatLoop\<close>: the ticker fires, or \<open>done\<close> is closed.\<close>

definition heartbeat_tick :: "'n sockets \<Rightarrow> presence \<Rightarrow> 'n \<Rightarrow> presence \<times> 'n" where
  "heartbeat_tick S p w =
     (if \<not> prs_heartbeat p then (p, w)
      else
        (case send_presence S [(''version'', JNum (int_text 1)), (''type'', JStr ''heartbeat'')] p w of
           (None, w1) \<Rightarrow> (p, w1)
         | (Some _, w1) \<Rightarrow> (p\<lparr>prs_heartbeat := False\<rparr>, w1)))"

definition heartbeat_done :: "presence \<Rightarrow> presence" where
  "heartbeat_done p = (if prs_closed p then p\<lparr>prs_heartbeat := False\<rparr> else p)"

definition Close_presence :: "'n sockets \<Rightarrow> presence \<Rightarrow> 'n \<Rightarrow> string option \<times> presence \<times> 'n" where
  "Close_presence S p w =
     (if prs_closed p then (None, p, w)
      else
        (let (err, w1) = ws_close S (prs_conn p) (ws_write_close S (prs_conn p) w)
         in (err, p\<lparr>prs_closed := True\<rparr>, w1)))"

section \<open>What a reader delivers\<close>

text \<open>A run of a reader: rounds of the goroutine, and a consumer that takes the oldest message.\<close>

datatype inbox_move = Arrive ws_read | Take

text \<open>The texts read so far that are messages, and what the consumer took.\<close>

record 'm reader_run =
  run_inbox :: "'m inbox"
  run_heard :: "'m list"
  run_taken :: "'m list"

definition heard :: "(string \<Rightarrow> 'm option) \<Rightarrow> ws_read \<Rightarrow> 'm inbox \<Rightarrow> 'm list" where
  "heard parse r i = (if inbox_closed i then [] else case r of
     ReadText t \<Rightarrow> (case parse t of Some m \<Rightarrow> [m] | None \<Rightarrow> []) | _ \<Rightarrow> [])"

fun reader_move :: "(string \<Rightarrow> 'm option) \<Rightarrow> inbox_move \<Rightarrow> 'm reader_run \<Rightarrow> 'm reader_run" where
  "reader_move parse (Arrive r) s =
     s\<lparr>run_inbox := read_turn parse r (run_inbox s), run_heard := run_heard s @ heard parse r (run_inbox s)\<rparr>"
| "reader_move parse Take s =
     (case inbox_messages (run_inbox s) of
        [] \<Rightarrow> s
      | m # ms \<Rightarrow> s\<lparr>run_inbox := (run_inbox s)\<lparr>inbox_messages := ms\<rparr>, run_taken := run_taken s @ [m]\<rparr>)"

definition reader_inv :: "'m reader_run \<Rightarrow> bool" where
  "reader_inv s \<longleftrightarrow> subseq (run_taken s @ inbox_messages (run_inbox s)) (run_heard s)
     \<and> length (inbox_messages (run_inbox s)) \<le> 32 \<and> length (inbox_errors (run_inbox s)) \<le> 1
     \<and> (inbox_errors (run_inbox s) \<noteq> [] \<longrightarrow> inbox_closed (run_inbox s))
     \<and> (length (run_heard s) \<le> 32 \<longrightarrow> run_taken s @ inbox_messages (run_inbox s) = run_heard s)"

lemma subseq_snoc: "subseq xs ys \<Longrightarrow> subseq (xs @ [y]) (ys @ [y])"
  by (intro list_emb_append_mono) auto

lemma subseq_more: "subseq xs ys \<Longrightarrow> subseq xs (ys @ zs)"
  by (rule list_emb_prefix)

lemma reader_move_inv: "reader_inv s \<Longrightarrow> reader_inv (reader_move parse mv s)"
proof (cases mv)
  case (Arrive r)
  assume inv: "reader_inv s"
  show ?thesis
  proof (cases "inbox_closed (run_inbox s)")
    case True
    then show ?thesis using inv Arrive by (simp add: reader_inv_def read_turn_def heard_def)
  next
    case open_: False
    show ?thesis
    proof (cases r)
      case (ReadText t)
      show ?thesis
      proof (cases "parse t")
        case (Some m)
        have "length (run_taken s @ inbox_messages (run_inbox s)) \<le> length (run_heard s)"
          using inv list_emb_length unfolding reader_inv_def by blast
        then show ?thesis
          using inv open_ Arrive ReadText Some subseq_snoc [of "run_taken s @ inbox_messages (run_inbox s)" "run_heard s" m]
          by (auto simp: reader_inv_def read_turn_def heard_def inbox_capacity_def intro: subseq_more)
      qed (use inv open_ Arrive ReadText in \<open>simp add: reader_inv_def read_turn_def heard_def\<close>)
    qed (use inv open_ Arrive in \<open>auto simp: reader_inv_def read_turn_def heard_def\<close>)
  qed
next
  case Take
  assume "reader_inv s"
  then show ?thesis using Take by (cases "inbox_messages (run_inbox s)") (auto simp: reader_inv_def)
qed

definition new_run :: "'m reader_run" where
  "new_run = \<lparr>run_inbox = new_inbox, run_heard = [], run_taken = []\<rparr>"

lemma reader_run_inv: "reader_inv s \<Longrightarrow> reader_inv (fold (reader_move parse) moves s)"
  by (induction moves arbitrary: s) (auto intro: reader_move_inv)

text \<open>C32: A reader keeps order and never blocks: at any time what the consumer took and what is queued
  is a subsequence of the messages that arrived, in order, at most 32 are queued and at most one
  error. The first 32 messages are never lost; later ones are when the consumer is 32 behind.\<close>

theorem signals_in_order:
  "let s = fold (reader_move parse_signal) moves new_run
   in subseq (run_taken s @ inbox_messages (run_inbox s)) (run_heard s)
     \<and> length (inbox_messages (run_inbox s)) \<le> 32 \<and> length (inbox_errors (run_inbox s)) \<le> 1
     \<and> (32 < length (run_heard s) \<or> run_taken s @ inbox_messages (run_inbox s) = run_heard s)"
proof -
  have "reader_inv new_run" by (simp add: reader_inv_def new_run_def new_inbox_def)
  from reader_run_inv [OF this, of parse_signal moves] show ?thesis by (auto simp: reader_inv_def Let_def)
qed

end
