(* ===== verification/Peer.thy ===== *)
theory Peer
  imports Parallel_Negotiation Signaling Go_Float
begin

text \<open>
  \<open>src/webrtc/peer.go\<close>: a peer connects directly first and over a relay when that fails. The
  libraries are the record \<open>B\<close>: the WebRTC and WebSocket libraries and the HTTP client of the
  other components, and what this file uses of WebRTC besides. Handlers the code registers are
  functions the library may call for every connection and channel they were registered on, also
  for replaced ones; a handler, a signal and a part of \<open>Connect\<close> up to its next wait are one step.
\<close>

section \<open>Data\<close>

record peer_options =
  po_UDPPort :: int
  po_DirectTimeout :: int
  po_AllowRelay :: bool
  po_RelayProvider :: string
  po_ParallelConnections :: int
  po_SCTPReceiveBufferSize :: "32 word"
  po_UDPBufferSize :: int

record peer_result =
  res_Channel :: nat
  res_Transport :: nat
  res_Policy :: ice_policy
  res_Mode :: string
  res_LocalCandidate :: string
  res_RemoteCandidate :: string
  res_MaxMessageSize :: "32 word"

record connection_stats =
  cst_Connections :: nat
  cst_CurrentRTTMilliseconds :: fraction
  cst_BytesSent :: "64 word"
  cst_BytesReceived :: "64 word"
  cst_PacketsDiscardedOnSend :: "64 word"

text \<open>What the library says of a candidate and of a succeeded pair.\<close>

record ice_candidate =
  cnd_Typ :: string
  cnd_Protocol :: string
  cnd_Address :: string
  cnd_Port :: nat

record pair_stats =
  pst_Succeeded :: bool
  pst_Nominated :: bool
  pst_BytesSent :: "64 word"
  pst_BytesReceived :: "64 word"
  pst_PacketsDiscardedOnSend :: "32 word"
  pst_RTT :: fraction

text \<open>The settings a connection is opened with.\<close>

record pc_settings =
  set_ICEServers :: "ice_server list"
  set_RelayOnly :: bool
  set_ReceiveBuffer :: "32 word"
  set_UDPMux :: "nat option"

record ('n, 'd, 'c) peer_lib =
  lib_pion :: "('n, 'd, 'c) pion"
  lib_web :: "'n web"
  lib_ws :: "'n sockets"
  lib_connect :: "pc_settings \<Rightarrow> 'n \<Rightarrow> (string + nat) \<times> 'n"
  lib_negotiated :: "nat \<Rightarrow> string \<Rightarrow> nat \<Rightarrow> 'n \<Rightarrow> (string + nat) \<times> 'n"
  lib_mux_open :: "int \<Rightarrow> int \<Rightarrow> 'n \<Rightarrow> (string + nat) \<times> 'n"
  lib_mux_close :: "nat \<Rightarrow> 'n \<Rightarrow> 'n"
  lib_has_ice :: "'n \<Rightarrow> nat \<Rightarrow> bool" \<comment> \<open>no transport of the channel is nil\<close>
  lib_max_message :: "'n \<Rightarrow> nat \<Rightarrow> 32 word"
  lib_pair :: "'n \<Rightarrow> nat \<Rightarrow> nat \<Rightarrow> (ice_candidate \<times> ice_candidate) option" \<comment> \<open>at each attempt\<close>
  lib_stats :: "'n \<Rightarrow> nat \<Rightarrow> pair_stats list"

text \<open>
  The objects behind the peer's pointers stay when the pointer is reset: the logical channels
  in \<open>transports\<close>, the WebSocket in \<open>peer_socket\<close>. \<open>watched\<close> are the connections with handlers
  and what the handlers captured, \<open>attached\<close> the data channels with handlers. The buffered
  channels \<open>result\<close> and \<open>errors\<close> are lists, the \<open>sync.Once\<close> values flags.
\<close>

record ('n, 'd, 'c) peer =
  peer_client :: client
  peer_creds :: credentials
  peer_initiator :: bool
  peer_options :: peer_options
  peer_signaling :: bool
  peer_socket :: signaling
  peer_udpMux :: "nat option"
  peer_transport :: "nat option"
  peer_pc :: "nat option"
  peer_pending :: "'c list"
  peer_policy :: ice_policy
  peer_relayStarted :: bool
  peer_closed :: bool
  peer_result :: "peer_result list"
  peer_errors :: "string list"
  peer_started :: bool
  peer_result_done :: bool
  peer_error_done :: bool
  peer_loop :: bool
  transports :: "nat \<Rightarrow> ('n, 'd, 'c) chan"
  next_transport :: nat
  watched :: "(nat, nat \<times> ice_configuration) gomap"
  attached :: "(nat, nat \<times> nat) gomap"
  peer_world :: 'n

definition peer_defaults :: "peer_options \<Rightarrow> peer_options" where
  "peer_defaults opts = opts
     \<lparr>po_DirectTimeout := (if po_DirectTimeout opts \<le> 0 then 18 * 1000000000 else po_DirectTimeout opts),
      po_RelayProvider := (if po_RelayProvider opts = [] then ''platform'' else po_RelayProvider opts),
      po_ParallelConnections := clampParallelConnections (po_ParallelConnections opts),
      po_SCTPReceiveBufferSize := (if po_SCTPReceiveBufferSize opts = 0 then 16 * 1024 * 1024 else po_SCTPReceiveBufferSize opts),
      po_UDPBufferSize := (if po_UDPBufferSize opts \<le> 0 then 8 * 1024 * 1024 else po_UDPBufferSize opts)\<rparr>"

definition New_peer :: "client \<Rightarrow> credentials \<Rightarrow> bool \<Rightarrow> peer_options \<Rightarrow> 'n \<Rightarrow> ('n, 'd, 'c) peer" where
  "New_peer c cr initiator opts w =
     \<lparr>peer_client = c, peer_creds = cr, peer_initiator = initiator, peer_options = peer_defaults opts,
      peer_signaling = False, peer_socket = \<lparr>sgn_conn = 0, sgn_inbox = new_inbox, sgn_closed = False\<rparr>,
      peer_udpMux = None, peer_transport = None, peer_pc = None, peer_pending = [], peer_policy = zero_policy,
      peer_relayStarted = False, peer_closed = False, peer_result = [], peer_errors = [], peer_started = False,
      peer_result_done = False, peer_error_done = False, peer_loop = False,
      transports = (\<lambda>_. newParallelChannel 0 None False 0 False w), next_transport = 0, watched = [], attached = [],
      peer_world = w\<rparr>"

section \<open>Small operations\<close>

definition peer_fail :: "string \<Rightarrow> ('n, 'd, 'c) peer \<Rightarrow> ('n, 'd, 'c) peer" where
  "peer_fail err p =
     (if peer_error_done p then p else p\<lparr>peer_error_done := True, peer_errors := peer_errors p @ [err]\<rparr>)"

definition on_world :: "('n \<Rightarrow> 'n) \<Rightarrow> ('n, 'd, 'c) peer \<Rightarrow> ('n, 'd, 'c) peer" where
  "on_world f p = p\<lparr>peer_world := f (peer_world p)\<rparr>"

text \<open>An operation of a logical channel, in the world of the peer.\<close>

definition on_transport ::
  "nat \<Rightarrow> (('n, 'd, 'c) chan \<Rightarrow> ('n, 'd, 'c) chan) \<Rightarrow> ('n, 'd, 'c) peer \<Rightarrow> ('n, 'd, 'c) peer" where
  "on_transport t f p =
     (let c = f ((transports p t)\<lparr>world := peer_world p\<rparr>)
      in p\<lparr>transports := (transports p)(t := c), peer_world := world c\<rparr>)"

definition closeMux :: "('n, 'd, 'c) peer_lib \<Rightarrow> ('n, 'd, 'c) peer \<Rightarrow> ('n, 'd, 'c) peer" where
  "closeMux B p =
     (case peer_udpMux p of
        None \<Rightarrow> p
      | Some mux \<Rightarrow> p\<lparr>peer_udpMux := None, peer_world := lib_mux_close B mux (peer_world p)\<rparr>)"

definition set_provider :: "string setter" where
  "set_provider k v s = (if k = ''provider'' then get_string v s else None)"

definition readProvider :: "json option \<Rightarrow> string \<Rightarrow> string" where
  "readProvider raw fallback =
     (let other = (if fallback = ''custom'' then ''custom'' else ''platform'') in
      case raw of
        None \<Rightarrow> other
      | Some v \<Rightarrow>
          (case decode_struct [''provider''] set_provider v [] of
             None \<Rightarrow> other
           | Some s \<Rightarrow> if s = ''platform'' \<or> s = ''custom'' then s else other))"

definition sendSignal ::
  "('n, 'd, 'c) peer_lib \<Rightarrow> string \<Rightarrow> json \<Rightarrow> ('n, 'd, 'c) peer \<Rightarrow> string option \<times> ('n, 'd, 'c) peer" where
  "sendSignal B kind payload p =
     (if \<not> peer_signaling p then (Some ''signaling is not connected'', p)
      else
        (let (err, w) = Send_signal (lib_ws B) kind (Some payload) (peer_socket p) (peer_world p)
         in (err, p\<lparr>peer_world := w\<rparr>)))"

text \<open>\<open>pc.LocalDescription()\<close> as a payload: a nil pointer becomes \<open>null\<close>.\<close>

definition local_payload :: "('n, 'd, 'c) peer_lib \<Rightarrow> nat \<Rightarrow> 'n \<Rightarrow> json" where
  "local_payload B pc w =
     (case pc_local (lib_pion B) w pc of None \<Rightarrow> JNull | Some d \<Rightarrow> description_json (lib_pion B) d)"

definition provider_payload :: "string \<Rightarrow> json" where
  "provider_payload provider = JObj [(''provider'', JStr provider)]"

section \<open>Addresses of a connection\<close>

definition isLocalAddress :: "string \<Rightarrow> bool" where
  "isLocalAddress value =
     (case ParseAddr value of
        None \<Rightarrow> False
      | Some address \<Rightarrow>
          IsPrivate address \<or> IsLoopback address \<or> IsLinkLocalUnicast address
          \<or> prefix_contains [100, 64, 0, 0] 10 address \<or> prefix_contains [198, 18, 0, 0] 15 address)"

definition candidateSummary :: "ice_candidate \<Rightarrow> string" where
  "candidateSummary c =
     cnd_Typ c @ ''/'' @ cnd_Protocol c @ ''/'' @ cnd_Address c @ '':'' @ nat_text (cnd_Port c)"

definition connection_mode :: "ice_candidate \<Rightarrow> ice_candidate \<Rightarrow> string" where
  "connection_mode local remote =
     (if cnd_Typ local = ''relay'' \<or> cnd_Typ remote = ''relay'' then ''relay''
      else if cnd_Typ local = ''host'' \<and> cnd_Typ remote = ''host''
              \<and> (cnd_Address local = cnd_Address remote
                 \<or> isLocalAddress (cnd_Address local) \<and> isLocalAddress (cnd_Address remote)) then ''lan''
      else ''direct'')"

definition selectedConnectionInfo ::
  "('n, 'd, 'c) peer_lib \<Rightarrow> 'n \<Rightarrow> nat \<Rightarrow> ice_policy \<Rightarrow> string \<times> string \<times> string" where
  "selectedConnectionInfo B w channel policy =
     (if pol_Transport policy = ''relay'' then (''relay'', [], [])
      else if \<not> lib_has_ice B w channel then (''direct'', [], [])
      else
        (case find (\<lambda>n. lib_pair B w channel n \<noteq> None) [0..<25] of
           None \<Rightarrow> (''direct'', [], [])
         | Some n \<Rightarrow>
             (let (local, remote) = the (lib_pair B w channel n)
              in (connection_mode local remote, candidateSummary local, candidateSummary remote))))"

section \<open>Opening a connection\<close>

definition peer_settings :: "ice_configuration \<Rightarrow> ('n, 'd, 'c) peer \<Rightarrow> pc_settings" where
  "peer_settings configuration p =
     \<lparr>set_ICEServers = ice_ICEServers configuration,
      set_RelayOnly = (pol_Transport (ice_Policy configuration) = ''relay''),
      set_ReceiveBuffer = po_SCTPReceiveBufferSize (peer_options p), set_UDPMux = peer_udpMux p\<rparr>"

definition newPeerConnection ::
  "('n, 'd, 'c) peer_lib \<Rightarrow> ice_configuration \<Rightarrow> ('n, 'd, 'c) peer \<Rightarrow> (string + nat) \<times> ('n, 'd, 'c) peer" where
  "newPeerConnection B configuration p =
     (let (r, w) = lib_connect B (peer_settings configuration p) (peer_world p) in (r, p\<lparr>peer_world := w\<rparr>))"

text \<open>The data channel gets its handlers; they stay after the connection is replaced.\<close>

definition attachChannel ::
  "('n, 'd, 'c) peer_lib \<Rightarrow> nat \<Rightarrow> nat \<Rightarrow> nat \<Rightarrow> ice_configuration \<Rightarrow> ('n, 'd, 'c) peer \<Rightarrow> ('n, 'd, 'c) peer" where
  "attachChannel B pc channel priority configuration p =
     (if dc_label (lib_pion B) (peer_world p) channel \<noteq> ''quickdrop-data'' then
        on_world (\<lambda>w. snd (dc_close (lib_pion B) channel w)) p
      else
        (let connections = (if pol_Transport (ice_Policy configuration) = ''relay'' then 1
                            else po_ParallelConnections (peer_options p));
             t = next_transport p
         in p\<lparr>transports := (transports p)(t := OnError (newParallelChannel channel (Some priority)
                (peer_initiator p) connections True (peer_world p))),
              next_transport := Suc t, attached := map_put channel (pc, t) (attached p)\<rparr>))"

definition close_previous ::
  "('n, 'd, 'c) peer_lib \<Rightarrow> nat option \<Rightarrow> nat option \<Rightarrow> ('n, 'd, 'c) peer \<Rightarrow> ('n, 'd, 'c) peer" where
  "close_previous B transport pc p =
     (let p1 = (case transport of None \<Rightarrow> p | Some t \<Rightarrow> on_transport t (\<lambda>c. snd (Close (lib_pion B) c)) p)
      in case pc of None \<Rightarrow> p1 | Some q \<Rightarrow> on_world (pc_close (lib_pion B) q) p1)"

text \<open>The new connection takes the place of the current one, which is closed with its channel.\<close>

definition switch_connection ::
  "('n, 'd, 'c) peer_lib \<Rightarrow> ice_configuration \<Rightarrow> nat \<Rightarrow> nat \<Rightarrow> ('n, 'd, 'c) peer \<Rightarrow> ('n, 'd, 'c) peer" where
  "switch_connection B configuration pc priority p =
     (let p1 = close_previous B (peer_transport p) (peer_pc p)
            (p\<lparr>peer_pc := Some pc, peer_transport := None, peer_policy := ice_Policy configuration, peer_pending := []\<rparr>)
      in p1\<lparr>watched := map_put pc (priority, configuration) (watched p1)\<rparr>)"

definition create_channel ::
  "('n, 'd, 'c) peer_lib \<Rightarrow> ice_configuration \<Rightarrow> nat \<Rightarrow> nat \<Rightarrow> ('n, 'd, 'c) peer \<Rightarrow> string option \<times> ('n, 'd, 'c) peer" where
  "create_channel B configuration pc priority p =
     (case pc_create_channel (lib_pion B) pc ''quickdrop-data'' True (peer_world p) of
        (Inl err, w) \<Rightarrow> (Some err, p\<lparr>peer_world := pc_close (lib_pion B) pc w\<rparr>)
      | (Inr channel, w) \<Rightarrow> (None, attachChannel B pc channel priority configuration (p\<lparr>peer_world := w\<rparr>)))"

definition replaceConnection ::
  "('n, 'd, 'c) peer_lib \<Rightarrow> ice_configuration \<Rightarrow> bool \<Rightarrow> ('n, 'd, 'c) peer \<Rightarrow> string option \<times> ('n, 'd, 'c) peer" where
  "replaceConnection B configuration createChannel p =
     (case newPeerConnection B configuration p of
        (Inl err, p1) \<Rightarrow> (Some err, p1)
      | (Inr pc, p1) \<Rightarrow>
          (case lib_negotiated B pc ''quickdrop-priority'' 1023 (peer_world p1) of
             (Inl err, w) \<Rightarrow> (Some err, p1\<lparr>peer_world := pc_close (lib_pion B) pc w\<rparr>)
           | (Inr priority, w) \<Rightarrow>
               (let p2 = switch_connection B configuration pc priority (p1\<lparr>peer_world := w\<rparr>)
                in if createChannel then create_channel B configuration pc priority p2 else (None, p2))))"

section \<open>The relay\<close>

definition peer_ICE ::
  "('n, 'd, 'c) peer_lib \<Rightarrow> string \<Rightarrow> string \<Rightarrow> ('n, 'd, 'c) peer \<Rightarrow> (api_error + ice_configuration) \<times> ('n, 'd, 'c) peer" where
  "peer_ICE B mode provider p =
     (let (r, w) = ICE (lib_web B) (peer_client p) (peer_creds p) mode provider (peer_world p)
      in (r, p\<lparr>peer_world := w\<rparr>))"

definition beginRelay :: "('n, 'd, 'c) peer_lib \<Rightarrow> ('n, 'd, 'c) peer \<Rightarrow> string option \<times> ('n, 'd, 'c) peer" where
  "beginRelay B p =
     (if peer_relayStarted p \<or> peer_closed p then (None, p)
      else
        (let p1 = p\<lparr>peer_relayStarted := True\<rparr>; provider = po_RelayProvider (peer_options p) in
         if \<not> peer_signaling p1 then (Some ''signaling is not connected'', p1)
         else
           (case peer_ICE B ''relay'' provider p1 of
              (Inl err, p2) \<Rightarrow> (Some (''TURN unavailable: '' @ api_error_text err), p2)
            | (Inr _, p2) \<Rightarrow> sendSignal B ''transport_restart'' (provider_payload provider) p2)))"

section \<open>Handlers of connections and channels\<close>

definition peer_on_candidate :: "('n, 'd, 'c) peer_lib \<Rightarrow> nat \<Rightarrow> 'c option \<Rightarrow> ('n, 'd, 'c) peer \<Rightarrow> ('n, 'd, 'c) peer" where
  "peer_on_candidate B pc candidate p =
     (case candidate of
        None \<Rightarrow> p
      | Some c \<Rightarrow>
          if peer_pc p = Some pc \<and> peer_signaling p then
            snd (sendSignal B ''ice_candidate'' (candidate_json (lib_pion B) c) p)
          else p)"

text \<open>The state \<open>failed\<close>; the handler does nothing in the others.\<close>

definition peer_on_failed :: "('n, 'd, 'c) peer_lib \<Rightarrow> nat \<Rightarrow> ('n, 'd, 'c) peer \<Rightarrow> ('n, 'd, 'c) peer" where
  "peer_on_failed B pc p =
     (if peer_pc p \<noteq> Some pc then p
      else if pol_Transport (peer_policy p) = ''relay'' then peer_fail ''TURN Relay connection failed'' p
      else if peer_initiator p \<and> po_AllowRelay (peer_options p) then
        (case beginRelay B p of (Some err, p1) \<Rightarrow> peer_fail err p1 | (None, p1) \<Rightarrow> p1)
      else p)"

definition peer_on_channel :: "('n, 'd, 'c) peer_lib \<Rightarrow> nat \<Rightarrow> nat \<Rightarrow> ('n, 'd, 'c) peer \<Rightarrow> ('n, 'd, 'c) peer" where
  "peer_on_channel B pc channel p =
     (case map_get (watched p) pc of
        None \<Rightarrow> p
      | Some (priority, configuration) \<Rightarrow> attachChannel B pc channel priority configuration p)"

definition peer_on_error :: "string \<Rightarrow> ('n, 'd, 'c) peer \<Rightarrow> ('n, 'd, 'c) peer" where
  "peer_on_error err p = peer_fail (''DataChannel: '' @ err) p"

definition open_result :: "('n, 'd, 'c) peer_lib \<Rightarrow> nat \<Rightarrow> nat \<Rightarrow> ('n, 'd, 'c) peer \<Rightarrow> peer_result" where
  "open_result B channel t p =
     (let (mode, local, remote) = selectedConnectionInfo B (peer_world p) channel (peer_policy p)
      in \<lparr>res_Channel = channel, res_Transport = t, res_Policy = peer_policy p, res_Mode = mode,
          res_LocalCandidate = local, res_RemoteCandidate = remote,
          res_MaxMessageSize = lib_max_message B (peer_world p) channel\<rparr>)"

definition peer_on_open :: "('n, 'd, 'c) peer_lib \<Rightarrow> nat \<Rightarrow> ('n, 'd, 'c) peer \<Rightarrow> ('n, 'd, 'c) peer" where
  "peer_on_open B channel p =
     (case map_get (attached p) channel of
        None \<Rightarrow> p
      | Some (pc, t) \<Rightarrow>
          if peer_pc p \<noteq> Some pc \<or> peer_closed p then p
          else
            (let p1 = p\<lparr>peer_transport := Some t\<rparr>;
                 p2 = (if peer_result_done p1 then p1
                       else p1\<lparr>peer_result_done := True, peer_result := peer_result p1 @ [open_result B channel t p1]\<rparr>)
             in on_transport t (start (lib_pion B)) p2))"

section \<open>Signals\<close>

definition flushCandidates :: "('n, 'd, 'c) peer_lib \<Rightarrow> nat \<Rightarrow> ('n, 'd, 'c) peer \<Rightarrow> string option \<times> ('n, 'd, 'c) peer" where
  "flushCandidates B pc p =
     (let (err, w) = add_candidates (lib_pion B) pc (peer_pending p) (peer_world p)
      in (err, p\<lparr>peer_pending := [], peer_world := w\<rparr>))"

definition sendOffer :: "('n, 'd, 'c) peer_lib \<Rightarrow> ('n, 'd, 'c) peer \<Rightarrow> string option \<times> ('n, 'd, 'c) peer" where
  "sendOffer B p =
     (case peer_pc p of
        None \<Rightarrow> (Some ''peer connection is closed'', p)
      | Some pc \<Rightarrow>
          (case pc_create_offer (lib_pion B) pc (peer_world p) of
             (Inl err, w) \<Rightarrow> (Some err, p\<lparr>peer_world := w\<rparr>)
           | (Inr offer, w) \<Rightarrow>
               (case pc_set_local (lib_pion B) pc offer w of
                  (Some err, w1) \<Rightarrow> (Some err, p\<lparr>peer_world := w1\<rparr>)
                | (None, w1) \<Rightarrow> sendSignal B ''offer'' (local_payload B pc w1) (p\<lparr>peer_world := w1\<rparr>))))"

definition set_remote :: "('n, 'd, 'c) peer_lib \<Rightarrow> nat \<Rightarrow> 'd \<Rightarrow> ('n, 'd, 'c) peer \<Rightarrow> string option \<times> ('n, 'd, 'c) peer" where
  "set_remote B pc d p =
     (case pc_set_remote (lib_pion B) pc d (peer_world p) of
        (Some err, w) \<Rightarrow> (Some err, p\<lparr>peer_world := w\<rparr>)
      | (None, w) \<Rightarrow> flushCandidates B pc (p\<lparr>peer_world := w\<rparr>))"

definition send_answer :: "('n, 'd, 'c) peer_lib \<Rightarrow> nat \<Rightarrow> ('n, 'd, 'c) peer \<Rightarrow> string option \<times> ('n, 'd, 'c) peer" where
  "send_answer B pc p =
     (case pc_create_answer (lib_pion B) pc (peer_world p) of
        (Inl err, w) \<Rightarrow> (Some err, p\<lparr>peer_world := w\<rparr>)
      | (Inr answer, w) \<Rightarrow>
          (case pc_set_local (lib_pion B) pc answer w of
             (Some err, w1) \<Rightarrow> (Some err, p\<lparr>peer_world := w1\<rparr>)
           | (None, w1) \<Rightarrow> sendSignal B ''answer'' (local_payload B pc w1) (p\<lparr>peer_world := w1\<rparr>)))"

text \<open>An offer or an answer: read, apply, flush; after an offer the answer is sent.\<close>

definition handle_description ::
  "('n, 'd, 'c) peer_lib \<Rightarrow> bool \<Rightarrow> json option \<Rightarrow> ('n, 'd, 'c) peer \<Rightarrow> string option \<times> ('n, 'd, 'c) peer" where
  "handle_description B is_offer payload p =
     (case Option.bind payload (json_description (lib_pion B)) of
        None \<Rightarrow> (Some ''invalid session description'', p)
      | Some d \<Rightarrow>
          (case peer_pc p of
             None \<Rightarrow> (Some ''peer connection is closed'', p)
           | Some pc \<Rightarrow>
               (if is_offer then on_success (set_remote B pc d p) (send_answer B pc) else set_remote B pc d p)))"

definition handle_ice_candidate ::
  "('n, 'd, 'c) peer_lib \<Rightarrow> json option \<Rightarrow> ('n, 'd, 'c) peer \<Rightarrow> string option \<times> ('n, 'd, 'c) peer" where
  "handle_ice_candidate B payload p =
     (case Option.bind payload (json_candidate (lib_pion B)) of
        None \<Rightarrow> (Some ''invalid candidate'', p)
      | Some candidate \<Rightarrow>
          (case peer_pc p of
             None \<Rightarrow> (None, p)
           | Some pc \<Rightarrow>
               if pc_remote (lib_pion B) (peer_world p) pc = None then
                 (None, p\<lparr>peer_pending := peer_pending p @ [candidate]\<rparr>)
               else
                 (let (err, w) = pc_add_candidate (lib_pion B) pc candidate (peer_world p)
                  in (err, p\<lparr>peer_world := w\<rparr>))))"

definition handle_restart ::
  "('n, 'd, 'c) peer_lib \<Rightarrow> json option \<Rightarrow> ('n, 'd, 'c) peer \<Rightarrow> string option \<times> ('n, 'd, 'c) peer" where
  "handle_restart B payload p =
     (if peer_initiator p then (None, p)
      else
        (let provider = readProvider payload (po_RelayProvider (peer_options p)) in
         case peer_ICE B ''relay'' provider p of
           (Inl _, p1) \<Rightarrow> (None, snd (sendSignal B ''transport_unavailable'' (provider_payload provider) p1))
         | (Inr relay, p1) \<Rightarrow>
             on_success (replaceConnection B relay False p1)
               (sendSignal B ''transport_ready'' (provider_payload provider))))"

definition handle_ready ::
  "('n, 'd, 'c) peer_lib \<Rightarrow> json option \<Rightarrow> ('n, 'd, 'c) peer \<Rightarrow> string option \<times> ('n, 'd, 'c) peer" where
  "handle_ready B payload p =
     (if \<not> peer_initiator p then (None, p)
      else
        (case peer_ICE B ''relay'' (readProvider payload (po_RelayProvider (peer_options p))) p of
           (Inl err, p1) \<Rightarrow> (Some (api_error_text err), p1)
         | (Inr relay, p1) \<Rightarrow> on_success (replaceConnection B relay True p1) (sendOffer B)))"

definition handleSignal :: "('n, 'd, 'c) peer_lib \<Rightarrow> signal \<Rightarrow> ('n, 'd, 'c) peer \<Rightarrow> string option \<times> ('n, 'd, 'c) peer" where
  "handleSignal B message p =
     (let kind = sig_Type message; payload = sig_Payload message in
      if kind = ''peer_joined'' then
        (if peer_initiator p then sendOffer B (p\<lparr>peer_started := True\<rparr>) else (None, p))
      else if kind = ''offer'' then handle_description B True payload p
      else if kind = ''answer'' then handle_description B False payload p
      else if kind = ''ice_candidate'' then handle_ice_candidate B payload p
      else if kind = ''transport_restart'' then handle_restart B payload p
      else if kind = ''transport_ready'' then handle_ready B payload p
      else if kind = ''transport_unavailable'' then (Some ''the remote peer cannot use TURN'', p)
      else if kind = ''direct_failed'' then (Some ''Direct P2P failed'', p)
      else if kind = ''peer_left'' then (Some ''peer disconnected'', p)
      else if kind = ''error'' then
        (Some (if sig_Message message \<noteq> [] then sig_Message message else ''signaling server rejected the connection''), p)
      else (None, p))"

text \<open>The signal loop: which case of its \<open>select\<close> runs when several are ready is open.\<close>

datatype signal_case = TakeSignal | SignalsClosed | SignalError | SignalContext

definition socket_inbox :: "('n, 'd, 'c) peer \<Rightarrow> signal inbox" where
  "socket_inbox p = sgn_inbox (peer_socket p)"

definition put_inbox :: "signal inbox \<Rightarrow> ('n, 'd, 'c) peer \<Rightarrow> ('n, 'd, 'c) peer" where
  "put_inbox i p = p\<lparr>peer_socket := (peer_socket p)\<lparr>sgn_inbox := i\<rparr>\<rparr>"

definition signal_ready :: "signal_case \<Rightarrow> ('n, 'd, 'c) peer \<Rightarrow> bool" where
  "signal_ready k p \<longleftrightarrow> peer_loop p \<and>
     (case k of
        TakeSignal \<Rightarrow> inbox_messages (socket_inbox p) \<noteq> []
      | SignalsClosed \<Rightarrow> inbox_messages (socket_inbox p) = [] \<and> inbox_closed (socket_inbox p)
      | SignalError \<Rightarrow> inbox_errors (socket_inbox p) \<noteq> []
      | SignalContext \<Rightarrow> True)"

definition signal_turn :: "('n, 'd, 'c) peer_lib \<Rightarrow> signal_case \<Rightarrow> ('n, 'd, 'c) peer \<Rightarrow> ('n, 'd, 'c) peer" where
  "signal_turn B k p =
     (let i = socket_inbox p in
      case k of
        TakeSignal \<Rightarrow>
          (case handleSignal B (hd (inbox_messages i)) (put_inbox (i\<lparr>inbox_messages := tl (inbox_messages i)\<rparr>) p) of
             (None, p1) \<Rightarrow> p1
           | (Some err, p1) \<Rightarrow> (peer_fail err p1)\<lparr>peer_loop := False\<rparr>)
      | SignalsClosed \<Rightarrow> p\<lparr>peer_loop := False\<rparr>
      | SignalError \<Rightarrow>
          (peer_fail (''signaling disconnected: '' @ hd (inbox_errors i))
             (put_inbox (i\<lparr>inbox_errors := tl (inbox_errors i)\<rparr>) p))\<lparr>peer_loop := False\<rparr>
      | SignalContext \<Rightarrow> p\<lparr>peer_loop := False\<rparr>)"

section \<open>Closing\<close>

definition Close_peer :: "('n, 'd, 'c) peer_lib \<Rightarrow> ('n, 'd, 'c) peer \<Rightarrow> ('n, 'd, 'c) peer" where
  "Close_peer B p =
     (if peer_closed p then p
      else
        (let p1 = p\<lparr>peer_closed := True, peer_pc := None, peer_signaling := False, peer_transport := None\<rparr>;
             p2 = (if peer_signaling p then
                     (let (_, s, w) = Close_signaling (lib_ws B) (peer_socket p1) (peer_world p1)
                      in p1\<lparr>peer_socket := s, peer_world := w\<rparr>)
                   else p1);
             p3 = (case peer_pc p of None \<Rightarrow> p2 | Some pc \<Rightarrow> on_world (pc_close (lib_pion B) pc) p2);
             p4 = (case peer_transport p of None \<Rightarrow> p3 | Some t \<Rightarrow> on_transport t (\<lambda>c. snd (Close (lib_pion B) c)) p3)
         in closeMux B p4))"

section \<open>Statistics\<close>

text \<open>Durations are positive here, and so are their sums.\<close>

definition f64_plus :: "fraction \<Rightarrow> fraction \<Rightarrow> fraction" where
  "f64_plus x y = f64 (fst x * snd y + fst y * snd x) (snd x * snd y)"

definition add_pair :: "(fraction \<times> nat) \<times> connection_stats \<Rightarrow> pair_stats \<Rightarrow> (fraction \<times> nat) \<times> connection_stats" where
  "add_pair acc pair =
     (let ((total, samples), st) = acc in
      if \<not> pst_Succeeded pair \<or> \<not> pst_Nominated pair then acc
      else
        (if fst (pst_RTT pair) > 0
         then (f64_plus total (f64_mult (pst_RTT pair) (f64_of_int 1000)), Suc samples) else (total, samples),
         st\<lparr>cst_BytesSent := cst_BytesSent st + pst_BytesSent pair,
            cst_BytesReceived := cst_BytesReceived st + pst_BytesReceived pair,
            cst_PacketsDiscardedOnSend := cst_PacketsDiscardedOnSend st + ucast (pst_PacketsDiscardedOnSend pair)\<rparr>))"

definition Stats :: "('n, 'd, 'c) peer_lib \<Rightarrow> ('n, 'd, 'c) peer \<Rightarrow> connection_stats" where
  "Stats B p =
     (let primary = (case peer_pc p of None \<Rightarrow> [] | Some pc \<Rightarrow> [pc]);
          secondary = (case peer_transport p of None \<Rightarrow> []
            | Some t \<Rightarrow> secondaryPeerConnections (lib_pion B) ((transports p t)\<lparr>world := peer_world p\<rparr>));
          connections = primary @ secondary;
          ((total, samples), st) = foldl add_pair
            ((f64_of_int 0, 0), \<lparr>cst_Connections = length connections, cst_CurrentRTTMilliseconds = f64_of_int 0,
               cst_BytesSent = 0, cst_BytesReceived = 0, cst_PacketsDiscardedOnSend = 0\<rparr>)
            (concat (map (lib_stats B (peer_world p)) connections))
      in if samples > 0 then st\<lparr>cst_CurrentRTTMilliseconds := f64_div total (f64_of_int (int samples))\<rparr> else st)"

section \<open>Connecting\<close>

text \<open>The waits of \<open>Connect\<close> and what ends them.\<close>

datatype connect_phase = AwaitStart | AwaitDirect | AwaitRelay | AwaitPeer
datatype connect_case = TakeResult | TakeError | TakeStarted | ConnectTimer | ConnectContext string
datatype connect_state = Connecting connect_phase | Connected peer_result | ConnectFailed string

definition open_mux :: "('n, 'd, 'c) peer_lib \<Rightarrow> ('n, 'd, 'c) peer \<Rightarrow> string option \<times> ('n, 'd, 'c) peer" where
  "open_mux B p =
     (if po_UDPPort (peer_options p) > 0 then
        (case lib_mux_open B (po_UDPPort (peer_options p)) (po_UDPBufferSize (peer_options p)) (peer_world p) of
           (Inl err, w) \<Rightarrow>
             (Some (''listen UDP port '' @ int_text (po_UDPPort (peer_options p)) @ '': '' @ err), p\<lparr>peer_world := w\<rparr>)
         | (Inr mux, w) \<Rightarrow> (None, p\<lparr>peer_udpMux := Some mux, peer_world := w\<rparr>))
      else (None, p))"

definition connect_begin :: "('n, 'd, 'c) peer_lib \<Rightarrow> ('n, 'd, 'c) peer \<Rightarrow> connect_state \<times> ('n, 'd, 'c) peer" where
  "connect_begin B p =
     (case peer_ICE B ''direct'' [] p of
        (Inl err, p1) \<Rightarrow> (ConnectFailed (api_error_text err), p1)
      | (Inr direct, p1) \<Rightarrow>
          (case open_mux B p1 of
             (Some err, p2) \<Rightarrow> (ConnectFailed err, p2)
           | (None, p2) \<Rightarrow>
               (case replaceConnection B direct (peer_initiator p2) p2 of
                  (Some err, p3) \<Rightarrow> (ConnectFailed err, closeMux B p3)
                | (None, p3) \<Rightarrow>
                    (case Dial_signaling (lib_web B) (lib_ws B) (peer_client p3) (peer_creds p3) (peer_world p3) of
                       (Inl err, w) \<Rightarrow>
                         (ConnectFailed (''connect signaling: '' @ err), Close_peer B (p3\<lparr>peer_world := w\<rparr>))
                     | (Inr s, w) \<Rightarrow>
                         (Connecting (if peer_initiator p3 then AwaitStart else AwaitPeer),
                          p3\<lparr>peer_world := w, peer_socket := s, peer_signaling := True, peer_loop := True\<rparr>)))))"

definition connect_ready :: "connect_case \<Rightarrow> connect_phase \<Rightarrow> ('n, 'd, 'c) peer \<Rightarrow> bool" where
  "connect_ready k ph p \<longleftrightarrow>
     (case k of
        TakeResult \<Rightarrow> peer_result p \<noteq> []
      | TakeError \<Rightarrow> peer_errors p \<noteq> []
      | TakeStarted \<Rightarrow> ph = AwaitStart \<and> peer_started p
      | ConnectTimer \<Rightarrow> ph = AwaitDirect \<or> ph = AwaitRelay
      | ConnectContext _ \<Rightarrow> True)"

definition connect_turn ::
  "('n, 'd, 'c) peer_lib \<Rightarrow> connect_case \<Rightarrow> connect_phase \<Rightarrow> ('n, 'd, 'c) peer \<Rightarrow> connect_state \<times> ('n, 'd, 'c) peer" where
  "connect_turn B k ph p =
     (case k of
        TakeResult \<Rightarrow> (Connected (hd (peer_result p)), p\<lparr>peer_result := tl (peer_result p)\<rparr>)
      | TakeError \<Rightarrow> (ConnectFailed (hd (peer_errors p)), p\<lparr>peer_errors := tl (peer_errors p)\<rparr>)
      | TakeStarted \<Rightarrow> (Connecting AwaitDirect, p)
      | ConnectTimer \<Rightarrow>
          if ph = AwaitRelay then (ConnectFailed ''TURN connection timed out'', p)
          else if po_AllowRelay (peer_options p) then
            (Connecting AwaitRelay,
             case beginRelay B p of (Some err, p1) \<Rightarrow> peer_fail err p1 | (None, p1) \<Rightarrow> p1)
          else (ConnectFailed ''Direct P2P connection timed out'', p)
      | ConnectContext err \<Rightarrow> (ConnectFailed err, p))"

end
