(* ===== verification/Peer_Safety.thy ===== *)
theory Peer_Safety
  imports Peer Parallel_Safety
begin

text \<open>
  What a peer guarantees in every interleaving of signals, library handlers, \<open>Connect\<close> and
  \<open>Close\<close>: its state stays well formed, candidates wait for the description they belong to, a
  replaced connection has no influence; and one thing it does not: a signal handled after
  \<open>Close\<close> can open a connection nobody closes.
\<close>

section \<open>The peer as a step relation\<close>

inductive peer_step ::
  "('n, 'd, 'c) peer_lib \<Rightarrow> connect_state \<times> ('n, 'd, 'c) peer \<Rightarrow> connect_state \<times> ('n, 'd, 'c) peer \<Rightarrow> bool"
  for B :: "('n, 'd, 'c) peer_lib" where
  arrives: "peer_step B (s, p) (s, put_inbox (signal_read_turn r (socket_inbox p)) p)"
| signals: "signal_ready k p \<Longrightarrow> peer_step B (s, p) (s, signal_turn B k p)"
| candidates: "map_get (watched p) pc \<noteq> None \<Longrightarrow> peer_step B (s, p) (s, peer_on_candidate B pc c p)"
| failed: "map_get (watched p) pc \<noteq> None \<Longrightarrow> peer_step B (s, p) (s, peer_on_failed B pc p)"
| channels: "map_get (watched p) pc \<noteq> None \<Longrightarrow> peer_step B (s, p) (s, peer_on_channel B pc channel p)"
| opened: "map_get (attached p) channel \<noteq> None \<Longrightarrow> peer_step B (s, p) (s, peer_on_open B channel p)"
| errors: "map_get (attached p) channel \<noteq> None \<Longrightarrow> peer_step B (s, p) (s, peer_on_error err p)"
| connects: "connect_ready k ph p \<Longrightarrow> peer_step B (Connecting ph, p) (connect_turn B k ph p)"
| closes: "peer_step B (s, p) (s, Close_peer B p)"
| others: "peer_step B (s, p) (s, p\<lparr>peer_world := w\<rparr>)"

section \<open>Well-formed peers\<close>

text \<open>The logical channels: each attached one exists, also the current one, and then a connection is
  current; the current connection has its handlers.\<close>

definition channels_ok :: "('n, 'd, 'c) peer \<Rightarrow> bool" where
  "channels_ok p \<longleftrightarrow> (\<forall>(channel, pc, t) \<in> set (attached p). t < next_transport p)
     \<and> (\<forall>r \<in> set (peer_result p). res_Transport r < next_transport p)
     \<and> (\<forall>t. peer_transport p = Some t \<longrightarrow> t < next_transport p \<and> peer_pc p \<noteq> None \<and> \<not> peer_closed p)
     \<and> (\<forall>pc. peer_pc p = Some pc \<longrightarrow> map_get (watched p) pc \<noteq> None)"

text \<open>The buffered channels: each holds at most one value, and holds one only after its \<open>Once\<close>.\<close>

definition once_ok :: "('n, 'd, 'c) peer \<Rightarrow> bool" where
  "once_ok p \<longleftrightarrow> length (peer_result p) \<le> 1 \<and> (peer_result p = [] \<or> peer_result_done p)
     \<and> length (peer_errors p) \<le> 1 \<and> (peer_errors p = [] \<or> peer_error_done p)
     \<and> (peer_closed p \<longrightarrow> \<not> peer_signaling p)"

definition peer_ok :: "('n, 'd, 'c) peer \<Rightarrow> bool" where
  "peer_ok p \<longleftrightarrow> channels_ok p \<and> once_ok p"

text \<open>The frame: steps that change at most the world, the pending candidates, flags of the relay and
  the socket.\<close>

definition same_peer :: "('n, 'd, 'c) peer \<Rightarrow> ('n, 'd, 'c) peer \<Rightarrow> bool" where
  "same_peer p p' \<longleftrightarrow> attached p' = attached p \<and> next_transport p' = next_transport p
     \<and> peer_result p' = peer_result p \<and> peer_transport p' = peer_transport p \<and> peer_pc p' = peer_pc p
     \<and> peer_closed p' = peer_closed p \<and> peer_result_done p' = peer_result_done p
     \<and> peer_errors p' = peer_errors p \<and> peer_error_done p' = peer_error_done p
     \<and> peer_signaling p' = peer_signaling p \<and> watched p' = watched p"

lemma same_peer_refl [simp]: "same_peer p p"
  by (simp add: same_peer_def)

lemma same_peer_trans [trans]: "same_peer p q \<Longrightarrow> same_peer q r \<Longrightarrow> same_peer p r"
  by (simp add: same_peer_def)

lemma same_peer_ok: "same_peer p p' \<Longrightarrow> peer_ok p \<Longrightarrow> peer_ok p'"
  by (simp add: same_peer_def peer_ok_def channels_ok_def once_ok_def)

named_theorems peer_frames \<open>operations that leave the parts of the invariant alone\<close>

lemma same_sendSignal [peer_frames]: "same_peer p (snd (sendSignal B kind payload p))"
  by (simp add: sendSignal_def same_peer_def split: prod.split)

lemma same_peer_ICE [peer_frames]: "same_peer p (snd (peer_ICE B mode provider p))"
  by (simp add: peer_ICE_def same_peer_def split: prod.split)

lemma same_on_transport [peer_frames]: "same_peer p (on_transport t f p)"
  by (simp add: on_transport_def Let_def same_peer_def)

lemma same_on_world [peer_frames]: "same_peer p (on_world f p)"
  by (simp add: on_world_def same_peer_def)

lemma same_put_inbox [peer_frames]: "same_peer p (put_inbox i p)"
  by (simp add: put_inbox_def same_peer_def)

lemma same_closeMux [peer_frames]: "same_peer p (closeMux B p)"
  by (simp add: closeMux_def same_peer_def split: option.split)

lemma same_close_previous [peer_frames]: "same_peer p (close_previous B t pc p)"
proof -
  define q where "q = (case t of None \<Rightarrow> p | Some t \<Rightarrow> on_transport t (\<lambda>c. snd (Close (lib_pion B) c)) p)"
  have "same_peer p q" by (simp add: q_def same_on_transport split: option.split)
  moreover have "same_peer q (close_previous B t pc p)"
    by (simp add: close_previous_def q_def [symmetric] same_on_world split: option.split)
  ultimately show ?thesis by (rule same_peer_trans)
qed

lemma same_flush [peer_frames]: "same_peer p (snd (flushCandidates B pc p))"
  by (simp add: flushCandidates_def same_peer_def split: prod.split)

lemma same_set_remote [peer_frames]: "same_peer p (snd (set_remote B pc d p))"
proof (cases "pc_set_remote (lib_pion B) pc d (peer_world p)")
  case (Pair e w)
  have "same_peer p (p\<lparr>peer_world := w\<rparr>)" by (simp add: same_peer_def)
  then show ?thesis
    using Pair same_peer_trans [OF _ same_flush] by (cases e) (auto simp: set_remote_def)
qed

lemma same_send_answer [peer_frames]: "same_peer p (snd (send_answer B pc p))"
proof -
  have w: "same_peer p (p\<lparr>peer_world := w\<rparr>)" for w by (simp add: same_peer_def)
  show ?thesis
    using w same_peer_trans [OF w same_sendSignal]
    by (auto simp: send_answer_def split: prod.splits sum.splits option.splits)
qed

lemma same_sendOffer [peer_frames]: "same_peer p (snd (sendOffer B p))"
proof -
  have w: "same_peer p (p\<lparr>peer_world := w\<rparr>)" for w by (simp add: same_peer_def)
  show ?thesis
    using w same_peer_trans [OF w same_sendSignal]
    by (auto simp: sendOffer_def split: prod.splits sum.splits option.splits)
qed

lemma same_description [peer_frames]: "same_peer p (snd (handle_description B is_offer payload p))"
proof -
  have s: "same_peer p (snd (on_success (set_remote B pc d p) (send_answer B pc)))" for pc d
  proof (cases "set_remote B pc d p")
    case (Pair e q)
    then have "same_peer p q" using same_set_remote [of p B pc d] by simp
    then show ?thesis using Pair same_peer_trans [OF _ same_send_answer] by (cases e) auto
  qed
  show ?thesis
    by (auto simp: handle_description_def s same_set_remote split: option.split)
qed

lemma same_ice_candidate [peer_frames]: "same_peer p (snd (handle_ice_candidate B payload p))"
  by (simp add: handle_ice_candidate_def same_peer_def split: option.split prod.split)

lemma same_beginRelay [peer_frames]: "same_peer p (snd (beginRelay B p))"
proof -
  define p1 where "p1 = p\<lparr>peer_relayStarted := True\<rparr>"
  have 1: "same_peer p p1" by (simp add: p1_def same_peer_def)
  obtain r p2 where 2: "peer_ICE B ''relay'' (po_RelayProvider (peer_options p)) p1 = (r, p2)" by fastforce
  have "same_peer p1 p2" using same_peer_ICE [of p1 B] 2 by (metis snd_conv)
  then have "same_peer p p2" using 1 same_peer_trans by blast
  then show ?thesis
    using 1 2 same_peer_trans [OF _ same_sendSignal]
    by (auto simp: beginRelay_def Let_def p1_def [symmetric] split: sum.split)
qed

lemma same_on_candidate [peer_frames]: "same_peer p (peer_on_candidate B pc c p)"
  by (simp add: peer_on_candidate_def same_sendSignal split: option.split)

section \<open>Operations that change more\<close>

lemma ok_fail: "peer_ok p \<Longrightarrow> peer_ok (peer_fail err p)"
  by (auto simp: peer_ok_def peer_fail_def channels_ok_def once_ok_def)

lemma peer_ok_attach: "peer_ok p \<Longrightarrow> peer_ok (attachChannel B pc channel priority configuration p)"
proof -
  assume ok: "peer_ok p"
  show ?thesis
  proof (cases "dc_label (lib_pion B) (peer_world p) channel = ''quickdrop-data''")
    case True
    have "set (map_put channel (pc, next_transport p) (attached p))
        \<subseteq> insert (channel, pc, next_transport p) (set (attached p))"
      by (rule map_put_subset)
    with ok True show ?thesis
      by (fastforce simp: attachChannel_def Let_def peer_ok_def channels_ok_def once_ok_def)
  qed (use same_peer_ok [OF same_on_world ok] in \<open>simp add: attachChannel_def\<close>)
qed

lemma peer_ok_fields: "peer_ok (p\<lparr>peer_world := w\<rparr>) = peer_ok p"
  "peer_ok (p\<lparr>peer_loop := l\<rparr>) = peer_ok p" "peer_ok (p\<lparr>peer_started := l\<rparr>) = peer_ok p"
  by (simp_all add: peer_ok_def channels_ok_def once_ok_def)

text \<open>The current connection is replaced, its channel and candidates are dropped.\<close>

lemma switched: "\<exists>p1. switch_connection B configuration pc priority p
      = p1\<lparr>watched := map_put pc (priority, configuration) (watched p)\<rparr>
    \<and> same_peer (p\<lparr>peer_pc := Some pc, peer_transport := None, peer_policy := ice_Policy configuration, peer_pending := []\<rparr>) p1"
  using same_close_previous [of "p\<lparr>peer_pc := Some pc, peer_transport := None, peer_policy := ice_Policy configuration,
      peer_pending := []\<rparr>" B "peer_transport p" "peer_pc p"]
  by (auto simp: switch_connection_def Let_def same_peer_def)

lemma ok_switch: "peer_ok p \<Longrightarrow> peer_ok (switch_connection B configuration pc priority p)"
proof -
  assume ok: "peer_ok p"
  obtain p1 where e: "switch_connection B configuration pc priority p
      = p1\<lparr>watched := map_put pc (priority, configuration) (watched p)\<rparr>"
    and s: "same_peer (p\<lparr>peer_pc := Some pc, peer_transport := None, peer_policy := ice_Policy configuration,
      peer_pending := []\<rparr>) p1"
    using switched by blast
  from s ok show ?thesis unfolding e by (simp add: same_peer_def peer_ok_def channels_ok_def once_ok_def)
qed

lemma ok_create_channel: "peer_ok p \<Longrightarrow> peer_ok (snd (create_channel B configuration pc priority p))"
  by (simp add: create_channel_def peer_ok_fields peer_ok_attach split: prod.split sum.split)

lemma ok_replaceConnection: "peer_ok p \<Longrightarrow> peer_ok (snd (replaceConnection B configuration create p))"
  by (simp add: replaceConnection_def newPeerConnection_def Let_def peer_ok_fields ok_switch ok_create_channel
      split: prod.split sum.split)

lemma replace_closed: "peer_closed (snd (replaceConnection B configuration create p)) = peer_closed p"
proof -
  have "peer_closed (close_previous B t pc q) = peer_closed q" for t pc q
    using same_close_previous [of q B t pc] by (simp add: same_peer_def)
  moreover have "peer_closed (on_world f q) = peer_closed q" for f and q :: "('a, 'b, 'c) peer" by (simp add: on_world_def)
  ultimately show ?thesis
    by (simp add: replaceConnection_def switch_connection_def create_channel_def newPeerConnection_def attachChannel_def Let_def split: prod.split sum.split)
qed

lemma ok_on_failed: "peer_ok p \<Longrightarrow> peer_ok (peer_on_failed B pc p)"
proof (cases "beginRelay B p")
  case (Pair e q)
  assume "peer_ok p"
  moreover have "peer_ok q" using same_peer_ok [OF same_beginRelay] calculation Pair by (metis snd_conv)
  ultimately show ?thesis using Pair by (auto simp: peer_on_failed_def ok_fail split: option.split)
qed

lemma ok_on_open:
  assumes ok: "peer_ok p"
  shows "peer_ok (peer_on_open B channel p)"
proof (cases "map_get (attached p) channel")
  case (Some v)
  obtain pc t where v: "v = (pc, t)" by (cases v)
  show ?thesis
  proof (cases "peer_pc p \<noteq> Some pc \<or> peer_closed p")
    case True
    then show ?thesis using ok Some v by (auto simp: peer_on_open_def)
  next
    case False
    define p1 where "p1 = p\<lparr>peer_transport := Some t\<rparr>"
    define p2 where "p2 = (if peer_result_done p1 then p1
      else p1\<lparr>peer_result_done := True, peer_result := peer_result p1 @ [open_result B channel t p1]\<rparr>)"
    have "(channel, pc, t) \<in> set (attached p)" using Some v by (simp add: map_of_SomeD)
    then have t: "t < next_transport p" using ok by (auto simp: peer_ok_def channels_ok_def)
    have r: "res_Transport (open_result B channel t p1) = t" by (simp add: open_result_def split: prod.split)
    have "peer_ok p2"
      using ok t r False by (auto simp: p2_def p1_def peer_ok_def channels_ok_def once_ok_def)
    then have "peer_ok (on_transport t (start (lib_pion B)) p2)" by (rule same_peer_ok [OF same_on_transport])
    moreover have "peer_on_open B channel p = on_transport t (start (lib_pion B)) p2"
      using False Some v by (simp add: peer_on_open_def Let_def p2_def p1_def)
    ultimately show ?thesis by simp
  qed
qed (use ok in \<open>simp add: peer_on_open_def\<close>)

lemma ok_on_success:
  assumes "peer_ok (snd r)" "\<And>q. peer_ok q \<Longrightarrow> peer_ok (snd (g q))"
  shows "peer_ok (snd (on_success r g))"
  using assms by (cases r; cases "fst r") auto

lemma ok_handleSignal:
  assumes ok: "peer_ok p"
  shows "peer_ok (snd (handleSignal B message p))"
proof -
  have ice: "peer_ok q" if "peer_ICE B mode provider p = (r, q)" for mode provider r q
    using same_peer_ok [OF same_peer_ICE ok] that by (metis snd_conv)
  have switched: "peer_ok (snd (on_success (replaceConnection B c b q) g))"
    if "peer_ok q" "\<And>q. same_peer q (snd (g q))" for c b q g
    using that by (blast intro: ok_on_success ok_replaceConnection same_peer_ok)
  have rest: "peer_ok (snd (handle_restart B payload p))" for payload
  proof (cases "peer_ICE B ''relay'' (readProvider payload (po_RelayProvider (peer_options p))) p")
    case (Pair r q)
    then show ?thesis
      using ok ice [OF Pair] switched same_peer_ok [OF same_sendSignal [of q] ice [OF Pair]]
      by (cases r) (simp_all add: handle_restart_def same_sendSignal)
  qed
  have ready: "peer_ok (snd (handle_ready B payload p))" for payload
  proof (cases "peer_ICE B ''relay'' (readProvider payload (po_RelayProvider (peer_options p))) p")
    case (Pair r q)
    then show ?thesis
      using ok ice [OF Pair] switched by (cases r) (simp_all add: handle_ready_def same_sendOffer)
  qed
  have "peer_ok (p\<lparr>peer_started := True\<rparr>)" using ok by (simp add: peer_ok_fields)
  then show ?thesis
    unfolding handleSignal_def Let_def
    using ok rest ready same_peer_ok [OF same_description ok] same_peer_ok [OF same_ice_candidate ok]
      same_peer_ok [OF same_sendOffer [of "p\<lparr>peer_started := True\<rparr>" B]]
    by simp
qed

lemma ok_signal_turn:
  assumes ok: "peer_ok p"
  shows "peer_ok (signal_turn B k p)"
proof (cases k)
  case TakeSignal
  define q where "q = put_inbox ((socket_inbox p)\<lparr>inbox_messages := tl (inbox_messages (socket_inbox p))\<rparr>) p"
  obtain e q' where s: "handleSignal B (hd (inbox_messages (socket_inbox p))) q = (e, q')" by fastforce
  have "peer_ok q" using same_peer_ok [OF same_put_inbox ok] by (simp add: q_def)
  then have "peer_ok q'" using ok_handleSignal s by (metis snd_conv)
  then show ?thesis
    using s by (cases e) (simp_all add: TakeSignal signal_turn_def Let_def q_def [symmetric] peer_ok_fields ok_fail)
qed (use ok same_peer_ok [OF same_put_inbox ok] in \<open>simp_all add: signal_turn_def Let_def peer_ok_fields ok_fail\<close>)

lemma ok_Close_peer: "peer_ok p \<Longrightarrow> peer_ok (Close_peer B p)"
proof -
  assume ok: "peer_ok p"
  define p1 where "p1 = p\<lparr>peer_closed := True, peer_pc := None, peer_signaling := False, peer_transport := None\<rparr>"
  define p2 where "p2 = (if peer_signaling p then
       (let (_, s, w) = Close_signaling (lib_ws B) (peer_socket p1) (peer_world p1) in p1\<lparr>peer_socket := s, peer_world := w\<rparr>)
     else p1)"
  define p3 where "p3 = (case peer_pc p of None \<Rightarrow> p2 | Some pc \<Rightarrow> on_world (pc_close (lib_pion B) pc) p2)"
  define p4 where "p4 = (case peer_transport p of None \<Rightarrow> p3 | Some t \<Rightarrow> on_transport t (\<lambda>c. snd (Close (lib_pion B) c)) p3)"
  have "peer_ok p1" using ok by (auto simp: p1_def peer_ok_def channels_ok_def once_ok_def)
  moreover have "same_peer p1 p2" by (simp add: p2_def same_peer_def split: prod.split)
  moreover have "same_peer p2 p3" by (simp add: p3_def same_on_world split: option.split)
  moreover have "same_peer p3 p4" by (simp add: p4_def same_on_transport split: option.split)
  ultimately have "peer_ok (closeMux B p4)" using same_peer_ok same_closeMux by metis
  moreover have "Close_peer B p = (if peer_closed p then p else closeMux B p4)"
    by (simp only: Close_peer_def Let_def p4_def p3_def p2_def p1_def)
  ultimately show ?thesis using ok by simp
qed

lemma ok_connect_turn:
  assumes ok: "peer_ok p"
  shows "peer_ok (snd (connect_turn B k ph p))"
proof -
  obtain e q where b: "beginRelay B p = (e, q)" by fastforce
  have "peer_ok q" using same_peer_ok [OF same_beginRelay ok] b by (metis snd_conv)
  moreover have "peer_ok (p\<lparr>peer_result := tl (peer_result p)\<rparr>)" "peer_ok (p\<lparr>peer_errors := tl (peer_errors p)\<rparr>)"
    using ok by (cases "peer_result p"; cases "peer_errors p"; auto simp: peer_ok_def channels_ok_def once_ok_def)+
  ultimately show ?thesis
    using ok b by (auto simp: connect_turn_def ok_fail split: connect_case.split option.split)
qed

lemma peer_ok_step: "peer_step B s t \<Longrightarrow> peer_ok (snd s) \<Longrightarrow> peer_ok (snd t)"
  by (induction rule: peer_step.induct)
     (simp_all add: same_peer_ok [OF same_put_inbox] ok_signal_turn same_peer_ok [OF same_on_candidate]
        ok_on_failed ok_on_open ok_fail ok_connect_turn ok_Close_peer peer_ok_fields peer_on_error_def peer_on_channel_def
        peer_ok_attach split: option.split)

section \<open>The contract of a peer\<close>

text \<open>A run starts after the part of \<open>Connect\<close> before its first wait.\<close>

definition peer_init :: "('n, 'd, 'c) peer_lib \<Rightarrow> connect_state \<times> ('n, 'd, 'c) peer \<Rightarrow> bool" where
  "peer_init B s \<longleftrightarrow> (\<exists>c cr initiator opts w. s = connect_begin B (New_peer c cr initiator opts w))"

lemma ok_new_peer: "peer_ok (New_peer c cr initiator opts w)"
  by (simp add: New_peer_def peer_ok_def channels_ok_def once_ok_def)

lemma ok_connect_begin:
  assumes ok: "peer_ok p" and n: "\<not> peer_closed p"
  shows "peer_ok (snd (connect_begin B p))"
proof -
  obtain r p1 where 1: "peer_ICE B ''direct'' [] p = (r, p1)" by fastforce
  have s1: "same_peer p p1" using same_peer_ICE [of p B] 1 by (metis snd_conv)
  obtain e p2 where 2: "open_mux B p1 = (e, p2)" by fastforce
  have "same_peer p1 (snd (open_mux B p1))"
    by (simp add: open_mux_def same_peer_def split: prod.split sum.split)
  then have s2: "same_peer p p2" using s1 2 same_peer_trans by (metis snd_conv)
  have ok2: "peer_ok p1" "peer_ok p2" using s1 s2 ok same_peer_ok by blast+
  show ?thesis
  proof (cases "(\<exists>err. r = Inl err) \<or> (\<exists>err. e = Some err)")
    case True
    then show ?thesis using ok2 1 2 by (auto simp: connect_begin_def split: sum.split option.split)
  next
    case False
    then obtain direct where d: "r = Inr direct" "e = None" by (cases r; cases e) auto
    obtain e3 p3 where 3: "replaceConnection B direct (peer_initiator p2) p2 = (e3, p3)" by fastforce
    have ok3: "peer_ok p3" using ok_replaceConnection [OF ok2(2)] 3 by (metis snd_conv)
    have c3: "\<not> peer_closed p3"
      using replace_closed [of B direct "peer_initiator p2" p2] 3 s2 n by (simp add: same_peer_def)
    obtain q w where 4: "Dial_signaling (lib_web B) (lib_ws B) (peer_client p3) (peer_creds p3) (peer_world p3) = (q, w)" by fastforce
    have "peer_ok (closeMux B p3)" "peer_ok (Close_peer B (p3\<lparr>peer_world := w\<rparr>))"
      using ok3 same_peer_ok [OF same_closeMux] by (simp_all add: ok_Close_peer peer_ok_fields)
    moreover have "peer_ok (p3\<lparr>peer_world := w, peer_socket := s, peer_signaling := True, peer_loop := True\<rparr>)" for s
      using ok3 c3 by (simp add: peer_ok_def channels_ok_def once_ok_def)
    ultimately show ?thesis
      using 1 2 d 3 4 by (simp add: connect_begin_def split: option.split sum.split)
  qed
qed

lemma peer_init_ok: "peer_init B s \<Longrightarrow> peer_ok (snd s)"
proof -
  have "\<not> peer_closed (New_peer c cr initiator opts w :: ('a, 'b, 'c) peer)" for c cr initiator opts and w :: 'a
    by (simp add: New_peer_def)
  then show "peer_init B s \<Longrightarrow> peer_ok (snd s)"
    using ok_connect_begin [OF ok_new_peer] by (fastforce simp: peer_init_def)
qed

interpretation peers: transition_system "peer_init B" "peer_step B" "\<lambda>s. peer_ok (snd s)" for B
  by unfold_locales (blast intro: peer_init_ok peer_ok_step)+

end
