(* ===== verification/Peer_Properties.thy ===== *)
theory Peer_Properties
  imports Peer_Safety Api_Safety
begin

text \<open>
  The properties of \<open>src/webrtc/peer.go\<close>, with a library of constants on which each can hold, and
  the connection that is opened after \<open>Close\<close>.
\<close>

section \<open>Candidates and descriptions\<close>

text \<open>The signal loop over messages that are ready, until the first error.\<close>

fun handle_signals :: "('n, 'd, 'c) peer_lib \<Rightarrow> signal list \<Rightarrow> ('n, 'd, 'c) peer \<Rightarrow> string option \<times> ('n, 'd, 'c) peer" where
  "handle_signals B [] p = (None, p)"
| "handle_signals B (m # ms) p = on_success (handleSignal B m p) (handle_signals B ms)"

definition candidate_signal :: "('n, 'd, 'c) peer_lib \<Rightarrow> 'c \<Rightarrow> signal" where
  "candidate_signal B c = zero_signal\<lparr>sig_Version := 1, sig_Type := ''ice_candidate'',
     sig_Payload := Some (candidate_json (lib_pion B) c)\<rparr>"

definition answer_signal :: "('n, 'd, 'c) peer_lib \<Rightarrow> 'd \<Rightarrow> signal" where
  "answer_signal B d = zero_signal\<lparr>sig_Version := 1, sig_Type := ''answer'',
     sig_Payload := Some (description_json (lib_pion B) d)\<rparr>"

text \<open>What \<open>pion\<close> documents: values survive JSON, and a remote description stays.\<close>

definition description_laws :: "('n, 'd, 'c) pion \<Rightarrow> bool" where
  "description_laws P \<longleftrightarrow> (\<forall>c. json_candidate P (candidate_json P c) = Some c)
     \<and> (\<forall>d. json_description P (description_json P d) = Some d)
     \<and> (\<forall>pc d w w1. pc_set_remote P pc d w = (None, w1) \<longrightarrow> pc_remote P w1 pc \<noteq> None)
     \<and> (\<forall>pc c w. pc_remote P (snd (pc_add_candidate P pc c w)) pc = pc_remote P w pc)"

lemma handle_signals_append:
  "handle_signals B (xs @ ys) p = on_success (handle_signals B xs p) (handle_signals B ys)"
proof (induction xs arbitrary: p)
  case (Cons m ms)
  show ?case by (cases "handleSignal B m p"; cases "fst (handleSignal B m p)") (auto simp: Cons)
qed simp

lemma handle_candidate: "description_laws (lib_pion B) \<Longrightarrow>
    handleSignal B (candidate_signal B c) p =
      (case peer_pc p of
         None \<Rightarrow> (None, p)
       | Some pc \<Rightarrow>
           if pc_remote (lib_pion B) (peer_world p) pc = None then (None, p\<lparr>peer_pending := peer_pending p @ [c]\<rparr>)
           else (let (err, w) = pc_add_candidate (lib_pion B) pc c (peer_world p) in (err, p\<lparr>peer_world := w\<rparr>)))"
  by (simp add: handleSignal_def candidate_signal_def handle_ice_candidate_def description_laws_def)

lemma early_candidates: "description_laws (lib_pion B) \<Longrightarrow> peer_pc p = Some pc \<Longrightarrow>
    pc_remote (lib_pion B) (peer_world p) pc = None \<Longrightarrow>
    handle_signals B (map (candidate_signal B) cs) p = (None, p\<lparr>peer_pending := peer_pending p @ cs\<rparr>)"
  by (induction cs arbitrary: p) (simp_all add: handle_candidate)

lemma late_candidates: "description_laws (lib_pion B) \<Longrightarrow> peer_pc p = Some pc \<Longrightarrow>
    pc_remote (lib_pion B) (peer_world p) pc \<noteq> None \<Longrightarrow>
    handle_signals B (map (candidate_signal B) cs) p =
      (let (err, w) = add_candidates (lib_pion B) pc cs (peer_world p) in (err, p\<lparr>peer_world := w\<rparr>))"
proof (induction cs arbitrary: p)
  case (Cons c cs)
  obtain err w where a: "pc_add_candidate (lib_pion B) pc c (peer_world p) = (err, w)" by fastforce
  have "pc_remote (lib_pion B) w pc = pc_remote (lib_pion B) (peer_world p) pc"
    using Cons.prems(1) a unfolding description_laws_def by (metis snd_conv)
  then have "pc_remote (lib_pion B) (peer_world (p\<lparr>peer_world := w\<rparr>)) pc \<noteq> None" using Cons.prems(3) by simp
  from Cons.IH [OF Cons.prems(1) _ this] show ?case
    using Cons.prems a by (cases err) (auto simp: handle_candidate split: prod.split)
qed simp

lemma add_candidates_append: "add_candidates P pc (xs @ ys) w =
    (case add_candidates P pc xs w of (Some err, w1) \<Rightarrow> (Some err, w1) | (None, w1) \<Rightarrow> add_candidates P pc ys w1)"
  by (induction xs arbitrary: w) (simp_all split: prod.split option.split)

lemma add_candidates_remote: "description_laws P \<Longrightarrow> add_candidates P pc cs w = (err, w1) \<Longrightarrow>
    pc_remote P w1 pc = pc_remote P w pc"
proof (induction cs arbitrary: w)
  case (Cons c cs)
  have "pc_remote P (snd (pc_add_candidate P pc c w)) pc = pc_remote P w pc"
    using Cons.prems(1) unfolding description_laws_def by blast
  then show ?case using Cons by (auto split: prod.splits option.splits)
qed simp

text \<open>C35: Candidates wait for the description: wherever the answer stands among the candidates of
  the remote side, the connection gets the description first and then every candidate, in the
  order of arrival, until it refuses one; none is lost, none is given twice, and none waits on.\<close>

theorem candidates_wait_for_description:
  assumes laws: "description_laws (lib_pion B)" and pc: "peer_pc p = Some pc"
    and early: "pc_remote (lib_pion B) (peer_world p) pc = None"
    and set: "pc_set_remote (lib_pion B) pc d (peer_world p) = (None, w)"
  shows "handle_signals B (map (candidate_signal B) (take k cs) @ answer_signal B d # map (candidate_signal B) (drop k cs)) p
    = (let (err, w1) = add_candidates (lib_pion B) pc (peer_pending p @ cs) w
       in (err, p\<lparr>peer_pending := [], peer_world := w1\<rparr>))"
proof -
  define p1 where "p1 = p\<lparr>peer_pending := peer_pending p @ take k cs\<rparr>"
  obtain e w1 where a: "add_candidates (lib_pion B) pc (peer_pending p @ take k cs) w = (e, w1)" by fastforce
  define p2 where "p2 = p\<lparr>peer_pending := [], peer_world := w1\<rparr>"
  have answer: "handleSignal B (answer_signal B d) p1 = (e, p2)"
    using laws pc set a
    by (simp add: handleSignal_def answer_signal_def handle_description_def description_laws_def set_remote_def
        flushCandidates_def p1_def p2_def)
  have "pc_remote (lib_pion B) w pc \<noteq> None" using laws set unfolding description_laws_def by blast
  then have "pc_remote (lib_pion B) (peer_world p2) pc \<noteq> None"
    using add_candidates_remote [OF laws a] by (simp add: p2_def)
  from late_candidates [OF laws _ this] have late: "handle_signals B (map (candidate_signal B) (drop k cs)) p2
      = (let (err, w) = add_candidates (lib_pion B) pc (drop k cs) w1 in (err, p2\<lparr>peer_world := w\<rparr>))"
    using pc by (simp add: p2_def)
  have whole: "add_candidates (lib_pion B) pc (peer_pending p @ cs) w
      = (case e of Some err \<Rightarrow> (Some err, w1) | None \<Rightarrow> add_candidates (lib_pion B) pc (drop k cs) w1)"
    using add_candidates_append [where P = "lib_pion B" and pc = pc and xs = "peer_pending p @ take k cs" and ys = "drop k cs" and w = w] a
    by simp
  show ?thesis
    unfolding whole using late by (cases e)
      (auto simp: handle_signals_append early_candidates [OF laws pc early] answer p1_def [symmetric] p2_def
        split: prod.split)
qed

section \<open>A replaced connection\<close>

lemma close_previous_keeps [simp]:
  "peer_pc (close_previous B t pc p) = peer_pc p" "peer_transport (close_previous B t pc p) = peer_transport p"
  "peer_pending (close_previous B t pc p) = peer_pending p" "peer_policy (close_previous B t pc p) = peer_policy p"
  "peer_signaling (close_previous B t pc p) = peer_signaling p"
  by (simp_all add: close_previous_def on_transport_def on_world_def Let_def split: option.split)

lemma attachChannel_keeps [simp]:
  "peer_pc (attachChannel B pc d pr cf p) = peer_pc p" "peer_transport (attachChannel B pc d pr cf p) = peer_transport p"
  "peer_pending (attachChannel B pc d pr cf p) = peer_pending p" "peer_policy (attachChannel B pc d pr cf p) = peer_policy p"
  "peer_signaling (attachChannel B pc d pr cf p) = peer_signaling p"
  by (simp_all add: attachChannel_def on_world_def Let_def)

lemma replaced_state:
  assumes "replaceConnection B configuration create p = (None, q)"
  shows "\<exists>pc w. lib_connect B (peer_settings configuration p) (peer_world p) = (Inr pc, w) \<and> peer_pc q = Some pc
    \<and> peer_transport q = None \<and> peer_pending q = [] \<and> peer_policy q = ice_Policy configuration
    \<and> peer_signaling q = peer_signaling p"
  using assms
  by (auto simp: replaceConnection_def newPeerConnection_def switch_connection_def create_channel_def Let_def
      split: prod.splits sum.splits if_splits)


section \<open>The contract of every run\<close>


section \<open>After \<open>Close\<close>\<close>

theorem restart_after_close:
  assumes ready: "signal_ready TakeSignal p" and closed: "peer_closed p" "\<not> peer_signaling p" "\<not> peer_initiator p"
    and kind: "sig_Type (hd (inbox_messages (socket_inbox p))) = ''transport_restart''"
    and ice: "\<And>provider q. \<exists>relay w. peer_ICE B ''relay'' provider q = (Inr relay, q\<lparr>peer_world := w\<rparr>)"
    and replaces: "\<And>relay q. \<exists>q1. replaceConnection B relay False q = (None, q1) \<and> peer_pc q1 = Some new"
  shows "peer_pc (signal_turn B TakeSignal p) = Some new \<and> Close_peer B (signal_turn B TakeSignal p) = signal_turn B TakeSignal p"
proof -
  define m where "m = hd (inbox_messages (socket_inbox p))"
  define p0 where "p0 = put_inbox ((socket_inbox p)\<lparr>inbox_messages := tl (inbox_messages (socket_inbox p))\<rparr>) p"
  define provider where "provider = readProvider (sig_Payload m) (po_RelayProvider (peer_options p0))"
  obtain relay w where i: "peer_ICE B ''relay'' provider p0 = (Inr relay, p0\<lparr>peer_world := w\<rparr>)" using ice by blast
  obtain q where r: "replaceConnection B relay False (p0\<lparr>peer_world := w\<rparr>) = (None, q)" and q: "peer_pc q = Some new"
    using replaces by blast
  have s: "\<not> peer_signaling q" using replaced_state [OF r] closed by (auto simp: p0_def put_inbox_def)
  have c: "peer_closed q"
    using replace_closed [of B relay False "p0\<lparr>peer_world := w\<rparr>"] r closed by (simp add: p0_def put_inbox_def)
  have "\<not> peer_initiator p0" using closed by (simp add: p0_def put_inbox_def)
  then have "handleSignal B m p0 = (Some ''signaling is not connected'', q)"
    using kind i r s
    by (simp add: handleSignal_def m_def [symmetric] handle_restart_def Let_def provider_def [symmetric] sendSignal_def)
  then have "signal_turn B TakeSignal p = (peer_fail ''signaling is not connected'' q)\<lparr>peer_loop := False\<rparr>"
    by (simp add: signal_turn_def Let_def m_def p0_def)
  then show ?thesis using q c by (simp add: Close_peer_def peer_fail_def)
qed

section \<open>The properties apply\<close>

text \<open>A library of constants: connections are numbered, the remote description and the candidates
  are recorded, the service answers every request with an empty object.\<close>

type_synonym demo_world = "nat \<times> nat option \<times> nat list"

definition demo_library :: "(demo_world, nat, nat) pion" where
  "demo_library =
     \<lparr>dc_is_open = (\<lambda>_ _. True), dc_buffered = (\<lambda>_ _. 0), dc_label = (\<lambda>_ _. ''quickdrop-data''),
      dc_send = (\<lambda>_ _ w. (None, w)), dc_send_text = (\<lambda>_ _ w. (None, w)), dc_set_threshold = (\<lambda>_ _ w. w),
      dc_close = (\<lambda>_ w. (None, w)), new_connection = (\<lambda>w. (Inl ''none'', w)), pc_close = (\<lambda>_ w. w),
      pc_is_closed = (\<lambda>_ _. False), pc_create_channel = (\<lambda>_ _ _ w. (Inr 50, w)),
      pc_create_offer = (\<lambda>_ w. (Inr 1, w)), pc_create_answer = (\<lambda>_ w. (Inr 2, w)), pc_set_local = (\<lambda>_ _ w. (None, w)),
      pc_set_remote = (\<lambda>_ d (n, r, cs). (None, (n, Some d, cs))), pc_local = (\<lambda>_ _. Some 1),
      pc_remote = (\<lambda>(n, r, cs) _. r), pc_add_candidate = (\<lambda>_ c (n, r, cs). (None, (n, r, cs @ [c]))),
      sdp_is_offer = (\<lambda>_. True), sdp_is_answer = (\<lambda>_. True), sdp_length = (\<lambda>_. 0), ice_length = (\<lambda>_. 0),
      description_json = (\<lambda>d. JArr (replicate d JNull)),
      json_description = (\<lambda>v. case v of JArr vs \<Rightarrow> Some (length vs) | _ \<Rightarrow> None),
      candidate_json = (\<lambda>d. JArr (replicate d JNull)),
      json_candidate = (\<lambda>v. case v of JArr vs \<Rightarrow> Some (length vs) | _ \<Rightarrow> None), range_order = (\<lambda>_ ls. ls)\<rparr>"

definition demo_service :: "demo_world web" where
  "demo_service = \<lparr>request_error = (\<lambda>_. None),
     http_do = (\<lambda>_ w. (Inr \<lparr>rsp_StatusCode = 200, rsp_Status = ''OK'', rsp_Body = ''{}''\<rparr>, w)),
     jar_cookies = (\<lambda>_ _. []), read_time = (\<lambda>_. None)\<rparr>"

definition demo_lib :: "(demo_world, nat, nat) peer_lib" where
  "demo_lib = \<lparr>lib_pion = demo_library, lib_web = demo_service,
     lib_ws = \<lparr>ws_dial = (\<lambda>_ _ w. (Inr 7, w)), ws_write_json = (\<lambda>_ _ w. (None, w)), ws_write_close = (\<lambda>_ w. w),
       ws_close = (\<lambda>_ w. (None, w))\<rparr>,
     lib_connect = (\<lambda>_ (n, r, cs). (Inr (Suc n), (Suc n, r, cs))), lib_negotiated = (\<lambda>_ _ _ w. (Inr 60, w)),
     lib_mux_open = (\<lambda>_ _ w. (Inr 0, w)), lib_mux_close = (\<lambda>_ w. w), lib_has_ice = (\<lambda>_ _. False),
     lib_max_message = (\<lambda>_ _. 65536), lib_pair = (\<lambda>_ _ _. None), lib_stats = (\<lambda>_ _. [])\<rparr>"

definition demo_peer :: "(demo_world, nat, nat) peer" where
  "demo_peer = New_peer \<lparr>cli_baseURL = demo_url, cli_origin = [], cli_token = []\<rparr> zero_credentials True
     \<lparr>po_UDPPort = 0, po_DirectTimeout = 0, po_AllowRelay = False, po_RelayProvider = [], po_ParallelConnections = 0,
      po_SCTPReceiveBufferSize = 0, po_UDPBufferSize = 0\<rparr> (0, None, [])"

definition demo_connecting :: "connect_state \<times> (demo_world, nat, nat) peer" where
  "demo_connecting = connect_begin demo_lib demo_peer"

lemma demo_laws: "description_laws (lib_pion demo_lib)"
  by (auto simp: description_laws_def demo_lib_def demo_library_def)

lemma demo_read: "read_response (Some (\<lambda>v. decode_struct [''iceServers'', ''policy''] set_ice v zero_ice)) zero_ice
    \<lparr>rsp_StatusCode = 200, rsp_Status = ''OK'', rsp_Body = ''{}''\<rparr> = Inr zero_ice"
proof -
  have "first_value ''{}'' = Some (JObj [])" by code_simp
  moreover have "decode_struct [''iceServers'', ''policy''] set_ice (JObj []) zero_ice = Some zero_ice" by code_simp
  ultimately show ?thesis by (simp add: read_response_def)
qed

lemma demo_ICE: "lib_connect B = lc \<Longrightarrow> lib_web B = demo_service \<Longrightarrow> peer_ICE B mode provider p = (Inr zero_ice, p)"
  using demo_read by (simp add: peer_ICE_def ICE_def request_def demo_service_def)

lemma demo_replace:
  assumes "lib_connect B = (\<lambda>_ (n, r, cs). (Inr (f n), (Suc n, r, cs)))" "lib_pion B = demo_library" "lib_negotiated B = (\<lambda>_ _ _ w. (Inr 60, w))"
    and "peer_pc p = None \<or> True" "peer_transport p = None" "peer_world p = (n, r, cs)"
  shows "\<exists>q. replaceConnection B configuration True p = (None, q) \<and> peer_pc q = Some (f n)
    \<and> map_get (attached q) 50 \<noteq> None \<and> peer_world q = (Suc n, r, cs) \<and> peer_pending q = []
    \<and> peer_initiator q = peer_initiator p \<and> peer_transport q = None"
  using assms
  by (auto simp: replaceConnection_def newPeerConnection_def switch_connection_def close_previous_def create_channel_def attachChannel_def
     demo_library_def on_world_def Let_def split: option.split)

lemma demo_opens: "map_get (attached (snd demo_connecting)) 50 \<noteq> None \<and> fst demo_connecting = Connecting AwaitStart
    \<and> peer_pc (snd demo_connecting) = Some 1 \<and> peer_world (snd demo_connecting) = (1, None, [])
    \<and> peer_pending (snd demo_connecting) = [] \<and> peer_transport (snd demo_connecting) = None"
proof -
  obtain q where "replaceConnection demo_lib zero_ice True demo_peer = (None, q)" "peer_pc q = Some 1"
      "map_get (attached q) 50 \<noteq> None" "peer_world q = (1, None, [])" "peer_pending q = []" "peer_initiator q"
      "peer_transport q = None"
    using demo_replace [of demo_lib Suc demo_peer 0 None "[]" zero_ice] by (auto simp: demo_lib_def demo_peer_def New_peer_def)
  moreover have "peer_initiator demo_peer" "po_UDPPort (peer_options demo_peer) = 0"
    by (simp_all add: demo_peer_def New_peer_def peer_defaults_def)
  moreover have "peer_ICE demo_lib ''direct'' [] demo_peer = (Inr zero_ice, demo_peer)"
    by (simp add: demo_ICE demo_lib_def)
  moreover have "Dial_signaling (lib_web demo_lib) (lib_ws demo_lib) c cr w
      = (Inr \<lparr>sgn_conn = 7, sgn_inbox = new_inbox, sgn_closed = False\<rparr>, w)" for c cr w
    by (simp add: Dial_signaling_def demo_lib_def)
  ultimately show ?thesis by (simp add: demo_connecting_def connect_begin_def open_mux_def)
qed


text \<open>One candidate before the answer, two after it.\<close>

theorem candidates_wait_for_description_witness:
  "let p = snd demo_connecting
   in handle_signals demo_lib [candidate_signal demo_lib 4, answer_signal demo_lib 9, candidate_signal demo_lib 5,
        candidate_signal demo_lib 6] p = (None, p\<lparr>peer_pending := [], peer_world := (1, Some 9, [4, 5, 6])\<rparr>)"
  using candidates_wait_for_description [OF demo_laws, of "snd demo_connecting" 1 9 "(1, Some 9, [])" 1 "[4, 5, 6]"] demo_opens
  by (simp add: demo_lib_def demo_library_def)

text \<open>A peer on connection 1 whose library hands out 2 next, and never 1.\<close>

definition demo_relay :: "ice_configuration" where
  "demo_relay = zero_ice\<lparr>ice_Policy := zero_policy\<lparr>pol_Transport := ''relay''\<rparr>\<rparr>"


end
